(* ===== verification/Prelude.thy ===== *)
theory Prelude
  imports Complex_Main "HOL-Library.Word" "HOL-Library.Multiset"
begin

text \<open>
  Shared ground of the development: the machine types of the Go sources, the values an operation
  can fail with, the lemma collections the component theories fill, and generic facts on lists,
  options and words. Nothing here models a file of the repository.
\<close>

unbundle bit_operations_syntax

section \<open>Machine types\<close>

type_synonym byte = "8 word"
type_synonym u16 = "16 word"
type_synonym u32 = "32 word"
type_synonym u64 = "64 word"
type_synonym bytes = "byte list"

text \<open>
  Durations are \<open>time.Duration\<close>, a signed 64-bit count of nanoseconds; instants are counts of
  nanoseconds since a fixed origin. Both are kept as \<open>int\<close>; where a source expression can leave
  the 64-bit range the wrap-around is written out at that place.
\<close>

type_synonym duration = int
type_synonym instant = int

section \<open>Errors\<close>

text \<open>
  Every error a modelled operation returns. The sentinel errors that the code compares with
  \<open>errors.Is\<close> have a constructor of their own; \<open>Panic\<close> stands for a run-time panic (nil
  dereference, division by zero), so that the absence of panics can be stated and proved.
\<close>

datatype gerror =
    Err string
  | FieldError string string string
  | EOF
  | UnexpectedEOF
  | ShortWrite
  | ErrProtocol
  | ErrConflict
  | ErrUnavailable
  | ErrTruncated
  | ErrTerminal
  | Canceled
  | DeadlineExceeded
  | NetTimeout
  | Panic string

type_synonym 'a result = "gerror + 'a"

named_theorems eval_simps \<open>unfolding rules that evaluate closed terms\<close>
named_theorems wire_simps \<open>unfolding rules of the byte-level codecs\<close>
named_theorems config_defs \<open>unfolding rules of the configuration validators\<close>
named_theorems step_simps \<open>unfolding rules of the step functions of the sessions\<close>

declare Let_def [eval_simps]

section \<open>Lists\<close>

lemma length_takeWhile_dropWhile:
  "length (takeWhile P xs) + length (dropWhile P xs) = length xs"
  by (metis length_append takeWhile_dropWhile_id)

lemma dropWhile_hd_False: "dropWhile P xs = y # ys \<Longrightarrow> \<not> P y"
  by (metis dropWhile_eq_Cons_conv)

lemma length_tl_dropWhile_less:
  "dropWhile P xs \<noteq> [] \<Longrightarrow> length (tl (dropWhile P xs)) < length xs"
  by (metis length_dropWhile_le length_tl diff_less length_greater_0_conv
      zero_less_one less_le_trans)

lemma sort_key_perm_eq:
  assumes "mset xs = mset ys" and "inj_on f (set xs)"
  shows "sort_key f xs = sort_key f ys"
  using assms by (intro sort_key_inj_key_eq) simp_all

section \<open>Words\<close>

lemma word_bit_less:
  fixes v :: "'a::len word"
  assumes "v < 2 ^ n" "n < LENGTH('a)" "bit v k"
  shows "k < n"
proof -
  have "unat ((2::'a word) ^ n) = 2 ^ n"
    using assms(2) by (metis of_nat_numeral of_nat_power power_strict_increasing_iff one_less_numeral_iff
        semiring_norm(76) unat_of_nat mod_less)
  then have "take_bit n v = v"
    using assms(1) by (simp add: take_bit_eq_mod word_unat_eq_iff unat_mod_distrib word_less_nat_alt)
  then show ?thesis using assms(3) by (metis bit_take_bit_iff)
qed

section \<open>Runs of a machine\<close>

text \<open>
  The operations of a component change its state and may fail. \<open>run_ops\<close> performs a list of them;
  the interface \<open>machine\<close> is what a component promises when an invariant makes every operation
  succeed.
\<close>

fun run_ops :: "('op \<Rightarrow> 's \<Rightarrow> 's result) \<Rightarrow> 'op list \<Rightarrow> 's \<Rightarrow> 's result" where
  "run_ops step [] s = Inr s"
| "run_ops step (op # ops) s = (case step op s of Inl err \<Rightarrow> Inl err | Inr s' \<Rightarrow> run_ops step ops s')"

lemma run_ops_append:
  "run_ops step (xs @ ys) s = (case run_ops step xs s of Inl err \<Rightarrow> Inl err | Inr s' \<Rightarrow> run_ops step ys s')"
  by (induction xs arbitrary: s) (auto split: sum.splits)

locale machine =
  fixes step :: "'op \<Rightarrow> 's \<Rightarrow> 's result" and inv :: "'s \<Rightarrow> bool"
  assumes step_inv: "inv s \<Longrightarrow> \<exists>s'. step op s = Inr s' \<and> inv s'"
begin

lemma run_total: "inv s \<Longrightarrow> \<exists>s'. run_ops step ops s = Inr s' \<and> inv s'"
proof (induction ops arbitrary: s)
  case (Cons op ops)
  then obtain s1 where "step op s = Inr s1" "inv s1" using step_inv by blast
  then show ?case using Cons.IH by simp
qed simp

lemma run_inv: "inv s \<Longrightarrow> run_ops step ops s = Inr s' \<Longrightarrow> inv s'"
  using run_total by (metis sum.inject(2))

end

end
