(* ===== verification/Golib.thy ===== *)
theory Golib
  imports Prelude "HOL-Library.Char_ord" "HOL-Library.List_Lexorder"
begin

text \<open>
  The parts of the Go standard library the sources call, as executable functions: package
  \<open>strings\<close> on byte strings, \<open>strconv\<close>, \<open>unicode/utf8\<close>, \<open>path/filepath\<close> on Unix, the host and port
  functions of \<open>net\<close> and \<open>net/url\<close>, \<open>io.ReadFull\<close>, \<open>encoding/binary\<close>, IEEE comparisons of
  \<open>float64\<close>, and the PCG generator of \<open>math/rand/v2\<close>. A Go string is a sequence of bytes, so it is a
  HOL \<open>string\<close>, whose characters are bytes.
\<close>

section \<open>Package strings\<close>

definition hasPrefix :: "'a list \<Rightarrow> 'a list \<Rightarrow> bool" where
  "hasPrefix s p \<longleftrightarrow> take (length p) s = p"

definition hasSuffix :: "'a list \<Rightarrow> 'a list \<Rightarrow> bool" where
  "hasSuffix s p \<longleftrightarrow> length p \<le> length s \<and> drop (length s - length p) s = p"

definition trimPrefix :: "'a list \<Rightarrow> 'a list \<Rightarrow> 'a list" where
  "trimPrefix s p = (if hasPrefix s p then drop (length p) s else s)"

definition trimSuffix :: "'a list \<Rightarrow> 'a list \<Rightarrow> 'a list" where
  "trimSuffix s p = (if hasSuffix s p then take (length s - length p) s else s)"

text \<open>\<open>strings.Cut\<close> and \<open>strings.Split\<close> for a separator of one byte.\<close>

definition cut :: "'a \<Rightarrow> 'a list \<Rightarrow> 'a list \<times> 'a list \<times> bool" where
  "cut c s = (takeWhile (\<lambda>x. x \<noteq> c) s, tl (dropWhile (\<lambda>x. x \<noteq> c) s), c \<in> set s)"

fun split :: "'a \<Rightarrow> 'a list \<Rightarrow> 'a list list" where
  "split c [] = [[]]"
| "split c (x # xs) =
     (if x = c then [] # split c xs
      else case split c xs of [] \<Rightarrow> [[x]] | part # parts \<Rightarrow> (x # part) # parts)"

fun join :: "'a list \<Rightarrow> 'a list list \<Rightarrow> 'a list" where
  "join sep [] = []"
| "join sep [x] = x"
| "join sep (x # xs) = x @ sep @ join sep xs"

definition containsAny :: "'a list \<Rightarrow> 'a list \<Rightarrow> bool" where
  "containsAny s cs = list_ex (\<lambda>c. c \<in> set cs) s"

fun contains :: "'a list \<Rightarrow> 'a list \<Rightarrow> bool" where
  "contains [] p = (p = [])"
| "contains (x # xs) p = (hasPrefix (x # xs) p \<or> contains xs p)"

definition chr_code :: "char \<Rightarrow> nat" where
  "chr_code c = of_char c"

definition is_lower :: "char \<Rightarrow> bool" where
  "is_lower c \<longleftrightarrow> 97 \<le> chr_code c \<and> chr_code c \<le> 122"

definition is_upper :: "char \<Rightarrow> bool" where
  "is_upper c \<longleftrightarrow> 65 \<le> chr_code c \<and> chr_code c \<le> 90"

definition is_digit :: "char \<Rightarrow> bool" where
  "is_digit c \<longleftrightarrow> 48 \<le> chr_code c \<and> chr_code c \<le> 57"

text \<open>
  \<open>strings.ToLower\<close>, used by the sources only on strings already checked to be ASCII.
\<close>

definition lower_char :: "char \<Rightarrow> char" where
  "lower_char c = (if is_upper c then char_of (chr_code c + 32) else c)"

definition toLower :: "string \<Rightarrow> string" where
  "toLower s = map lower_char s"

text \<open>Rewriting of characters given by their code, for the evaluation of closed terms.\<close>

lemma char_of_nat_eval [eval_simps]:
  "char_of (n :: nat) = Char (odd n) (odd (n div 2)) (odd (n div 4)) (odd (n div 8))
     (odd (n div 16)) (odd (n div 32)) (odd (n div 64)) (odd (n div 128))"
  by (simp add: char_of_def bit_iff_odd)

declare hasPrefix_def [eval_simps] hasSuffix_def [eval_simps] containsAny_def [eval_simps]
  chr_code_def [eval_simps] is_lower_def [eval_simps] is_upper_def [eval_simps]
  is_digit_def [eval_simps] lower_char_def [eval_simps] toLower_def [eval_simps]

section \<open>Package unicode/utf8\<close>

text \<open>
  Decoding of one rune, with its width; an invalid byte decodes to U+FFFD with width 1, as
  \<open>utf8.DecodeRune\<close> and \<open>range\<close> over a string do.
\<close>

definition cont :: "nat \<Rightarrow> bool" where
  "cont b \<longleftrightarrow> 128 \<le> b \<and> b \<le> 191"

definition decode_rune :: "nat list \<Rightarrow> nat \<times> nat" where
  "decode_rune bs = (case bs of
      [] \<Rightarrow> (65533, 0)
    | a # r \<Rightarrow>
       if a < 128 then (a, 1)
       else if 194 \<le> a \<and> a \<le> 223 then
         (case r of b # _ \<Rightarrow> if cont b then ((a - 192) * 64 + (b - 128), 2) else (65533, 1)
          | _ \<Rightarrow> (65533, 1))
       else if 224 \<le> a \<and> a \<le> 239 then
         (case r of b # c # _ \<Rightarrow>
            if cont b \<and> cont c \<and> (a = 224 \<longrightarrow> 160 \<le> b) \<and> (a = 237 \<longrightarrow> b \<le> 159)
            then ((a - 224) * 4096 + (b - 128) * 64 + (c - 128), 3) else (65533, 1)
          | _ \<Rightarrow> (65533, 1))
       else if 240 \<le> a \<and> a \<le> 244 then
         (case r of b # c # d # _ \<Rightarrow>
            if cont b \<and> cont c \<and> cont d \<and> (a = 240 \<longrightarrow> 144 \<le> b) \<and> (a = 244 \<longrightarrow> b \<le> 143)
            then ((a - 240) * 262144 + (b - 128) * 4096 + (c - 128) * 64 + (d - 128), 4)
            else (65533, 1)
          | _ \<Rightarrow> (65533, 1))
       else (65533, 1))"

text \<open>The runes of a byte sequence, each with the bytes it was decoded from.\<close>

function rune_chunks :: "nat list \<Rightarrow> (nat \<times> nat list) list" where
  "rune_chunks bs = (if bs = [] then []
     else let w = max 1 (snd (decode_rune bs))
          in (fst (decode_rune bs), take w bs) # rune_chunks (drop w bs))"
  by pat_completeness auto
termination by (relation "measure length") auto

declare rune_chunks.simps [simp del]

definition runes :: "nat list \<Rightarrow> nat list" where
  "runes bs = map fst (rune_chunks bs)"

definition string_runes :: "string \<Rightarrow> nat list" where
  "string_runes s = runes (map of_char s)"

text \<open>
  \<open>unicode.IsSpace\<close>; and the simple upper-case and folding maps on the runes that have an ASCII
  image. Every other non-ASCII rune is mapped to a non-ASCII rune by Go's tables and to itself
  here; the sources only compare the results with ASCII text, which cannot tell the difference.
\<close>

definition is_space_rune :: "nat \<Rightarrow> bool" where
  "is_space_rune r \<longleftrightarrow> (9 \<le> r \<and> r \<le> 13) \<or> r = 32 \<or> r = 133 \<or> r = 160 \<or> r = 5760
     \<or> (8192 \<le> r \<and> r \<le> 8202) \<or> r = 8232 \<or> r = 8233 \<or> r = 8239 \<or> r = 8287 \<or> r = 12288"

definition upper_rune :: "nat \<Rightarrow> nat" where
  "upper_rune r = (if 97 \<le> r \<and> r \<le> 122 then r - 32
     else if r = 305 then 73 else if r = 383 then 83 else r)"

definition fold_rune :: "nat \<Rightarrow> nat" where
  "fold_rune r = (if 65 \<le> r \<and> r \<le> 90 then r + 32
     else if r = 8490 then 107 else if r = 383 then 115 else r)"

definition equalFold :: "string \<Rightarrow> string \<Rightarrow> bool" where
  "equalFold s t \<longleftrightarrow> map fold_rune (string_runes s) = map fold_rune (string_runes t)"

definition trimSpace_runes :: "nat list \<Rightarrow> nat list" where
  "trimSpace_runes rs = rev (dropWhile is_space_rune (rev (dropWhile is_space_rune rs)))"

text \<open>\<open>bytes.TrimSpace\<close>.\<close>

definition trimSpace_bytes :: "bytes \<Rightarrow> bytes" where
  "trimSpace_bytes bs =
     (let space = (\<lambda>(r, _). is_space_rune r)
      in map of_nat (concat (map snd
           (rev (dropWhile space (rev (dropWhile space (rune_chunks (map unat bs)))))))))"

text \<open>\<open>strings.Fields\<close>: the maximal runs of non-space runes; \<open>acc\<close> is the current run, reversed.\<close>

fun fields_acc :: "nat list \<Rightarrow> nat list \<Rightarrow> nat list list" where
  "fields_acc acc [] = (if acc = [] then [] else [rev acc])"
| "fields_acc acc (r # rs) =
     (if is_space_rune r
      then (if acc = [] then fields_acc [] rs else rev acc # fields_acc [] rs)
      else fields_acc (r # acc) rs)"

definition fields_runes :: "nat list \<Rightarrow> nat list list" where
  "fields_runes rs = fields_acc [] rs"

section \<open>Package strconv\<close>

fun itoa_nat :: "nat \<Rightarrow> string" where
  "itoa_nat n = (if n < 10 then [char_of (48 + n)]
                 else itoa_nat (n div 10) @ [char_of (48 + n mod 10)])"

declare itoa_nat.simps [simp del]

definition itoa :: "int \<Rightarrow> string" where
  "itoa n = (if n < 0 then CHR ''-'' # itoa_nat (nat (- n)) else itoa_nat (nat n))"

fun digits_value :: "nat \<Rightarrow> string \<Rightarrow> nat" where
  "digits_value acc [] = acc"
| "digits_value acc (c # cs) = digits_value (acc * 10 + (chr_code c - 48)) cs"

definition parse_digits :: "string \<Rightarrow> nat option" where
  "parse_digits s = (if s \<noteq> [] \<and> list_all is_digit s then Some (digits_value 0 s) else None)"

text \<open>\<open>strconv.Atoi\<close>: an optional sign, decimal digits, and the range of a 64-bit \<open>int\<close>.\<close>

definition atoi :: "string \<Rightarrow> int option" where
  "atoi s = (let neg = (case s of c # _ \<Rightarrow> c = CHR ''-'' | [] \<Rightarrow> False);
                 signed = (case s of c # _ \<Rightarrow> c = CHR ''-'' \<or> c = CHR ''+'' | [] \<Rightarrow> False)
     in case parse_digits (if signed then tl s else s) of
          None \<Rightarrow> None
        | Some n \<Rightarrow>
            let v = (if neg then - int n else int n)
            in if - (2 ^ 63) \<le> v \<and> v < 2 ^ 63 then Some v else None)"

text \<open>\<open>strconv.ParseUint(s, 10, w)\<close>.\<close>

definition parseUint :: "nat \<Rightarrow> string \<Rightarrow> nat option" where
  "parseUint w s = (case parse_digits s of
      None \<Rightarrow> None | Some n \<Rightarrow> if n < 2 ^ w then Some n else None)"

section \<open>Package path/filepath on Unix\<close>

definition isAbs :: "string \<Rightarrow> bool" where
  "isAbs p = hasPrefix p ''/''"

text \<open>
  \<open>filepath.Clean\<close>: \<open>out\<close> holds the components kept so far, last one first; \<open>..\<close> removes a kept
  component, stays at the front of a relative path, and vanishes at the root.
\<close>

fun clean_parts :: "bool \<Rightarrow> string list \<Rightarrow> string list \<Rightarrow> string list" where
  "clean_parts rooted out [] = rev out"
| "clean_parts rooted out (x # xs) =
     (if x = [] \<or> x = ''.'' then clean_parts rooted out xs
      else if x = ''..'' then
        (case out of
           [] \<Rightarrow> clean_parts rooted (if rooted then [] else [x]) xs
         | y # ys \<Rightarrow> if y = ''..'' then clean_parts rooted (x # out) xs
                   else clean_parts rooted ys xs)
      else clean_parts rooted (x # out) xs)"

definition path_clean :: "string \<Rightarrow> string" where
  "path_clean p =
     (let body = join ''/'' (clean_parts (isAbs p) [] (split (CHR ''/'') p))
      in if isAbs p then CHR ''/'' # body else if body = [] then ''.'' else body)"

definition path_join :: "string \<Rightarrow> string \<Rightarrow> string" where
  "path_join a b =
     (let parts = filter (\<lambda>s. s \<noteq> []) [a, b]
      in if parts = [] then [] else path_clean (join ''/'' parts))"

definition path_dir :: "string \<Rightarrow> string" where
  "path_dir p = path_clean (rev (dropWhile (\<lambda>c. c \<noteq> CHR ''/'') (rev p)))"

section \<open>Hosts and ports of net and net/url\<close>

definition last_colon :: "string \<Rightarrow> (string \<times> string) option" where
  "last_colon s = (if CHR '':'' \<in> set s
     then Some (rev (tl (dropWhile (\<lambda>c. c \<noteq> CHR '':'') (rev s))),
                rev (takeWhile (\<lambda>c. c \<noteq> CHR '':'') (rev s)))
     else None)"

text \<open>
  \<open>net.SplitHostPort\<close>: the port follows the last colon; a bracketed host must end with \<open>]\<close> just
  before that colon; no other colon or bracket may occur.
\<close>

definition splitHostPort :: "string \<Rightarrow> (string \<times> string) option" where
  "splitHostPort hp = (case last_colon hp of
      None \<Rightarrow> None
    | Some (h, port) \<Rightarrow>
       if hasPrefix hp ''['' then
         (if CHR '']'' \<notin> set hp then None
          else let inner = takeWhile (\<lambda>c. c \<noteq> CHR '']'') (tl hp);
                   rest = tl (dropWhile (\<lambda>c. c \<noteq> CHR '']'') hp)
               in if rest = CHR '':'' # port
                     \<and> CHR ''['' \<notin> set (tl hp) \<and> CHR '']'' \<notin> set rest
                  then Some (inner, port) else None)
       else if CHR '':'' \<in> set h \<or> CHR ''['' \<in> set hp \<or> CHR '']'' \<in> set hp then None
       else Some (h, port))"

definition joinHostPort :: "string \<Rightarrow> string \<Rightarrow> string" where
  "joinHostPort host port =
     (if CHR '':'' \<in> set host then ''['' @ host @ '']:'' @ port else host @ CHR '':'' # port)"

text \<open>
  A parsed \<open>net/url.URL\<close>, with the fields the sources read. \<open>url.Parse\<close> itself is an argument of
  the definitions that call it; \<open>URL.Hostname\<close> and \<open>URL.Port\<close> are functions of the host.
\<close>

record url =
  u_Scheme :: string
  u_User :: bool
  u_Opaque :: string
  u_Host :: string
  u_Path :: string
  u_RawQuery :: string
  u_ForceQuery :: bool
  u_Fragment :: string

definition url_split :: "string \<Rightarrow> string \<times> string" where
  "url_split hp =
     (let (host, port) = (case last_colon hp of
            None \<Rightarrow> (hp, [])
          | Some (h, p) \<Rightarrow> if list_all is_digit p then (h, p) else (hp, []))
      in (if hasPrefix host ''['' \<and> hasSuffix host '']''
          then take (length host - 2) (drop 1 host) else host, port))"

definition url_Hostname :: "url \<Rightarrow> string" where
  "url_Hostname u = fst (url_split (u_Host u))"

definition url_Port :: "url \<Rightarrow> string" where
  "url_Port u = snd (url_split (u_Host u))"

section \<open>Readers, writers and byte order\<close>

text \<open>
  A reader is the bytes it will still deliver and the error it then ends with. \<open>readFull n\<close> is
  \<open>io.ReadFull\<close> into a buffer of \<open>n\<close> bytes.
\<close>

type_synonym reader = "bytes \<times> gerror"

definition readFull :: "nat \<Rightarrow> reader \<Rightarrow> (bytes \<times> reader) result" where
  "readFull n r = (let (bs, e) = r in
     if n \<le> length bs then Inr (take n bs, drop n bs, e)
     else Inl (if e = EOF \<and> bs \<noteq> [] then UnexpectedEOF else e))"

text \<open>
  A writer answers its \<open>i\<close>-th \<open>Write\<close> call with the number of bytes taken and an error.
\<close>

type_synonym writer = "nat \<Rightarrow> bytes \<Rightarrow> nat \<times> gerror option"

definition le16 :: "bytes \<Rightarrow> u16" where
  "le16 b = ucast (b ! 0) OR push_bit 8 (ucast (b ! 1))"

definition le32 :: "bytes \<Rightarrow> u32" where
  "le32 b = ucast (b ! 0) OR push_bit 8 (ucast (b ! 1)) OR push_bit 16 (ucast (b ! 2))
     OR push_bit 24 (ucast (b ! 3))"

definition be32 :: "bytes \<Rightarrow> u32" where
  "be32 b = ucast (b ! 3) OR push_bit 8 (ucast (b ! 2)) OR push_bit 16 (ucast (b ! 1))
     OR push_bit 24 (ucast (b ! 0))"

definition put_be32 :: "u32 \<Rightarrow> bytes" where
  "put_be32 v = [ucast (drop_bit 24 v), ucast (drop_bit 16 v), ucast (drop_bit 8 v), ucast v]"

definition put_le16 :: "u16 \<Rightarrow> bytes" where
  "put_le16 v = [ucast v, ucast (drop_bit 8 v)]"

definition le64 :: "bytes \<Rightarrow> u64" where
  "le64 b = foldr (\<lambda>x acc. ucast x OR push_bit 8 acc) (take 8 b) 0"

definition put_le64 :: "u64 \<Rightarrow> bytes" where
  "put_le64 v = map (\<lambda>i. ucast (drop_bit (8 * i) v)) [0..<8]"

section \<open>Strings, bytes and hexadecimal digits\<close>

definition bytes_string :: "bytes \<Rightarrow> string" where
  "bytes_string b = map (\<lambda>x. char_of (unat x)) b"

definition string_bytes :: "string \<Rightarrow> bytes" where
  "string_bytes s = map of_char s"

text \<open>\<open>encoding/hex\<close>: encoding uses lower-case digits, decoding accepts both cases.\<close>

definition hex_digit :: "nat \<Rightarrow> char" where
  "hex_digit n = (if n < 10 then char_of (48 + n) else char_of (87 + n))"

definition hex_value :: "char \<Rightarrow> nat option" where
  "hex_value c =
     (if is_digit c then Some (chr_code c - 48)
      else if 97 \<le> chr_code c \<and> chr_code c \<le> 102 then Some (chr_code c - 87)
      else if 65 \<le> chr_code c \<and> chr_code c \<le> 70 then Some (chr_code c - 55)
      else None)"

definition hex_encode :: "bytes \<Rightarrow> string" where
  "hex_encode b = concat (map (\<lambda>x. [hex_digit (unat x div 16), hex_digit (unat x mod 16)]) b)"

fun hex_decode :: "string \<Rightarrow> bytes option" where
  "hex_decode [] = Some []"
| "hex_decode [c] = None"
| "hex_decode (c # d # rest) =
     (case (hex_value c, hex_value d, hex_decode rest) of
        (Some a, Some b, Some bs) \<Rightarrow> Some (of_nat (16 * a + b) # bs)
      | _ \<Rightarrow> None)"

section \<open>float64\<close>

text \<open>A finite value other than negative zero is a rational number.\<close>

datatype float64 = FNaN | FInf bool | FNegZero | Fin rat

definition fl_eq0 :: "float64 \<Rightarrow> bool" where
  "fl_eq0 x \<longleftrightarrow> x = FNegZero \<or> x = Fin 0"

fun fl_less :: "float64 \<Rightarrow> float64 \<Rightarrow> bool" where
  "fl_less FNaN y = False"
| "fl_less x FNaN = False"
| "fl_less (FInf p) (FInf q) = (\<not> p \<and> q)"
| "fl_less (FInf p) y = (\<not> p)"
| "fl_less x (FInf q) = q"
| "fl_less FNegZero FNegZero = False"
| "fl_less FNegZero (Fin b) = (0 < b)"
| "fl_less (Fin a) FNegZero = (a < 0)"
| "fl_less (Fin a) (Fin b) = (a < b)"

section \<open>The PCG generator of math/rand/v2\<close>

record pcg =
  pcg_hi :: u64
  pcg_lo :: u64

definition pcg_mul :: "128 word" where
  "pcg_mul = push_bit 64 2549297995355413924 OR 4865540595714422341"

definition pcg_inc :: "128 word" where
  "pcg_inc = push_bit 64 6364136223846793005 OR 1442695040888963407"

definition pcg_next :: "pcg \<Rightarrow> pcg" where
  "pcg_next p =
     (let s = (push_bit 64 (ucast (pcg_hi p)) OR ucast (pcg_lo p)) * pcg_mul + pcg_inc
      in \<lparr>pcg_hi = ucast (drop_bit 64 s), pcg_lo = ucast s\<rparr>)"

text \<open>\<open>PCG.Uint64\<close>: advance, then the DXSM output function.\<close>

definition pcg_Uint64 :: "pcg \<Rightarrow> u64 \<times> pcg" where
  "pcg_Uint64 p =
     (let q = pcg_next p;
          h1 = pcg_hi q XOR drop_bit 32 (pcg_hi q);
          h2 = h1 * 0xda942042e4dd58b5;
          h3 = h2 XOR drop_bit 48 h2;
          h4 = h3 * (pcg_lo q OR 1)
      in (h4, q))"

text \<open>\<open>Rand.Float64\<close>: the low 53 bits of the next output over \<open>2 ^ 53\<close>, exact in a \<open>float64\<close>.\<close>

definition pcg_Float64 :: "pcg \<Rightarrow> float64 \<times> pcg" where
  "pcg_Float64 p =
     (let (u, q) = pcg_Uint64 p
      in (Fin (of_nat (unat (drop_bit 11 (push_bit 11 u))) / 2 ^ 53), q))"

section \<open>Maps with string keys\<close>

text \<open>
  A Go map with string keys that the sources iterate over or compare is an association list with
  strictly increasing keys: one list per map, in the key order \<open>encoding/json\<close> also prints. Strings
  are ordered bytewise, as Go orders them.
\<close>

type_synonym 'v gomap = "(string \<times> 'v) list"

fun gm_put :: "string \<Rightarrow> 'v \<Rightarrow> 'v gomap \<Rightarrow> 'v gomap" where
  "gm_put k v [] = [(k, v)]"
| "gm_put k v ((k', v') # m) =
     (if k = k' then (k, v) # m
      else if k < k' then (k, v) # (k', v') # m
      else (k', v') # gm_put k v m)"

definition gm_ok :: "'v gomap \<Rightarrow> bool" where
  "gm_ok m \<longleftrightarrow> sorted_wrt (<) (map fst m)"

lemma set_map_fst_gm_put [simp]: "fst ` set (gm_put k v m) = insert k (fst ` set m)"
  by (induction k v m rule: gm_put.induct) (simp_all add: insert_commute)

lemma gm_put_lookup [simp]: "map_of (gm_put k v m) = (map_of m)(k \<mapsto> v)"
  by (induction m) (auto simp: fun_eq_iff)

lemma gm_ok_Nil [simp]: "gm_ok []"
  by (simp add: gm_ok_def)

lemma gm_put_ok [intro]: "gm_ok m \<Longrightarrow> gm_ok (gm_put k v m)"
proof (induction m)
  case (Cons e m)
  obtain k' v' where e: "e = (k', v')" by (cases e)
  from Cons.prems have ok: "\<forall>x \<in> fst ` set m. k' < x" "gm_ok m"
    by (simp_all add: gm_ok_def e)
  consider "k = k'" | "k < k'" | "k' < k" by fastforce
  then show ?case
  proof cases
    case 2
    with ok have "\<forall>x \<in> fst ` set m. k < x" by (blast intro: less_trans)
    with 2 ok show ?thesis by (simp add: gm_ok_def e)
  next
    case 3
    with ok have "\<forall>x \<in> fst ` set (gm_put k v m). k' < x" by simp
    with 3 ok Cons.IH show ?thesis
      by (simp add: gm_ok_def e less_not_sym del: set_map_fst_gm_put)
  qed (use ok in \<open>simp add: gm_ok_def e\<close>)
qed (simp add: gm_ok_def)

lemma gm_ok_distinct: "gm_ok m \<Longrightarrow> distinct (map fst m)"
  unfolding gm_ok_def by (metis strict_sorted_iff)

text \<open>Two maps with the same entries are the same list.\<close>

lemma gm_ext:
  assumes ok: "gm_ok m" "gm_ok m'" and eq: "map_of m = map_of m'"
  shows "m = m'"
proof -
  have rebuild: "map (\<lambda>k. (k, the (map_of n k))) (map fst n) = n" if "gm_ok n" for n :: "'a gomap"
    using gm_ok_distinct[OF that] by (auto intro: map_idI)
  have "set (map fst m) = set (map fst m')"
    using arg_cong[OF eq, of dom] by (simp add: dom_map_of_conv_image_fst)
  then have "map fst m = map fst m'"
    using ok unfolding gm_ok_def by (metis strict_sorted_equal)
  then have "map (\<lambda>k. (k, the (map_of m k))) (map fst m)
    = map (\<lambda>k. (k, the (map_of m' k))) (map fst m')" by (simp only: eq)
  then show ?thesis by (simp only: rebuild[OF ok(1)] rebuild[OF ok(2)])
qed

declare itoa_nat.simps [eval_simps] itoa_def [eval_simps] parse_digits_def [eval_simps]
  atoi_def [eval_simps] parseUint_def [eval_simps] isAbs_def [eval_simps] path_clean_def [eval_simps]
  path_join_def [eval_simps] last_colon_def [eval_simps] splitHostPort_def [eval_simps]
  joinHostPort_def [eval_simps] url_split_def [eval_simps] url_Hostname_def [eval_simps]
  url_Port_def [eval_simps] trimSuffix_def [eval_simps] trimPrefix_def [eval_simps]
  fl_eq0_def [eval_simps] less_char_def [eval_simps]

end
