(* ===== verification/Config.thy ===== *)
theory Config
  imports Golib
begin

text \<open>
  \<open>internal/config/config.go\<close> and \<open>capabilities.go\<close>: the configuration data, the actions each
  protocol supports, and validated documents with their two fingerprints. A pointer field is an
  option. HOL values are never aliased, so the \<open>Clone\<close> functions have no counterpart.
\<close>

section \<open>Data\<close>

definition APIVersion :: string where
  "APIVersion = ''faultline/v1alpha1''"

definition AfterCommit :: string where
  "AfterCommit = ''after_commit''"

definition BeforeUpstreamRequest :: string where
  "BeforeUpstreamRequest = ''before_upstream_request''"

definition AfterUpstreamHeaders :: string where
  "AfterUpstreamHeaders = ''after_upstream_headers''"

definition TCPOnConnect :: string where
  "TCPOnConnect = ''on_connect''"

definition TCPOnTransfer :: string where
  "TCPOnTransfer = ''on_transfer''"

lemmas phase_defs = AfterCommit_def BeforeUpstreamRequest_def AfterUpstreamHeaders_def
  TCPOnConnect_def TCPOnTransfer_def

record runtime =
  MaxInflightRequests :: int
  RequestTimeout :: duration

record listener_tls =
  lt_CertFile :: string
  lt_KeyFile :: string
  lt_ClientCAFile :: string

record upstream_tls =
  ut_CAFile :: string
  ut_CertFile :: string
  ut_KeyFile :: string

text \<open>
  \<open>m_Headers\<close> distinguishes the nil map (\<open>None\<close>) from an empty one, because the fingerprint of a
  TCP rule does.
\<close>

record matcher =
  m_PathPattern :: string
  m_Method :: string
  m_Service :: string
  m_Path :: string
  m_Headers :: "string gomap option"

record selector =
  s_Probability :: "float64 option"
  s_Nth :: "u64 option"
  s_Every :: "u64 option"

record fault =
  f_Phase :: string
  f_Action :: string
  f_Duration :: "duration option"
  f_MaxDuration :: "duration option"
  f_Status :: "int option"
  f_Body :: "string option"
  f_Direction :: string
  f_Bytes :: "int option"
  f_BytesPerSecond :: "int option"
  f_AfterBytes :: "int option"
  f_AfterDuration :: "duration option"
  f_TriggerDirection :: string

record rule =
  r_ID :: string
  r_Enabled :: bool
  r_Match :: matcher
  r_Select :: selector
  r_Fault :: fault

text \<open>
  \<open>p_Rules\<close> is a list: \<open>validate\<close> replaces a nil slice by an empty one before anything can tell
  them apart.
\<close>

record proxy =
  p_ID :: string
  p_Protocol :: string
  p_UpstreamProtocol :: string
  p_Listen :: string
  p_Upstream :: string
  p_TLS :: "listener_tls option"
  p_UpstreamTLS :: "upstream_tls option"
  p_Rules :: "rule list"

record config =
  c_APIVersion :: string
  c_Seed :: u64
  c_Runtime :: runtime
  c_Proxies :: "proxy list"

definition headers_of :: "matcher \<Rightarrow> string gomap" where
  "headers_of m = (case m_Headers m of None \<Rightarrow> [] | Some h \<Rightarrow> h)"

text \<open>The zero values Go gives to structures that are not set.\<close>

definition zero_matcher :: matcher where
  "zero_matcher = \<lparr>m_PathPattern = [], m_Method = [], m_Service = [], m_Path = [],
     m_Headers = None\<rparr>"

definition zero_selector :: selector where
  "zero_selector = \<lparr>s_Probability = None, s_Nth = None, s_Every = None\<rparr>"

definition zero_fault :: fault where
  "zero_fault = \<lparr>f_Phase = [], f_Action = [], f_Duration = None, f_MaxDuration = None,
     f_Status = None, f_Body = None, f_Direction = [], f_Bytes = None, f_BytesPerSecond = None,
     f_AfterBytes = None, f_AfterDuration = None, f_TriggerDirection = []\<rparr>"

definition DefaultRuntime :: runtime where
  "DefaultRuntime = \<lparr>MaxInflightRequests = 1000, RequestTimeout = 30 * 10 ^ 9\<rparr>"

section \<open>Capabilities\<close>

definition Actions :: "string \<Rightarrow> string list" where
  "Actions protocol =
     (if protocol = ''tcp'' then [''close_connection'', ''hold'', ''throttle'', ''delay_connect'']
      else if protocol = ''postgresql'' \<or> protocol = ''mysql''
        then [''delay'', ''hold_response'', ''close_connection'']
      else [''delay'', ''hold_request'', ''hold_response'', ''truncate'', ''throttle'']
        @ (if protocol = ''http1'' \<or> protocol = ''http2'' then [''respond''] else [])
        @ (if protocol = ''http1'' then [''close_connection''] else []))"

section \<open>Documents\<close>

text \<open>
  A document holds a configuration and two fingerprints. \<open>hash\<close> stands for the SHA-256 of the JSON
  encoding of a configuration with the digests of its TLS files; \<open>'h\<close> is the type of its values.
  A nil \<open>*Document\<close> is \<open>None\<close>.
\<close>

type_synonym digests = "bytes gomap"
type_synonym 'h hasher = "config \<Rightarrow> digests \<Rightarrow> 'h result"

record 'h document =
  d_config :: config
  d_valid :: bool
  d_fingerprint :: 'h
  d_restartFingerprint :: 'h

definition Valid :: "'h document option \<Rightarrow> bool" where
  "Valid d = (case d of None \<Rightarrow> False | Some x \<Rightarrow> d_valid x)"

definition Equal :: "'h document option \<Rightarrow> 'h document option \<Rightarrow> bool" where
  "Equal d other = (case (d, other) of
      (Some x, Some y) \<Rightarrow> d_valid x \<and> d_valid y \<and> d_fingerprint x = d_fingerprint y
    | _ \<Rightarrow> False)"

definition RestartCompatible :: "'h document option \<Rightarrow> 'h document option \<Rightarrow> bool" where
  "RestartCompatible d other = (case (d, other) of
      (Some x, Some y) \<Rightarrow>
        d_valid x \<and> d_valid y \<and> d_restartFingerprint x = d_restartFingerprint y
    | _ \<Rightarrow> False)"

definition canonical :: "config \<Rightarrow> config" where
  "canonical c = c\<lparr>c_Proxies := sort_key p_ID (c_Proxies c)\<rparr>"

definition strip_rules :: "config \<Rightarrow> config" where
  "strip_rules c = c\<lparr>c_Seed := 0, c_Proxies := map (\<lambda>p. p\<lparr>p_Rules := []\<rparr>) (c_Proxies c)\<rparr>"

definition newDocument :: "'h hasher \<Rightarrow> config \<Rightarrow> digests \<Rightarrow> 'h document result" where
  "newDocument hash c tlsDigests =
     (case hash (canonical c) tlsDigests of
        Inl err \<Rightarrow> Inl err
      | Inr full \<Rightarrow>
          (case hash (strip_rules (canonical c)) tlsDigests of
             Inl err \<Rightarrow> Inl err
           | Inr restart \<Rightarrow>
               Inr \<lparr>d_config = c, d_valid = True, d_fingerprint = full,
                    d_restartFingerprint = restart\<rparr>))"

text \<open>The idealisation under which fingerprints stand for what they are computed from.\<close>

definition collision_free :: "'h hasher \<Rightarrow> bool" where
  "collision_free hash \<longleftrightarrow>
     (\<forall>c d c' d' h. hash c d = Inr h \<longrightarrow> hash c' d' = Inr h \<longrightarrow> c = c' \<and> d = d')"

section \<open>Fingerprints\<close>

lemma canonical_perm:
  assumes "mset (c_Proxies c) = mset (c_Proxies c')" and "distinct (map p_ID (c_Proxies c))"
    and "c_APIVersion c = c_APIVersion c'" and "c_Seed c = c_Seed c'" and "c_Runtime c = c_Runtime c'"
  shows "canonical c = canonical c'"
proof -
  have "sort_key p_ID (c_Proxies c) = sort_key p_ID (c_Proxies c')"
    using assms(1,2) by (intro sort_key_perm_eq) (auto simp: distinct_map)
  then show ?thesis using assms(3-5) by (simp add: canonical_def)
qed

lemma newDocument_Inr:
  "newDocument hash c d = Inr doc \<longleftrightarrow>
     d_config doc = c \<and> d_valid doc
     \<and> hash (canonical c) d = Inr (d_fingerprint doc)
     \<and> hash (strip_rules (canonical c)) d = Inr (d_restartFingerprint doc)"
  by (cases doc) (auto simp: newDocument_def split: sum.splits)

lemma sort_key_map_strip:
  "sort_key p_ID (map (\<lambda>p. p\<lparr>p_Rules := []\<rparr>) ps) = map (\<lambda>p. p\<lparr>p_Rules := []\<rparr>) (sort_key p_ID ps)"
proof -
  have ins: "insort_key p_ID (p\<lparr>p_Rules := []\<rparr>) (map (\<lambda>p. p\<lparr>p_Rules := []\<rparr>) qs)
    = map (\<lambda>p. p\<lparr>p_Rules := []\<rparr>) (insort_key p_ID p qs)" for p qs
    by (induction qs) auto
  show ?thesis by (induction ps) (simp_all add: ins)
qed

lemma strip_canonical: "strip_rules (canonical c) = canonical (strip_rules c)"
  by (simp add: strip_rules_def canonical_def sort_key_map_strip)

definition same_shape :: "config \<Rightarrow> config \<Rightarrow> bool" where
  "same_shape c c' \<longleftrightarrow> c_APIVersion c = c_APIVersion c' \<and> c_Runtime c = c_Runtime c'
     \<and> mset (map (\<lambda>p. p\<lparr>p_Rules := []\<rparr>) (c_Proxies c)) = mset (map (\<lambda>p. p\<lparr>p_Rules := []\<rparr>) (c_Proxies c'))"

definition same_content :: "config \<Rightarrow> config \<Rightarrow> bool" where
  "same_content c c' \<longleftrightarrow> c_APIVersion c = c_APIVersion c' \<and> c_Seed c = c_Seed c'
     \<and> c_Runtime c = c_Runtime c' \<and> mset (c_Proxies c) = mset (c_Proxies c')"

lemma canonical_eq_iff:
  assumes "distinct (map p_ID (c_Proxies c))"
  shows "canonical c = canonical c' \<longleftrightarrow> same_content c c'"
proof
  assume eq: "canonical c = canonical c'"
  from arg_cong[OF eq, of c_Proxies] have "mset (c_Proxies c) = mset (c_Proxies c')"
    by (metis canonical_def config.select_convs(4) config.update_convs(4) config.surjective mset_sort)
  moreover from arg_cong[OF eq, of c_APIVersion] arg_cong[OF eq, of c_Seed] arg_cong[OF eq, of c_Runtime]
  have "c_APIVersion c = c_APIVersion c'" "c_Seed c = c_Seed c'" "c_Runtime c = c_Runtime c'"
    by (simp_all add: canonical_def)
  ultimately show "same_content c c'" by (simp add: same_content_def)
next
  assume "same_content c c'"
  then show "canonical c = canonical c'"
    using assms by (intro canonical_perm) (simp_all add: same_content_def)
qed

lemma same_shape_strip: "same_content (strip_rules c) (strip_rules c') \<longleftrightarrow> same_shape c c'"
  by (simp add: same_content_def same_shape_def strip_rules_def)

lemma distinct_strip: "distinct (map p_ID (c_Proxies (strip_rules c))) \<longleftrightarrow> distinct (map p_ID (c_Proxies c))"
  by (simp add: strip_rules_def comp_def)

text \<open>What the two comparisons of documents decide, when the fingerprints do not collide.\<close>

lemma document_compare:
  assumes h: "collision_free hash"
    and d: "newDocument hash c tls = Inr doc" "newDocument hash c' tls' = Inr doc'"
    and ids: "distinct (map p_ID (c_Proxies c))"
  shows "Equal (Some doc) (Some doc') \<longleftrightarrow> same_content c c' \<and> tls = tls'"
    and "RestartCompatible (Some doc) (Some doc') \<longleftrightarrow> same_shape c c' \<and> tls = tls'"
proof -
  have inj: "f = f' \<longleftrightarrow> x = x' \<and> t = t'" if "hash x t = Inr f" "hash x' t' = Inr f'" for x x' t t' f f'
    using h that unfolding collision_free_def by (metis sum.inject(2))
  note n = d[unfolded newDocument_Inr]
  show "Equal (Some doc) (Some doc') \<longleftrightarrow> same_content c c' \<and> tls = tls'"
    using n inj[of "canonical c" tls _ "canonical c'" tls'] by (simp add: Equal_def canonical_eq_iff[OF ids])
  have "strip_rules (canonical c) = strip_rules (canonical c') \<longleftrightarrow> same_shape c c'"
    using canonical_eq_iff[of "strip_rules c" "strip_rules c'"] ids
    by (simp add: strip_canonical same_shape_strip distinct_strip)
  then show "RestartCompatible (Some doc) (Some doc') \<longleftrightarrow> same_shape c c' \<and> tls = tls'"
    using n inj[of "strip_rules (canonical c)" tls _ "strip_rules (canonical c')" tls']
    by (simp add: RestartCompatible_def)
qed

end
