(* ===== verification/Validate.thy ===== *)
theory Validate
  imports Config
begin

text \<open>
  \<open>internal/config/validate.go\<close> and \<open>tls.go\<close>: validation and normalisation of a decoded
  configuration. An operation that fails returns the \<open>FieldError\<close> of the source; one that
  succeeds returns the value with the normalisations the source writes back through its pointers.
\<close>

section \<open>What validation asks of its surroundings\<close>

text \<open>
  The file system, the parsers and the cryptographic checks validation calls. \<open>e_pemDecode\<close> gives
  the type and contents of the first PEM block and the bytes after it.
\<close>

record host_env =
  e_parseIP :: "string \<Rightarrow> bool"
  e_urlParse :: "string \<Rightarrow> url option"
  e_readFile :: "string \<Rightarrow> bytes option"
  e_sha256 :: "bytes \<Rightarrow> bytes"
  e_X509KeyPair :: "bytes \<Rightarrow> bytes \<Rightarrow> bool"
  e_pemDecode :: "bytes \<Rightarrow> (string \<times> bytes \<times> bytes) option"
  e_parseCertificate :: "bytes \<Rightarrow> bool"

definition invalid :: "string \<Rightarrow> string \<Rightarrow> gerror" where
  "invalid path message = FieldError [] path message"

text \<open>The en dash of two messages, in UTF-8.\<close>

definition en_dash :: string where
  "en_dash = [CHR 0xE2, CHR 0x80, CHR 0x93]"

section \<open>Lexical checks\<close>

definition is_alnum :: "char \<Rightarrow> bool" where
  "is_alnum c \<longleftrightarrow> is_lower c \<or> is_upper c \<or> is_digit c"

definition is_identifier :: "string \<Rightarrow> bool" where
  "is_identifier s \<longleftrightarrow> s \<noteq> [] \<and> list_all (\<lambda>c. is_alnum c \<or> c \<in> set ''-_.'') s"

definition host_label :: "string \<Rightarrow> bool" where
  "host_label l \<longleftrightarrow> l \<noteq> [] \<and> length l \<le> 63 \<and> hd l \<noteq> CHR ''-'' \<and> last l \<noteq> CHR ''-''
     \<and> list_all (\<lambda>c. is_alnum c \<or> c = CHR ''-'') l"

definition hostname :: "host_env \<Rightarrow> string \<Rightarrow> bool" where
  "hostname env s \<longleftrightarrow>
     (if e_parseIP env s then True
      else if s = [] \<or> 253 < length s then False
      else list_all host_label (split (CHR ''.'') (trimSuffix s ''.'')))"

definition token :: "string \<Rightarrow> bool" where
  "token s \<longleftrightarrow> s \<noteq> [] \<and>
     list_all (\<lambda>c. is_alnum c \<or> c \<in> set (''!#$%&'' @ [CHR 0x27] @ ''*+-.^_'' @ [CHR 0x60] @ ''|~'')) s"

definition crlf :: string where
  "crlf = [CHR 0x0D, CHR 0x0A]"

text \<open>
  \<open>validPathPattern\<close>: \<open>names\<close> collects the parameter names seen so far.
\<close>

definition param_name :: "string \<Rightarrow> bool" where
  "param_name n \<longleftrightarrow>
     (\<forall>i < length n. is_lower (n ! i) \<or> is_upper (n ! i) \<or> n ! i = CHR ''_''
        \<or> (0 < i \<and> is_digit (n ! i)))"

fun valid_segments :: "string list \<Rightarrow> string list \<Rightarrow> bool" where
  "valid_segments names [] = True"
| "valid_segments names (segment # rest) =
     (if CHR '':'' \<notin> set segment then valid_segments names rest
      else if \<not> hasPrefix segment '':'' \<or> length segment = 1 then False
      else if \<not> param_name (tl segment) then False
      else if tl segment \<in> set names then False
      else valid_segments (tl segment # names) rest)"

definition validPathPattern :: "string \<Rightarrow> bool" where
  "validPathPattern pattern \<longleftrightarrow>
     (if \<not> hasPrefix pattern ''/'' \<or> containsAny pattern (''*?#'' @ crlf) then False
      else valid_segments [] (split (CHR ''/'') pattern))"

definition validUpstreamScheme :: "string \<Rightarrow> string \<Rightarrow> bool" where
  "validUpstreamScheme protocol scheme \<longleftrightarrow>
     (if protocol = ''postgresql'' \<or> protocol = ''mysql''
      then scheme = protocol \<or> scheme = protocol @ ''s''
      else scheme = ''http'' \<or> scheme = ''https'')"

definition tcpDirection :: "string \<Rightarrow> bool" where
  "tcpDirection d \<longleftrightarrow> d = ''client_to_upstream'' \<or> d = ''upstream_to_client''"

section \<open>Selectors\<close>

definition validateSelector :: "selector \<Rightarrow> string \<Rightarrow> selector result" where
  "validateSelector s path =
     (let prob = (case s_Probability s of
            Some p \<Rightarrow> Some (if fl_eq0 p then Fin 0 else p) | None \<Rightarrow> None);
          count = (if s_Probability s \<noteq> None then 1 else 0)
            + (if s_Nth s \<noteq> None then 1 else 0) + (if s_Every s \<noteq> None then 1 else (0::nat))
      in if (case prob of None \<Rightarrow> False
             | Some p \<Rightarrow> p = FNaN \<or> p = FInf True \<or> p = FInf False
                 \<or> fl_less p (Fin 0) \<or> fl_less (Fin 1) p)
         then Inl (invalid (path @ ''.select.probability'') ''must be finite and between 0 and 1'')
         else if s_Nth s = Some 0 then Inl (invalid (path @ ''.select.nth'') ''must be positive'')
         else if s_Every s = Some 0 then Inl (invalid (path @ ''.select.every'') ''must be positive'')
         else if count \<noteq> 1 then Inl (invalid (path @ ''.select'') ''exactly one selector is required'')
         else Inr (s\<lparr>s_Probability := prob\<rparr>))"

section \<open>Faults\<close>

definition nonpos :: "int option \<Rightarrow> bool" where
  "nonpos d \<longleftrightarrow> (case d of None \<Rightarrow> True | Some x \<Rightarrow> x \<le> 0)"

text \<open>The \<open>switch\<close> on the action, then the checks that reject parameters of other actions.\<close>

definition fault_switch :: "fault \<Rightarrow> string \<Rightarrow> unit result" where
  "fault_switch f path =
     (let before = (f_Phase f = BeforeUpstreamRequest); after = (f_Phase f = AfterUpstreamHeaders)
      in if f_Action f = ''delay'' then
           (if nonpos (f_Duration f)
            then Inl (invalid (path @ ''.duration'') ''positive duration is required'') else Inr ())
         else if f_Action f = ''respond'' then
           (if \<not> before
            then Inl (invalid (path @ ''.phase'') ''respond requires before_upstream_request'')
            else if (case f_Status f of None \<Rightarrow> True | Some s \<Rightarrow> s < 200 \<or> 599 < s)
            then Inl (invalid (path @ ''.status'') (''status 200'' @ en_dash @ ''599 is required''))
            else Inr ())
         else if f_Action f = ''hold_request'' \<or> f_Action f = ''hold_response'' then
           (if f_Action f = ''hold_request'' \<and> \<not> before \<or> f_Action f = ''hold_response'' \<and> \<not> after
            then Inl (invalid (path @ ''.phase'') ''unsupported action/phase combination'')
            else if nonpos (f_MaxDuration f)
            then Inl (invalid (path @ ''.max_duration'') ''positive max_duration is required'')
            else Inr ())
         else if f_Action f = ''truncate'' \<or> f_Action f = ''throttle'' then
           (if f_Direction f \<noteq> ''request'' \<and> f_Direction f \<noteq> ''response''
            then Inl (invalid (path @ ''.direction'') ''expected request or response'')
            else if (f_Direction f = ''request'') \<noteq> before
            then Inl (invalid (path @ ''.phase'') ''phase must correspond to direction'')
            else if f_Action f = ''truncate''
                 \<and> (case f_Bytes f of None \<Rightarrow> True | Some n \<Rightarrow> n < 0)
            then Inl (invalid (path @ ''.bytes'') ''nonnegative byte limit is required'')
            else if f_Action f = ''throttle'' \<and> nonpos (f_BytesPerSecond f)
            then Inl (invalid (path @ ''.bytes_per_second'') ''positive rate is required'')
            else Inr ())
         else if f_Action f = ''close_connection'' then Inr ()
         else Inl (invalid (path @ ''.action'') ''unsupported action''))"

definition fault_extra :: "fault \<Rightarrow> string \<Rightarrow> unit result" where
  "fault_extra f path =
     (let unsupported = (\<lambda>field. Inl (invalid (path @ field) ''not supported by this action''))
      in if f_Direction f \<noteq> [] \<and> f_Action f \<noteq> ''truncate'' \<and> f_Action f \<noteq> ''throttle''
           then unsupported ''.direction''
         else if f_Bytes f \<noteq> None \<and> f_Action f \<noteq> ''truncate'' then unsupported ''.bytes''
         else if f_BytesPerSecond f \<noteq> None \<and> f_Action f \<noteq> ''throttle''
           then unsupported ''.bytes_per_second''
         else if f_Duration f \<noteq> None \<and> f_Action f \<noteq> ''delay'' then unsupported ''.duration''
         else if f_MaxDuration f \<noteq> None \<and> f_Action f \<noteq> ''hold_request''
                \<and> f_Action f \<noteq> ''hold_response'' then unsupported ''.max_duration''
         else if f_Status f \<noteq> None \<and> f_Action f \<noteq> ''respond'' then unsupported ''.status''
         else if f_Body f \<noteq> None \<and> f_Action f \<noteq> ''respond'' then unsupported ''.body''
         else Inr ())"

definition validateFault :: "fault \<Rightarrow> string \<Rightarrow> unit result" where
  "validateFault f path =
     (if f_AfterBytes f \<noteq> None \<or> f_AfterDuration f \<noteq> None \<or> f_TriggerDirection f \<noteq> []
      then Inl (invalid path ''TCP trigger fields require protocol tcp'')
      else if f_Phase f \<noteq> BeforeUpstreamRequest \<and> f_Phase f \<noteq> AfterUpstreamHeaders
      then Inl (invalid (path @ ''.phase'') ''unsupported phase'')
      else case fault_switch f path of Inl e \<Rightarrow> Inl e | Inr _ \<Rightarrow> fault_extra f path)"

section \<open>Rules\<close>

text \<open>
  The loop over the header map. Go's iteration order is not specified; here it is the key order.
  Whether the loop fails, and the map it builds, do not depend on the order.
\<close>

fun validate_headers :: "string \<Rightarrow> string gomap \<Rightarrow> string gomap \<Rightarrow> string gomap result" where
  "validate_headers path headers [] = Inr headers"
| "validate_headers path headers ((name, value) # rest) =
     (if \<not> token name \<or> containsAny value (crlf @ [CHR 0x00])
      then Inl (invalid (path @ ''.match.headers'') ''invalid header name or value'')
      else if map_of headers (toLower name) \<noteq> None
      then Inl (invalid (path @ ''.match.headers'') ''duplicate case-insensitive header name'')
      else validate_headers path (gm_put (toLower name) value headers) rest)"

definition validateRule :: "rule \<Rightarrow> string \<Rightarrow> rule result" where
  "validateRule r path =
     (let m = r_Match r in
      if m_Method m \<noteq> [] \<and> \<not> token (m_Method m)
      then Inl (invalid (path @ ''.match.method'') ''invalid method token'')
      else if m_Path m \<noteq> [] \<and> (\<not> hasPrefix (m_Path m) ''/'' \<or> containsAny (m_Path m) (''?#'' @ crlf))
      then Inl (invalid (path @ ''.match.path'') ''expected an exact path without query or fragment'')
      else if m_PathPattern m \<noteq> [] \<and> m_Path m \<noteq> []
      then Inl (invalid (path @ ''.match.path_pattern'') ''cannot combine path and path_pattern'')
      else if m_PathPattern m \<noteq> [] \<and> \<not> validPathPattern (m_PathPattern m)
      then Inl (invalid (path @ ''.match.path_pattern'')
        ''expected an absolute path with whole-segment :name parameters; no duplicate names, wildcard, query or fragment'')
      else case validate_headers path [] (headers_of m) of
        Inl e \<Rightarrow> Inl e
      | Inr headers \<Rightarrow>
          (case validateSelector (r_Select r) path of
             Inl e \<Rightarrow> Inl e
           | Inr s \<Rightarrow>
               (case validateFault (r_Fault r) (path @ ''.fault'') of
                  Inl e \<Rightarrow> Inl e
                | Inr _ \<Rightarrow>
                    Inr (r\<lparr>r_Match := m\<lparr>m_Headers := Some headers\<rparr>, r_Select := s,
                           r_Fault := (if f_Action (r_Fault r) = ''respond'' \<and> f_Body (r_Fault r) = None
                             then (r_Fault r)\<lparr>f_Body := Some []\<rparr> else r_Fault r)\<rparr>))))"

definition matcher_empty :: "matcher \<Rightarrow> bool" where
  "matcher_empty m \<longleftrightarrow> m_Method m = [] \<and> m_Path m = [] \<and> m_PathPattern m = []
     \<and> m_Service m = [] \<and> headers_of m = []"

text \<open>
  \<open>validateCommitRule\<close> validates a copy of the rule under an HTTP phase. The copy shares the
  pointer of the probability, so its normalisation reaches the rule; of the copy's other changes
  only the headers are taken over.
\<close>

definition validateCommitRule :: "rule \<Rightarrow> string \<Rightarrow> rule result" where
  "validateCommitRule r path =
     (if \<not> matcher_empty (r_Match r)
      then Inl (invalid (path @ ''.match'') ''database protocol requires an empty matcher'')
      else if f_Phase (r_Fault r) \<noteq> AfterCommit
      then Inl (invalid (path @ ''.fault.phase'') ''database protocol requires after_commit'')
      else case validateRule (r\<lparr>r_Fault := (r_Fault r)\<lparr>f_Phase := AfterUpstreamHeaders\<rparr>\<rparr>) path of
        Inl e \<Rightarrow> Inl e
      | Inr copy \<Rightarrow>
          Inr (r\<lparr>r_Match := (r_Match r)\<lparr>m_Headers := m_Headers (r_Match copy)\<rparr>,
                 r_Select := r_Select copy\<rparr>))"

text \<open>The checks of \<open>validateTCPRule\<close> on the trigger, then its \<open>switch\<close> on the action.\<close>

definition tcp_trigger_check :: "fault \<Rightarrow> string \<Rightarrow> unit result" where
  "tcp_trigger_check f path =
     (if f_Status f \<noteq> None \<or> f_Body f \<noteq> None \<or> f_Bytes f \<noteq> None
      then Inl (invalid (path @ ''.fault'') ''HTTP fields are unsupported for tcp'')
      else if f_AfterBytes f \<noteq> None \<and> f_AfterDuration f \<noteq> None
      then Inl (invalid (path @ ''.fault'') ''choose one trigger'')
      else if (case f_AfterBytes f of None \<Rightarrow> False | Some n \<Rightarrow> n < 0)
      then Inl (invalid (path @ ''.fault.after_bytes'') ''must be nonnegative'')
      else if f_AfterBytes f \<noteq> None \<and> f_TriggerDirection f \<noteq> ''client_to_upstream''
              \<and> f_TriggerDirection f \<noteq> ''upstream_to_client''
      then Inl (invalid (path @ ''.fault.trigger_direction'') ''byte trigger requires a direction'')
      else if f_AfterBytes f = None \<and> f_TriggerDirection f \<noteq> []
      then Inl (invalid (path @ ''.fault.trigger_direction'') ''requires after_bytes'')
      else if f_AfterDuration f \<noteq> None \<and> nonpos (f_AfterDuration f)
      then Inl (invalid (path @ ''.fault.after_duration'') ''must be positive'')
      else Inr ())"

definition tcp_switch :: "fault \<Rightarrow> string \<Rightarrow> unit result" where
  "tcp_switch f path =
     (if f_Action f = ''delay_connect'' then
        (if f_Phase f \<noteq> TCPOnConnect \<or> nonpos (f_Duration f) \<or> f_AfterBytes f \<noteq> None
            \<or> f_AfterDuration f \<noteq> None \<or> f_Direction f \<noteq> [] \<or> f_MaxDuration f \<noteq> None
            \<or> f_BytesPerSecond f \<noteq> None
         then Inl (invalid (path @ ''.fault'')
           ''delay_connect requires on_connect and positive duration only'')
         else Inr ())
      else if f_Action f = ''close_connection'' then
        (if f_Phase f \<noteq> TCPOnTransfer \<or> f_Direction f \<noteq> [] \<or> f_Duration f \<noteq> None
            \<or> f_MaxDuration f \<noteq> None \<or> f_BytesPerSecond f \<noteq> None
         then Inl (invalid (path @ ''.fault'')
           ''close_connection requires on_transfer and a valid trigger'')
         else Inr ())
      else if f_Action f = ''hold'' then
        (if f_Phase f \<noteq> TCPOnTransfer \<or> \<not> tcpDirection (f_Direction f) \<or> nonpos (f_MaxDuration f)
            \<or> f_Duration f \<noteq> None \<or> f_BytesPerSecond f \<noteq> None
         then Inl (invalid (path @ ''.fault'')
           ''hold requires on_transfer, direction and positive max_duration'')
         else Inr ())
      else if f_Action f = ''throttle'' then
        (if f_Phase f \<noteq> TCPOnTransfer \<or> \<not> tcpDirection (f_Direction f)
            \<or> nonpos (f_BytesPerSecond f) \<or> f_Duration f \<noteq> None \<or> f_MaxDuration f \<noteq> None
         then Inl (invalid (path @ ''.fault'')
           ''throttle requires on_transfer, direction and positive bytes_per_second'')
         else Inr ())
      else Inl (invalid (path @ ''.fault.action'') ''unsupported tcp action''))"

definition validateTCPRule :: "rule \<Rightarrow> string \<Rightarrow> rule result" where
  "validateTCPRule r path =
     (if \<not> matcher_empty (r_Match r)
      then Inl (invalid (path @ ''.match'') ''tcp requires an empty matcher'')
      else case validateSelector (r_Select r) path of
        Inl e \<Rightarrow> Inl e
      | Inr s \<Rightarrow>
         (case tcp_trigger_check (r_Fault r) path of
            Inl e \<Rightarrow> Inl e
          | Inr _ \<Rightarrow>
             (case tcp_switch (r_Fault r) path of
                Inl e \<Rightarrow> Inl e
              | Inr _ \<Rightarrow> Inr (r\<lparr>r_Select := s\<rparr>))))"

section \<open>TLS files\<close>

text \<open>
  The closure \<open>read\<close>: it makes the name absolute and clean, reads the file and records its digest.
\<close>

definition tls_read ::
    "host_env \<Rightarrow> string \<Rightarrow> string \<Rightarrow> string \<Rightarrow> digests \<Rightarrow> (bytes \<times> string \<times> digests) result" where
  "tls_read env base name field dg =
     (if name = [] then Inl (invalid field ''file is required'')
      else let name' = path_clean (if isAbs name then name else path_join base name)
           in case e_readFile env name' of
                None \<Rightarrow> Inl (invalid field ''cannot read file'')
              | Some data \<Rightarrow> Inr (data, name', gm_put name' (e_sha256 env data) dg))"

text \<open>
  The loop over the PEM blocks of a CA file; the result is the number of certificates. The bytes
  after a PEM block are fewer than the bytes before it; an environment for which they are not
  would keep the source's loop running, and ends the model's with a panic.
\<close>

function pem_loop :: "host_env \<Rightarrow> string \<Rightarrow> bytes \<Rightarrow> nat \<Rightarrow> nat result" where
  "pem_loop env field data n =
     (if data = [] then Inr n
      else case e_pemDecode env data of
        None \<Rightarrow> Inl (invalid field ''expected PEM certificates'')
      | Some (typ, body, rest) \<Rightarrow>
          if typ \<noteq> ''CERTIFICATE'' then Inl (invalid field ''expected PEM certificates'')
          else if \<not> e_parseCertificate env body then Inl (invalid field ''invalid CA certificate'')
          else if length (trimSpace_bytes rest) < length data
               then pem_loop env field (trimSpace_bytes rest) (Suc n)
               else Inl (Panic ''pem.Decode does not advance''))"
  by pat_completeness auto
termination by (relation "measure (\<lambda>(env, field, data, n). length data)") auto

declare pem_loop.simps [simp del]

definition validateCA ::
    "host_env \<Rightarrow> string \<Rightarrow> string \<Rightarrow> string \<Rightarrow> digests \<Rightarrow> (string \<times> digests) result" where
  "validateCA env base name field dg =
     (case tls_read env base name field dg of
        Inl e \<Rightarrow> Inl e
      | Inr (data, name', dg') \<Rightarrow>
          (case pem_loop env field data 0 of
             Inl e \<Rightarrow> Inl e
           | Inr n \<Rightarrow> if n = 0 then Inl (invalid field ''expected PEM certificates'')
                         else Inr (name', dg')))"

definition tls_pair ::
    "host_env \<Rightarrow> string \<Rightarrow> string \<Rightarrow> string \<Rightarrow> string \<Rightarrow> digests \<Rightarrow> (string \<times> string \<times> digests) result" where
  "tls_pair env base path certFile keyFile dg =
     (case tls_read env base certFile (path @ ''.cert_file'') dg of
        Inl e \<Rightarrow> Inl e
      | Inr (cert, cn, dg1) \<Rightarrow>
          (case tls_read env base keyFile (path @ ''.key_file'') dg1 of
             Inl e \<Rightarrow> Inl e
           | Inr (key, kn, dg2) \<Rightarrow>
               if e_X509KeyPair env cert key then Inr (cn, kn, dg2)
               else Inl (invalid path ''invalid or mismatched certificate/key'')))"

definition is_database :: "string \<Rightarrow> bool" where
  "is_database protocol \<longleftrightarrow> protocol = ''postgresql'' \<or> protocol = ''mysql''"

definition listener_tls_step ::
    "host_env \<Rightarrow> string \<Rightarrow> string \<Rightarrow> listener_tls option \<Rightarrow> digests
      \<Rightarrow> (listener_tls option \<times> digests) result" where
  "listener_tls_step env base path tls dg =
     (case tls of
        None \<Rightarrow> Inr (None, dg)
      | Some t \<Rightarrow>
          (case tls_pair env base (path @ ''.tls'') (lt_CertFile t) (lt_KeyFile t) dg of
             Inl e \<Rightarrow> Inl e
           | Inr (cn, kn, dg1) \<Rightarrow>
               let t1 = t\<lparr>lt_CertFile := cn, lt_KeyFile := kn\<rparr>
               in if lt_ClientCAFile t = [] then Inr (Some t1, dg1)
                  else case validateCA env base (lt_ClientCAFile t) (path @ ''.tls.client_ca_file'') dg1 of
                    Inl e \<Rightarrow> Inl e
                  | Inr (an, dg2) \<Rightarrow> Inr (Some (t1\<lparr>lt_ClientCAFile := an\<rparr>), dg2)))"

definition upstream_tls_step ::
    "host_env \<Rightarrow> string \<Rightarrow> string \<Rightarrow> string \<Rightarrow> upstream_tls option \<Rightarrow> digests
      \<Rightarrow> (upstream_tls option \<times> digests) result" where
  "upstream_tls_step env base path upstream tls dg =
     (case tls of
        None \<Rightarrow> Inr (None, dg)
      | Some u \<Rightarrow>
         if \<not> hasPrefix upstream ''https://'' \<and> \<not> hasPrefix upstream ''postgresqls://''
            \<and> \<not> hasPrefix upstream ''mysqls://''
         then Inl (invalid (path @ ''.upstream_tls'') ''requires a TLS upstream'')
         else if ut_CAFile u = [] \<and> ut_CertFile u = [] \<and> ut_KeyFile u = []
         then Inl (invalid (path @ ''.upstream_tls'') ''CA or client certificate/key is required'')
         else case (if ut_CAFile u = [] then Inr (ut_CAFile u, dg)
                    else validateCA env base (ut_CAFile u) (path @ ''.upstream_tls.ca_file'') dg) of
           Inl e \<Rightarrow> Inl e
         | Inr (an, dg1) \<Rightarrow>
             let u1 = u\<lparr>ut_CAFile := an\<rparr>
             in if ut_CertFile u = [] \<and> ut_KeyFile u = [] then Inr (Some u1, dg1)
                else case tls_pair env base (path @ ''.upstream_tls'') (ut_CertFile u) (ut_KeyFile u) dg1 of
                  Inl e \<Rightarrow> Inl e
                | Inr (cn, kn, dg2) \<Rightarrow> Inr (Some (u1\<lparr>ut_CertFile := cn, ut_KeyFile := kn\<rparr>), dg2))"

definition validateTLS ::
    "host_env \<Rightarrow> proxy \<Rightarrow> string \<Rightarrow> string \<Rightarrow> digests \<Rightarrow> (proxy \<times> digests) result" where
  "validateTLS env p base path dg =
     (if is_database (p_Protocol p)
         \<and> ((case p_TLS p of None \<Rightarrow> False | Some t \<Rightarrow> lt_ClientCAFile t \<noteq> [])
           \<or> (case p_UpstreamTLS p of None \<Rightarrow> False
              | Some u \<Rightarrow> ut_CertFile u \<noteq> [] \<or> ut_KeyFile u \<noteq> []))
      then Inl (invalid (path @ ''.tls'') ''database mTLS is unsupported'')
      else if p_Protocol p = ''mysql'' \<and> (p_TLS p \<noteq> None) \<noteq> hasPrefix (p_Upstream p) ''mysqls://''
      then Inl (invalid (path @ ''.tls'') ''mysql requires both TLS legs or both plaintext legs'')
      else case listener_tls_step env base path (p_TLS p) dg of
        Inl e \<Rightarrow> Inl e
      | Inr (t, dg1) \<Rightarrow>
          (case upstream_tls_step env base path (p_Upstream p) (p_UpstreamTLS p) dg1 of
             Inl e \<Rightarrow> Inl e
           | Inr (u, dg2) \<Rightarrow> Inr (p\<lparr>p_TLS := t, p_UpstreamTLS := u\<rparr>, dg2)))"

section \<open>Proxies and the whole configuration\<close>

definition known_protocol :: "string \<Rightarrow> bool" where
  "known_protocol s \<longleftrightarrow> s = ''http1'' \<or> s = ''http2'' \<or> s = ''grpc'' \<or> s = ''postgresql''
     \<or> s = ''mysql'' \<or> s = ''tcp''"

definition default_upstream_protocol :: "proxy \<Rightarrow> proxy" where
  "default_upstream_protocol p =
     (if p_UpstreamProtocol p = []
      then p\<lparr>p_UpstreamProtocol := (if p_Protocol p = ''grpc'' then ''http2'' else p_Protocol p)\<rparr>
      else p)"

definition upstream_protocol_error :: "proxy \<Rightarrow> string option" where
  "upstream_protocol_error p =
     (let opaque = (is_database (p_Protocol p) \<or> p_Protocol p = ''tcp'');
          up = p_UpstreamProtocol p
      in if opaque \<and> up \<noteq> p_Protocol p then Some ''upstream protocol must match listener''
         else if \<not> opaque \<and> (up \<noteq> ''http1'' \<and> up \<noteq> ''http2''
                 \<or> p_Protocol p = ''grpc'' \<and> up \<noteq> ''http2'')
         then Some ''expected http1 or http2; grpc requires http2'' else None)"

text \<open>The listen address: host and port, the host defaulted and lower-cased.\<close>

definition normalize_listen :: "host_env \<Rightarrow> string \<Rightarrow> string option" where
  "normalize_listen env listen =
     (case splitHostPort listen of
        None \<Rightarrow> None
      | Some (host, port) \<Rightarrow>
          (case atoi port of
             None \<Rightarrow> None
           | Some n \<Rightarrow>
               if n < 1 \<or> 65535 < n \<or> host \<noteq> [] \<and> \<not> hostname env host then None
               else Some (joinHostPort (toLower (if host = [] then ''127.0.0.1'' else host)) (itoa n))))"

definition port_number :: "string \<Rightarrow> int option" where
  "port_number port = (case atoi port of
      None \<Rightarrow> None | Some n \<Rightarrow> if n < 1 \<or> 65535 < n then None else Some n)"

definition tcp_upstream :: "host_env \<Rightarrow> proxy \<Rightarrow> string \<Rightarrow> proxy result" where
  "tcp_upstream env p path =
     (let bad = Inl (invalid (path @ ''.upstream'') ''expected tcp://host:port without credentials or path'')
      in case e_urlParse env (p_Upstream p) of
        None \<Rightarrow> bad
      | Some u \<Rightarrow>
          if u_Scheme u \<noteq> ''tcp'' \<or> u_User u \<or> u_Opaque u \<noteq> [] \<or> u_Path u \<noteq> [] \<or> u_RawQuery u \<noteq> []
             \<or> u_ForceQuery u \<or> u_Fragment u \<noteq> [] \<or> \<not> hostname env (url_Hostname u) \<or> url_Port u = []
          then bad
          else case port_number (url_Port u) of
            None \<Rightarrow> Inl (invalid (path @ ''.upstream'') ''invalid port'')
          | Some n \<Rightarrow>
              let up = ''tcp://'' @ joinHostPort (toLower (url_Hostname u)) (itoa n)
              in if up = ''tcp://'' @ p_Listen p
                 then Inl (invalid (path @ ''.upstream'') ''upstream cannot equal listener'')
                 else if p_TLS p \<noteq> None \<or> p_UpstreamTLS p \<noteq> None
                 then Inl (invalid (path @ ''.tls'') ''tcp passthrough does not terminate TLS'')
                 else Inr (p\<lparr>p_Upstream := up\<rparr>))"

text \<open>The origin of the other protocols, with default ports added (databases) or removed (HTTP).\<close>

definition origin_upstream :: "host_env \<Rightarrow> proxy \<Rightarrow> string \<Rightarrow> proxy result" where
  "origin_upstream env p path =
     (let scheme = (if is_database (p_Protocol p) then p_Protocol p @ ''(s)'' else ''HTTP(S)'');
          bad = Inl (invalid (path @ ''.upstream'')
            (''expected a '' @ scheme @ '' origin without credentials, path, query or fragment''));
          badport = Inl (invalid (path @ ''.upstream'') ''invalid port'')
      in case e_urlParse env (p_Upstream p) of
        None \<Rightarrow> bad
      | Some u \<Rightarrow>
          if \<not> validUpstreamScheme (p_Protocol p) (u_Scheme u) \<or> u_User u
             \<or> \<not> hostname env (url_Hostname u) \<or> u_Opaque u \<noteq> []
             \<or> (u_Path u \<noteq> [] \<and> u_Path u \<noteq> ''/'') \<or> u_RawQuery u \<noteq> [] \<or> u_ForceQuery u
             \<or> CHR ''#'' \<in> set (p_Upstream p)
          then bad
          else
           let port = (if is_database (p_Protocol p) \<and> url_Port u = [] \<and> \<not> hasSuffix (u_Host u) '':''
                       then (if p_Protocol p = ''mysql'' then ''3306'' else ''5432'') else url_Port u)
           in if port = [] \<and> hasSuffix (u_Host u) '':'' then badport
              else if port \<noteq> [] \<and> port_number port = None then badport
              else
               let port1 = (case port_number port of None \<Rightarrow> [] | Some n \<Rightarrow> itoa n);
                   port2 = (if port1 = ''80'' \<and> u_Scheme u = ''http''
                               \<or> port1 = ''443'' \<and> u_Scheme u = ''https'' then [] else port1);
                   host = toLower (url_Hostname u);
                   host1 = (if port2 \<noteq> [] then joinHostPort host port2
                            else if CHR '':'' \<in> set host then ''['' @ host @ '']'' else host)
               in Inr (p\<lparr>p_Upstream := u_Scheme u @ ''://'' @ host1\<rparr>))"

definition indexed :: "string \<Rightarrow> nat \<Rightarrow> string" where
  "indexed name i = name @ ''['' @ itoa_nat i @ '']''"

definition validate_one_rule :: "string \<Rightarrow> rule \<Rightarrow> string \<Rightarrow> rule result" where
  "validate_one_rule protocol r rp =
     (if \<not> is_identifier (r_ID r) then Inl (invalid (rp @ ''.id'') ''expected a nonempty identifier'')
      else if protocol \<noteq> ''grpc'' \<and> m_Service (r_Match r) \<noteq> []
      then Inl (invalid (rp @ ''.match.service'') ''requires grpc'')
      else if m_Service (r_Match r) \<noteq> [] \<and> \<not> is_identifier (m_Service (r_Match r))
      then Inl (invalid (rp @ ''.match.service'') ''invalid service name'')
      else if f_Action (r_Fault r) \<notin> set (Actions protocol)
      then Inl (invalid (rp @ ''.fault.action'') ''unsupported capability for protocol'')
      else if is_database protocol then validateCommitRule r rp
      else if protocol = ''tcp'' then validateTCPRule r rp
      else validateRule r rp)"

fun validate_rules :: "string \<Rightarrow> string \<Rightarrow> nat \<Rightarrow> rule list \<Rightarrow> rule list result" where
  "validate_rules protocol path j [] = Inr []"
| "validate_rules protocol path j (r # rs) =
     (case validate_one_rule protocol r (path @ indexed ''.rules'' j) of
        Inl e \<Rightarrow> Inl e
      | Inr r' \<Rightarrow>
          (case validate_rules protocol path (Suc j) rs of
             Inl e \<Rightarrow> Inl e | Inr rs' \<Rightarrow> Inr (r' # rs')))"

text \<open>The branch on the upstream: raw TCP, or an origin with its TLS files.\<close>

definition upstream_step ::
    "host_env \<Rightarrow> string \<Rightarrow> string \<Rightarrow> digests \<Rightarrow> proxy \<Rightarrow> (proxy \<times> digests) result" where
  "upstream_step env base path dg p =
     (if p_Protocol p = ''tcp''
      then (case tcp_upstream env p path of Inl e \<Rightarrow> Inl e | Inr q \<Rightarrow> Inr (q, dg))
      else (case origin_upstream env p path of
              Inl e \<Rightarrow> Inl e | Inr q \<Rightarrow> validateTLS env q base path dg))"

text \<open>One turn of the loop over the proxies; \<open>listeners\<close> are the addresses already taken.\<close>

definition validate_proxy ::
    "host_env \<Rightarrow> string \<Rightarrow> string \<Rightarrow> string list \<Rightarrow> digests \<Rightarrow> proxy \<Rightarrow> (proxy \<times> digests) result" where
  "validate_proxy env base path listeners dg p0 =
     (if \<not> is_identifier (p_ID p0) then Inl (invalid (path @ ''.id'') ''expected a nonempty identifier'')
      else if \<not> known_protocol (p_Protocol p0)
      then Inl (invalid (path @ ''.protocol'') ''expected http1, http2, grpc, postgresql, mysql or tcp'')
      else let p1 = default_upstream_protocol p0 in
      case upstream_protocol_error p1 of
        Some msg \<Rightarrow> Inl (invalid (path @ ''.upstream_protocol'') msg)
      | None \<Rightarrow>
       (case normalize_listen env (p_Listen p1) of
          None \<Rightarrow> Inl (invalid (path @ ''.listen'')
                    (''expected host:port with port 1'' @ en_dash @ ''65535''))
        | Some listen \<Rightarrow>
            if listen \<in> set listeners then Inl (invalid (path @ ''.listen'') ''duplicate listener'')
            else
             let p2 = p1\<lparr>p_Listen := listen\<rparr> in
             case upstream_step env base path dg p2 of
               Inl e \<Rightarrow> Inl e
             | Inr (p4, dg') \<Rightarrow>
                 (case validate_rules (p_Protocol p4) path 0 (p_Rules p4) of
                    Inl e \<Rightarrow> Inl e
                  | Inr rs \<Rightarrow> Inr (p4\<lparr>p_Rules := rs\<rparr>, dg'))))"

fun validate_proxies ::
    "host_env \<Rightarrow> string \<Rightarrow> nat \<Rightarrow> string list \<Rightarrow> digests \<Rightarrow> proxy list \<Rightarrow> (proxy list \<times> digests) result" where
  "validate_proxies env base i listeners dg [] = Inr ([], dg)"
| "validate_proxies env base i listeners dg (p # ps) =
     (case validate_proxy env base (indexed ''proxies'' i) listeners dg p of
        Inl e \<Rightarrow> Inl e
      | Inr (p', dg1) \<Rightarrow>
          (case validate_proxies env base (Suc i) (p_Listen p' # listeners) dg1 ps of
             Inl e \<Rightarrow> Inl e
           | Inr (ps', dg2) \<Rightarrow> Inr (p' # ps', dg2)))"

definition validate :: "host_env \<Rightarrow> config \<Rightarrow> string \<Rightarrow> (config \<times> digests) result" where
  "validate env c base =
     (if c_APIVersion c \<noteq> APIVersion
      then Inl (invalid ''api_version'' ''unsupported or missing version'')
      else if MaxInflightRequests (c_Runtime c) \<le> 0
      then Inl (invalid ''runtime.max_inflight_requests'' ''must be positive'')
      else if RequestTimeout (c_Runtime c) \<le> 0
      then Inl (invalid ''runtime.request_timeout'' ''must be positive'')
      else if c_Proxies c = [] then Inl (invalid ''proxies'' ''at least one proxy is required'')
      else case validate_proxies env base 0 [] [] (c_Proxies c) of
        Inl e \<Rightarrow> Inl e
      | Inr (ps, dg) \<Rightarrow> Inr (c\<lparr>c_Proxies := ps\<rparr>, dg))"

section \<open>Evaluation\<close>

declare invalid_def [eval_simps] is_alnum_def [eval_simps] is_identifier_def [eval_simps] host_label_def [eval_simps]
  hostname_def [eval_simps] token_def [eval_simps] validPathPattern_def [eval_simps]
  validUpstreamScheme_def [eval_simps] validateRule_def [eval_simps] validateSelector_def [eval_simps]
  validateFault_def [eval_simps] fault_switch_def [eval_simps] fault_extra_def [eval_simps] 
  tls_read_def [eval_simps] tls_pair_def [eval_simps] listener_tls_step_def [eval_simps]
  upstream_tls_step_def [eval_simps] validateTLS_def [eval_simps] is_database_def [eval_simps]
  known_protocol_def [eval_simps] default_upstream_protocol_def [eval_simps] upstream_protocol_error_def [eval_simps]
  normalize_listen_def [eval_simps] port_number_def [eval_simps] tcp_upstream_def [eval_simps]
  origin_upstream_def [eval_simps] upstream_step_def [eval_simps] indexed_def [eval_simps] validate_one_rule_def [eval_simps]
  validate_proxy_def [eval_simps] validate_def [eval_simps] Actions_def [eval_simps] phase_defs [eval_simps] APIVersion_def [eval_simps]
  crlf_def [eval_simps] headers_of_def [eval_simps] nonpos_def [eval_simps]

end
