(* ===== verification/Load.thy ===== *)
theory Load
  imports Validate
begin

text \<open>
  \<open>internal/config/parse.go\<close>, \<open>load.go\<close> and \<open>encode.go\<close>: decoding of a YAML tree into a configuration,
  includes, the checks that need the origin of a proxy, and the location of errors. The YAML package
  and the file system are parameters; the file system does not change during a load.
\<close>

section \<open>YAML trees\<close>

text \<open>A node as the YAML package gives it: kind, resolved tag, value and children.\<close>

datatype ykind = YDocument | YSequence | YMapping | YScalar | YAlias

datatype ynode = YNode (y_Kind: ykind) (y_Tag: string) (y_Value: string) (y_Content: "ynode list")

text \<open>
  The Go types that are decoded into, as reflection sees them: a structure has a name, the \<open>yaml\<close> tags
  of its fields and their types. The tags of a structure are distinct. Values follow the types; a nil
  slice is an empty one, a nil map is \<open>None\<close>.
\<close>

datatype gtype = TString | TBool | TInt | TUint64 | TFloat64 | TDuration
  | TPtr gtype | TStruct string "string list" "gtype list" | TMap gtype | TSlice gtype

datatype gval = VString string | VBool bool | VInt int | VUint u64 | VFloat float64 | VDuration duration
  | VPtr "gval option" | VStruct "gval list" | VMap "gval gomap option" | VSlice "gval list"

fun zero_val :: "gtype \<Rightarrow> gval" where
  "zero_val TString = VString []"
| "zero_val TBool = VBool False"
| "zero_val TInt = VInt 0"
| "zero_val TUint64 = VUint 0"
| "zero_val TFloat64 = VFloat (Fin 0)"
| "zero_val TDuration = VDuration 0"
| "zero_val (TPtr t) = VPtr None"
| "zero_val (TStruct name tags ts) = VStruct (map zero_val ts)"
| "zero_val (TMap t) = VMap None"
| "zero_val (TSlice t) = VSlice []"

text \<open>
  What decoding asks of the YAML package and of \<open>time\<close>: the result of the \<open>i\<close>-th \<open>Decode\<close> of a decoder
  on some bytes (with \<open>EOF\<close> at the end), \<open>Decode\<close> of a scalar node into a variable of a type, and
  \<open>ParseDuration\<close>.
\<close>

record decode_env =
  de_yaml :: "bytes \<Rightarrow> nat \<Rightarrow> ynode result"
  de_scalar :: "gtype \<Rightarrow> ynode \<Rightarrow> gval option"
  de_parseDuration :: "string \<Rightarrow> duration option"

section \<open>Decoding\<close>

definition decode_fail :: "string \<Rightarrow> string \<Rightarrow> gerror" where
  "decode_fail path message = (if path = [] then invalid ''config'' message else invalid path message)"

definition child_path :: "string \<Rightarrow> string \<Rightarrow> string" where
  "child_path path key = (if path \<noteq> [] then path @ ''.'' @ key else key)"

fun field_index :: "string list \<Rightarrow> string \<Rightarrow> nat option" where
  "field_index [] key = None"
| "field_index (t # ts) key = (if t = key then Some 0 else map_option Suc (field_index ts key))"

definition struct_start :: "string \<Rightarrow> string list \<Rightarrow> gval \<Rightarrow> gval list" where
  "struct_start name tags v =
     (let vs = (case v of VStruct vs \<Rightarrow> vs | _ \<Rightarrow> []) in
      if name = ''Rule'' then (case field_index tags ''enabled'' of None \<Rightarrow> vs | Some i \<Rightarrow> vs[i := VBool True]) else vs)"

definition scalar_tag :: "gtype \<Rightarrow> string" where
  "scalar_tag t = (case t of TString \<Rightarrow> ''!!str'' | TBool \<Rightarrow> ''!!bool'' | TInt \<Rightarrow> ''!!int''
     | TUint64 \<Rightarrow> ''!!int'' | TFloat64 \<Rightarrow> ''!!float'' | _ \<Rightarrow> [])"

definition decode_scalar :: "decode_env \<Rightarrow> ynode \<Rightarrow> gtype \<Rightarrow> string \<Rightarrow> gval result" where
  "decode_scalar env n t path =
     (if y_Kind n \<noteq> YScalar \<or> (y_Tag n \<noteq> scalar_tag t \<and> \<not> (t = TFloat64 \<and> y_Tag n = ''!!int''))
      then Inl (decode_fail path ''invalid scalar type'')
      else case de_scalar env t n of
        None \<Rightarrow> Inl (decode_fail path ''invalid scalar value'')
      | Some v \<Rightarrow> Inr v)"

definition decode_duration :: "decode_env \<Rightarrow> ynode \<Rightarrow> string \<Rightarrow> gval result" where
  "decode_duration env n path =
     (if y_Tag n \<noteq> ''!!str'' then Inl (decode_fail path ''expected a duration string'')
      else case de_parseDuration env (y_Value n) of
        None \<Rightarrow> Inl (decode_fail path ''invalid duration'')
      | Some d \<Rightarrow> Inr (VDuration d))"

text \<open>
  \<open>decode_fields\<close> and \<open>decode_entries\<close> are the loop over the children of a mapping, for a structure and
  for a map; \<open>decode_items\<close> is the loop over a sequence.
\<close>

function (sequential)
  decodeNode :: "decode_env \<Rightarrow> ynode \<Rightarrow> gtype \<Rightarrow> gval \<Rightarrow> string \<Rightarrow> gval result" and
  decode_fields :: "decode_env \<Rightarrow> ynode list \<Rightarrow> string list \<Rightarrow> gtype list \<Rightarrow> gval list \<Rightarrow> string \<Rightarrow> string list \<Rightarrow> gval list result" and
  decode_entries :: "decode_env \<Rightarrow> ynode list \<Rightarrow> gtype \<Rightarrow> gval gomap \<Rightarrow> string \<Rightarrow> string list \<Rightarrow> gval gomap result" and
  decode_items :: "decode_env \<Rightarrow> ynode list \<Rightarrow> gtype \<Rightarrow> string \<Rightarrow> nat \<Rightarrow> gval list result"
where
  "decodeNode env n t v path =
     (if y_Kind n = YAlias \<or> y_Tag n = ''!!null''
      then Inl (decode_fail path ''aliases and null values are not supported'')
      else case t of
        TPtr t' \<Rightarrow> (case decodeNode env n t' (zero_val t') path of
            Inl e \<Rightarrow> Inl e | Inr w \<Rightarrow> Inr (VPtr (Some w)))
      | TDuration \<Rightarrow> decode_duration env n path
      | TStruct name tags ts \<Rightarrow>
          (if y_Kind n \<noteq> YMapping then Inl (decode_fail path ''expected a mapping'')
           else case decode_fields env (y_Content n) tags ts (struct_start name tags v) path [] of
             Inl e \<Rightarrow> Inl e | Inr vs \<Rightarrow> Inr (VStruct vs))
      | TMap t' \<Rightarrow>
          (if y_Kind n \<noteq> YMapping then Inl (decode_fail path ''expected a mapping'')
           else case decode_entries env (y_Content n) t' [] path [] of
             Inl e \<Rightarrow> Inl e | Inr m \<Rightarrow> Inr (VMap (Some m)))
      | TSlice t' \<Rightarrow>
          (if y_Kind n \<noteq> YSequence then Inl (decode_fail path ''expected a sequence'')
           else case decode_items env (y_Content n) t' path 0 of
             Inl e \<Rightarrow> Inl e | Inr vs \<Rightarrow> Inr (VSlice vs))
      | _ \<Rightarrow> decode_scalar env n t path)"
| "decode_fields env [] tags ts vs path seen = Inr vs"
| "decode_fields env [key] tags ts vs path seen = Inl (Panic ''index out of range'')"
| "decode_fields env (key # val # rest) tags ts vs path seen =
     (if y_Tag key \<noteq> ''!!str''
      then Inl (decode_fail path ''expected string field names; YAML merges are not supported'')
      else let child = child_path path (y_Value key) in
       if y_Value key \<in> set seen then Inl (invalid child ''duplicate field'')
       else case field_index tags (y_Value key) of
         None \<Rightarrow> Inl (invalid child ''unknown field'')
       | Some i \<Rightarrow>
           (case decodeNode env val (ts ! i) (vs ! i) child of
              Inl e \<Rightarrow> Inl e
            | Inr w \<Rightarrow> decode_fields env rest tags ts (vs[i := w]) path (y_Value key # seen)))"
| "decode_entries env [] t m path seen = Inr m"
| "decode_entries env [key] t m path seen = Inl (Panic ''index out of range'')"
| "decode_entries env (key # val # rest) t m path seen =
     (if y_Tag key \<noteq> ''!!str''
      then Inl (decode_fail path ''expected string field names; YAML merges are not supported'')
      else let child = child_path path (y_Value key) in
       if y_Value key \<in> set seen then Inl (invalid child ''duplicate field'')
       else case decodeNode env val t (zero_val t) child of
         Inl e \<Rightarrow> Inl e
       | Inr w \<Rightarrow> decode_entries env rest t (gm_put (y_Value key) w m) path (y_Value key # seen))"
| "decode_items env [] t path i = Inr []"
| "decode_items env (n # ns) t path i =
     (case decodeNode env n t (zero_val t) (indexed path i) of
        Inl e \<Rightarrow> Inl e
      | Inr w \<Rightarrow>
          (case decode_items env ns t path (Suc i) of Inl e \<Rightarrow> Inl e | Inr ws \<Rightarrow> Inr (w # ws)))"
  by pat_completeness auto
termination
proof (relation "inv_image (less_than <*lex*> less_than)
    (\<lambda>x. case x of
       Inl (Inl (env, n, t, v, path)) \<Rightarrow> (size n, size t)
     | Inl (Inr (env, ns, tags, ts, vs, path, seen)) \<Rightarrow> (size_list size ns, 0)
     | Inr (Inl (env, ns, t, m, path, seen)) \<Rightarrow> (size_list size ns, 0)
     | Inr (Inr (env, ns, t, path, i)) \<Rightarrow> (size_list size ns, 0))", goal_cases)
  case 1
  show ?case by (intro wf_inv_image wf_lex_prod wf_less_than)
next
  case (3 env n t v path x81 x82 x83)
  then show ?case by (cases n) simp
next
  case (4 env n t v path x9)
  then show ?case by (cases n) simp
next
  case (5 env n t v path x10)
  then show ?case by (cases n) simp
qed simp_all

declare decodeNode.simps [simp del]

definition decodeDocument :: "decode_env \<Rightarrow> bytes \<Rightarrow> gtype \<Rightarrow> gval \<Rightarrow> gval result" where
  "decodeDocument env data t v =
     (case de_yaml env data 0 of
        Inl e \<Rightarrow> Inl (invalid ''config'' ''expected one valid YAML document'')
      | Inr node \<Rightarrow>
          if de_yaml env data 1 \<noteq> Inl EOF then Inl (invalid ''config'' ''expected exactly one YAML document'')
          else if length (y_Content node) \<noteq> 1 then Inl (invalid ''config'' ''expected a mapping'')
          else decodeNode env (y_Content node ! 0) t v [])"

section \<open>The types of the configuration\<close>

definition runtime_type :: gtype where
  "runtime_type = TStruct ''Runtime'' [''max_inflight_requests'', ''request_timeout''] [TInt, TDuration]"

definition listener_tls_type :: gtype where
  "listener_tls_type = TStruct ''ListenerTLS'' [''cert_file'', ''key_file'', ''client_ca_file''] [TString, TString, TString]"

definition upstream_tls_type :: gtype where
  "upstream_tls_type = TStruct ''UpstreamTLS'' [''ca_file'', ''cert_file'', ''key_file''] [TString, TString, TString]"

definition matcher_type :: gtype where
  "matcher_type = TStruct ''Matcher'' [''path_pattern'', ''method'', ''service'', ''path'', ''headers'']
     [TString, TString, TString, TString, TMap TString]"

definition selector_type :: gtype where
  "selector_type = TStruct ''Selector'' [''probability'', ''nth'', ''every''] [TPtr TFloat64, TPtr TUint64, TPtr TUint64]"

definition fault_type :: gtype where
  "fault_type = TStruct ''Fault'' [''phase'', ''action'', ''duration'', ''max_duration'', ''status'', ''body'', ''direction'',
       ''bytes'', ''bytes_per_second'', ''after_bytes'', ''after_duration'', ''trigger_direction'']
     [TString, TString, TPtr TDuration, TPtr TDuration, TPtr TInt, TPtr TString, TString,
      TPtr TInt, TPtr TInt, TPtr TInt, TPtr TDuration, TString]"

definition rule_type :: gtype where
  "rule_type = TStruct ''Rule'' [''id'', ''enabled'', ''match'', ''select'', ''fault'']
     [TString, TBool, matcher_type, selector_type, fault_type]"

definition proxy_type :: gtype where
  "proxy_type = TStruct ''Proxy'' [''id'', ''protocol'', ''upstream_protocol'', ''listen'', ''upstream'', ''tls'', ''upstream_tls'', ''rules'']
     [TString, TString, TString, TString, TString, TPtr listener_tls_type, TPtr upstream_tls_type, TSlice rule_type]"

definition config_type :: gtype where
  "config_type = TStruct ''Config'' [''api_version'', ''seed'', ''runtime'', ''proxies''] [TString, TUint64, runtime_type, TSlice proxy_type]"

definition root_type :: gtype where
  "root_type = TStruct ''rootConfig'' [''api_version'', ''seed'', ''runtime'', ''proxies'', ''include'']
     [TString, TUint64, runtime_type, TSlice proxy_type, TSlice TString]"

definition fragment_type :: gtype where
  "fragment_type = TStruct [] [''proxies''] [TSlice proxy_type]"

text \<open>Reading a decoded value as a record of the model.\<close>

fun val_string :: "gval \<Rightarrow> string" where
  "val_string (VString s) = s"
| "val_string v = []"

fun val_bool :: "gval \<Rightarrow> bool" where
  "val_bool (VBool b) = b"
| "val_bool v = False"

fun val_int :: "gval \<Rightarrow> int" where
  "val_int (VInt i) = i"
| "val_int (VDuration d) = d"
| "val_int v = 0"

fun val_uint :: "gval \<Rightarrow> u64" where
  "val_uint (VUint u) = u"
| "val_uint v = 0"

fun val_float :: "gval \<Rightarrow> float64" where
  "val_float (VFloat x) = x"
| "val_float v = Fin 0"

fun val_ptr :: "(gval \<Rightarrow> 'a) \<Rightarrow> gval \<Rightarrow> 'a option" where
  "val_ptr f (VPtr p) = map_option f p"
| "val_ptr f v = None"

fun val_list :: "(gval \<Rightarrow> 'a) \<Rightarrow> gval \<Rightarrow> 'a list" where
  "val_list f (VSlice vs) = map f vs"
| "val_list f v = []"

fun val_map :: "gval \<Rightarrow> string gomap option" where
  "val_map (VMap m) = map_option (map (\<lambda>(k, v). (k, val_string v))) m"
| "val_map v = None"

fun val_field :: "gval \<Rightarrow> nat \<Rightarrow> gval" where
  "val_field (VStruct vs) i = vs ! i"
| "val_field v i = v"

definition runtime_of :: "gval \<Rightarrow> runtime" where
  "runtime_of v = \<lparr>MaxInflightRequests = val_int (val_field v 0), RequestTimeout = val_int (val_field v 1)\<rparr>"

definition listener_tls_of :: "gval \<Rightarrow> listener_tls" where
  "listener_tls_of v = \<lparr>lt_CertFile = val_string (val_field v 0), lt_KeyFile = val_string (val_field v 1),
     lt_ClientCAFile = val_string (val_field v 2)\<rparr>"

definition upstream_tls_of :: "gval \<Rightarrow> upstream_tls" where
  "upstream_tls_of v = \<lparr>ut_CAFile = val_string (val_field v 0), ut_CertFile = val_string (val_field v 1),
     ut_KeyFile = val_string (val_field v 2)\<rparr>"

definition matcher_of :: "gval \<Rightarrow> matcher" where
  "matcher_of v = \<lparr>m_PathPattern = val_string (val_field v 0), m_Method = val_string (val_field v 1),
     m_Service = val_string (val_field v 2), m_Path = val_string (val_field v 3), m_Headers = val_map (val_field v 4)\<rparr>"

definition selector_of :: "gval \<Rightarrow> selector" where
  "selector_of v = \<lparr>s_Probability = val_ptr val_float (val_field v 0), s_Nth = val_ptr val_uint (val_field v 1),
     s_Every = val_ptr val_uint (val_field v 2)\<rparr>"

definition fault_of :: "gval \<Rightarrow> fault" where
  "fault_of v = \<lparr>f_Phase = val_string (val_field v 0), f_Action = val_string (val_field v 1),
     f_Duration = val_ptr val_int (val_field v 2), f_MaxDuration = val_ptr val_int (val_field v 3),
     f_Status = val_ptr val_int (val_field v 4), f_Body = val_ptr val_string (val_field v 5),
     f_Direction = val_string (val_field v 6), f_Bytes = val_ptr val_int (val_field v 7),
     f_BytesPerSecond = val_ptr val_int (val_field v 8), f_AfterBytes = val_ptr val_int (val_field v 9),
     f_AfterDuration = val_ptr val_int (val_field v 10), f_TriggerDirection = val_string (val_field v 11)\<rparr>"

definition rule_of :: "gval \<Rightarrow> rule" where
  "rule_of v = \<lparr>r_ID = val_string (val_field v 0), r_Enabled = val_bool (val_field v 1), r_Match = matcher_of (val_field v 2),
     r_Select = selector_of (val_field v 3), r_Fault = fault_of (val_field v 4)\<rparr>"

definition proxy_of :: "gval \<Rightarrow> proxy" where
  "proxy_of v = \<lparr>p_ID = val_string (val_field v 0), p_Protocol = val_string (val_field v 1),
     p_UpstreamProtocol = val_string (val_field v 2), p_Listen = val_string (val_field v 3), p_Upstream = val_string (val_field v 4),
     p_TLS = val_ptr listener_tls_of (val_field v 5), p_UpstreamTLS = val_ptr upstream_tls_of (val_field v 6),
     p_Rules = val_list rule_of (val_field v 7)\<rparr>"

text \<open>\<open>Config\<close> and \<open>rootConfig\<close> begin with the same four fields.\<close>

definition config_of :: "gval \<Rightarrow> config" where
  "config_of v = \<lparr>c_APIVersion = val_string (val_field v 0), c_Seed = val_uint (val_field v 1),
     c_Runtime = runtime_of (val_field v 2), c_Proxies = val_list proxy_of (val_field v 3)\<rparr>"

text \<open>The variable that is decoded into, with the default runtime.\<close>

definition default_start :: "gtype \<Rightarrow> gval" where
  "default_start t = (case zero_val t of
      VStruct vs \<Rightarrow> VStruct (vs[2 := VStruct [VInt (MaxInflightRequests DefaultRuntime), VDuration (RequestTimeout DefaultRuntime)]])
    | v \<Rightarrow> v)"

section \<open>Sources of proxies\<close>

record proxy_source =
  src_file :: string
  src_path :: string

definition proxySources :: "string \<Rightarrow> nat \<Rightarrow> proxy_source list" where
  "proxySources file n = map (\<lambda>i. \<lparr>src_file = file, src_path = indexed ''proxies'' i\<rparr>) [0..<n]"

definition sourceError :: "gerror \<Rightarrow> string \<Rightarrow> gerror" where
  "sourceError err file = (case err of FieldError _ path message \<Rightarrow> FieldError file path message | _ \<Rightarrow> err)"

text \<open>
  What loading asks of its surroundings: \<open>filepath.Abs\<close>, \<open>os.Stat\<close> (the identity of a file for
  \<open>os.SameFile\<close>, and whether it is regular) and \<open>filepath.Glob\<close>; files are read through the host.
\<close>

record 'h load_env =
  le_decode :: decode_env
  le_host :: host_env
  le_abs :: "string \<Rightarrow> string option"
  le_stat :: "string \<Rightarrow> (nat \<times> bool) option"
  le_glob :: "string \<Rightarrow> string list option"
  le_hash :: "'h hasher"

section \<open>Checks that need the origin of a proxy\<close>

text \<open>\<open>seen\<close> holds the identifiers so far with the index of their rule.\<close>

fun check_rule_ids :: "proxy_source \<Rightarrow> nat \<Rightarrow> (string \<times> nat) list \<Rightarrow> rule list \<Rightarrow> unit result" where
  "check_rule_ids src j seen [] = Inr ()"
| "check_rule_ids src j seen (r # rs) =
     (case map_of seen (r_ID r) of
        Some previous \<Rightarrow> Inl (sourceError (invalid (src_path src @ indexed ''.rules'' j @ ''.id'')
          (''duplicate rule ID; first declaration: '' @ src_file src @ '': '' @ src_path src @ indexed ''.rules'' previous @ ''.id''))
          (src_file src))
      | None \<Rightarrow> check_rule_ids src (Suc j) ((r_ID r, j) # seen) rs)"

definition resolve :: "string \<Rightarrow> string \<Rightarrow> string" where
  "resolve file path = (if path \<noteq> [] \<and> \<not> isAbs path then path_join (path_dir file) path else path)"

definition resolve_proxy :: "string \<Rightarrow> proxy \<Rightarrow> proxy" where
  "resolve_proxy file p = p\<lparr>
     p_TLS := map_option (\<lambda>t. t\<lparr>lt_CertFile := resolve file (lt_CertFile t), lt_KeyFile := resolve file (lt_KeyFile t),
       lt_ClientCAFile := resolve file (lt_ClientCAFile t)\<rparr>) (p_TLS p),
     p_UpstreamTLS := map_option (\<lambda>t. t\<lparr>ut_CAFile := resolve file (ut_CAFile t), ut_CertFile := resolve file (ut_CertFile t),
       ut_KeyFile := resolve file (ut_KeyFile t)\<rparr>) (p_UpstreamTLS p)\<rparr>"

fun check_sources :: "(string \<times> proxy_source) list \<Rightarrow> (proxy \<times> proxy_source) list \<Rightarrow> proxy list result" where
  "check_sources ids [] = Inr []"
| "check_sources ids ((p, src) # rest) =
     (case map_of ids (p_ID p) of
        Some previous \<Rightarrow> Inl (sourceError (invalid (src_path src @ ''.id'')
          (''duplicate proxy ID; first declaration: '' @ src_file previous @ '': '' @ src_path previous @ ''.id'')) (src_file src))
      | None \<Rightarrow>
          (case check_rule_ids src 0 [] (p_Rules p) of
             Inl e \<Rightarrow> Inl e
           | Inr _ \<Rightarrow>
               (case check_sources ((p_ID p, src) # ids) rest of
                  Inl e \<Rightarrow> Inl e
                | Inr ps \<Rightarrow> Inr (resolve_proxy (src_file src) p # ps))))"

text \<open>The location of an error of \<open>validate\<close> in the file its proxy came from.\<close>

fun locate_error :: "proxy_source list \<Rightarrow> nat \<Rightarrow> string \<Rightarrow> string \<Rightarrow> string \<Rightarrow> gerror" where
  "locate_error [] i base path message = FieldError base path message"
| "locate_error (src # srcs) i base path message =
     (let prefix = indexed ''proxies'' i in
      if hasPrefix path (prefix @ ''.'')
      then FieldError (src_file src) (src_path src @ trimPrefix path prefix) message
      else locate_error srcs (Suc i) base path message)"

definition finish :: "'h load_env \<Rightarrow> config \<Rightarrow> proxy_source list \<Rightarrow> string \<Rightarrow> 'h document result" where
  "finish env c sources base =
     (case check_sources [] (zip (c_Proxies c) sources) of
        Inl e \<Rightarrow> Inl e
      | Inr ps \<Rightarrow>
          (case validate (le_host env) (c\<lparr>c_Proxies := ps\<rparr>) (path_dir base) of
             Inl (FieldError _ path message) \<Rightarrow> Inl (locate_error sources 0 base path message)
           | Inl e \<Rightarrow> Inl e
           | Inr (c', digests) \<Rightarrow> newDocument (le_hash env) c' digests))"

section \<open>Parse and Load\<close>

definition Parse :: "'h load_env \<Rightarrow> bytes \<Rightarrow> string \<Rightarrow> 'h document result" where
  "Parse env data filename =
     (if filename = [] then Inl (invalid ''config'' ''filename is required for relative paths'')
      else case le_abs env filename of
        None \<Rightarrow> Inl (invalid ''config'' ''cannot resolve filename'')
      | Some absolute \<Rightarrow>
          (case decodeDocument (le_decode env) data config_type (default_start config_type) of
             Inl e \<Rightarrow> Inl (sourceError e absolute)
           | Inr v \<Rightarrow> let c = config_of v in finish env c (proxySources absolute (length (c_Proxies c))) absolute))"

text \<open>
  The loop over the files an include matches: the proxies, their sources and the files so far, with
  the identity of each. The loop over the patterns follows.
\<close>

type_synonym loaded = "proxy list \<times> proxy_source list \<times> (string \<times> nat) list"

definition include_file :: "'h load_env \<Rightarrow> string \<Rightarrow> string \<Rightarrow> string \<Rightarrow> loaded \<Rightarrow> loaded result" where
  "include_file env base field file st = (case st of (ps, srcs, seen) \<Rightarrow>
     (case le_stat env file of
        None \<Rightarrow> Inl (sourceError (invalid field (''expected a readable regular file: '' @ file)) base)
      | Some (ident, regular) \<Rightarrow>
          if \<not> regular then Inl (sourceError (invalid field (''expected a readable regular file: '' @ file)) base)
          else case find (\<lambda>previous. snd previous = ident) seen of
            Some previous \<Rightarrow> Inl (sourceError (invalid field (''file included more than once: '' @ file
              @ ''; first source: '' @ fst previous)) base)
          | None \<Rightarrow>
              (case e_readFile (le_host env) file of
                 None \<Rightarrow> Inl (sourceError (invalid ''config'' ''cannot read file'') file)
               | Some data \<Rightarrow>
                   (case decodeDocument (le_decode env) data fragment_type (zero_val fragment_type) of
                      Inl e \<Rightarrow> Inl (sourceError e file)
                    | Inr v \<Rightarrow>
                        let fragment = val_list proxy_of (val_field v 0) in
                        if fragment = []
                        then Inl (sourceError (invalid ''proxies'' ''fragment must contain at least one proxy'') file)
                        else Inr (ps @ fragment, srcs @ proxySources file (length fragment), seen @ [(file, ident)])))))"

fun include_files :: "'h load_env \<Rightarrow> string \<Rightarrow> string \<Rightarrow> string list \<Rightarrow> loaded \<Rightarrow> loaded result" where
  "include_files env base field [] st = Inr st"
| "include_files env base field (file # files) st =
     (case include_file env base field file st of
        Inl e \<Rightarrow> Inl e
      | Inr st' \<Rightarrow> include_files env base field files st')"

fun include_patterns :: "'h load_env \<Rightarrow> string \<Rightarrow> nat \<Rightarrow> string list \<Rightarrow> loaded \<Rightarrow> loaded result" where
  "include_patterns env base i [] st = Inr st"
| "include_patterns env base i (pattern # patterns) st =
     (let field = indexed ''include'' i in
      if pattern = [] then Inl (sourceError (invalid field ''empty include path'') base)
      else
       let full = (if \<not> isAbs pattern then path_join (path_dir base) pattern else pattern);
           matches = (case le_glob env full of None \<Rightarrow> [] | Some fs \<Rightarrow> fs)
       in if matches = [] then Inl (sourceError (invalid field ''invalid glob or no matching files'') base)
          else case include_files env base field matches st of
            Inl e \<Rightarrow> Inl e
          | Inr st' \<Rightarrow> include_patterns env base (Suc i) patterns st')"

definition Load :: "'h load_env \<Rightarrow> string \<Rightarrow> 'h document result" where
  "Load env filename =
     (if filename = [] then Inl (invalid ''config'' ''filename is required'')
      else case le_abs env filename of
        None \<Rightarrow> Inl (invalid ''config'' ''cannot resolve filename'')
      | Some base \<Rightarrow>
          (case le_stat env base of
             None \<Rightarrow> Inl (sourceError (invalid ''config'' ''expected a readable regular file'') base)
           | Some (ident, regular) \<Rightarrow>
               if \<not> regular then Inl (sourceError (invalid ''config'' ''expected a readable regular file'') base)
               else case e_readFile (le_host env) base of
                 None \<Rightarrow> Inl (sourceError (invalid ''config'' ''cannot read file'') base)
               | Some data \<Rightarrow>
                   (case decodeDocument (le_decode env) data root_type (default_start root_type) of
                      Inl e \<Rightarrow> Inl (sourceError e base)
                    | Inr v \<Rightarrow>
                        let c = config_of v; ps = c_Proxies c in
                        (case include_patterns env base 0 (val_list val_string (val_field v 4))
                                (ps, proxySources base (length ps), [(base, ident)]) of
                           Inl e \<Rightarrow> Inl e
                         | Inr (ps', srcs, _) \<Rightarrow> finish env (c\<lparr>c_Proxies := ps'\<rparr>) srcs base))))"

section \<open>Encode\<close>

text \<open>
  \<open>prune\<close> drops the entries of mappings whose value is null; a mapping node has an even number of
  children, and a last key without a value makes the index expression panic. \<open>Encode\<close> is given
  the node the YAML package makes of a configuration, and \<open>yaml.Marshal\<close>.
\<close>

fun prune :: "ynode \<Rightarrow> ynode result" and prune_pairs :: "ynode list \<Rightarrow> ynode list result"
  and prune_all :: "ynode list \<Rightarrow> ynode list result" where
  "prune (YNode k tag val content) =
     (case (if k = YMapping then prune_pairs content else prune_all content) of
        Inl e \<Rightarrow> Inl e
      | Inr children \<Rightarrow> Inr (YNode k tag val children))"
| "prune_pairs [] = Inr []"
| "prune_pairs [key] = Inl (Panic ''index out of range'')"
| "prune_pairs (key # val # rest) =
     (if y_Tag val = ''!!null'' then prune_pairs rest
      else case prune val of
        Inl e \<Rightarrow> Inl e
      | Inr v \<Rightarrow> (case prune_pairs rest of Inl e \<Rightarrow> Inl e | Inr children \<Rightarrow> Inr (key # v # children)))"
| "prune_all [] = Inr []"
| "prune_all (n # ns) =
     (case prune n of
        Inl e \<Rightarrow> Inl e
      | Inr m \<Rightarrow> (case prune_all ns of Inl e \<Rightarrow> Inl e | Inr ms \<Rightarrow> Inr (m # ms)))"

definition Encode :: "(config \<Rightarrow> ynode result) \<Rightarrow> (ynode \<Rightarrow> bytes result) \<Rightarrow> config \<Rightarrow> bytes result" where
  "Encode node_of marshal c =
     (case node_of c of
        Inl e \<Rightarrow> Inl e
      | Inr node \<Rightarrow> (case prune node of Inl e \<Rightarrow> Inl e | Inr pruned \<Rightarrow> marshal pruned))"

end
