(* ===== verification/Validate_Correct.thy ===== *)
theory Validate_Correct
  imports Validate
begin

text \<open>
  Correctness of the validator of \<open>src/internal/config/validate.go\<close> and \<open>tls.go\<close>. The faults a
  protocol offers are given as data types (\<open>http_action\<close>, \<open>tcp_action\<close>, \<open>commit_action\<close>) with
  their written form as a \<open>fault\<close> record, and acceptance of a rule is shown to be exactly: the
  fault is the written form of a legal action, the selector of a legal selection, the matcher of
  a legal matcher. What the validator changes is one normalisation function, which is idempotent.
\<close>

section \<open>The faults each protocol accepts\<close>

text \<open>
  An abstract reading of the action tables: a typed action per protocol family, its side condition,
  and the configuration record it is written as. The validators accept exactly the records that
  are written this way.
\<close>

datatype http_phase = Before | After
datatype body_dir = ReqBody | RespBody
datatype tcp_dir = ClientToUpstream | UpstreamToClient
datatype trigger = AtStart | AtBytes tcp_dir int | AtTime duration

datatype http_action =
    HDelay http_phase duration
  | HRespond int "string option"
  | HClose http_phase
  | HHoldRequest duration
  | HHoldResponse duration
  | HTruncate body_dir int
  | HThrottle body_dir int

datatype tcp_action =
    TDelayConnect duration
  | TClose trigger
  | THold tcp_dir duration trigger
  | TThrottle tcp_dir int trigger

datatype commit_action = CDelay duration | CHoldResponse duration | CClose

fun phase_name :: "http_phase \<Rightarrow> string" where
  "phase_name Before = BeforeUpstreamRequest"
| "phase_name After = AfterUpstreamHeaders"

fun body_dir_name :: "body_dir \<Rightarrow> string" where
  "body_dir_name ReqBody = ''request''"
| "body_dir_name RespBody = ''response''"

fun body_dir_phase :: "body_dir \<Rightarrow> string" where
  "body_dir_phase ReqBody = BeforeUpstreamRequest"
| "body_dir_phase RespBody = AfterUpstreamHeaders"

fun tcp_dir_name :: "tcp_dir \<Rightarrow> string" where
  "tcp_dir_name ClientToUpstream = ''client_to_upstream''"
| "tcp_dir_name UpstreamToClient = ''upstream_to_client''"

fun http_fault :: "http_action \<Rightarrow> fault" where
  "http_fault (HDelay ph d) = zero_fault\<lparr>f_Phase := phase_name ph, f_Action := ''delay'',
     f_Duration := Some d\<rparr>"
| "http_fault (HRespond s b) = zero_fault\<lparr>f_Phase := BeforeUpstreamRequest, f_Action := ''respond'',
     f_Status := Some s, f_Body := b\<rparr>"
| "http_fault (HClose ph) = zero_fault\<lparr>f_Phase := phase_name ph, f_Action := ''close_connection''\<rparr>"
| "http_fault (HHoldRequest d) = zero_fault\<lparr>f_Phase := BeforeUpstreamRequest,
     f_Action := ''hold_request'', f_MaxDuration := Some d\<rparr>"
| "http_fault (HHoldResponse d) = zero_fault\<lparr>f_Phase := AfterUpstreamHeaders,
     f_Action := ''hold_response'', f_MaxDuration := Some d\<rparr>"
| "http_fault (HTruncate dir n) = zero_fault\<lparr>f_Phase := body_dir_phase dir, f_Action := ''truncate'',
     f_Direction := body_dir_name dir, f_Bytes := Some n\<rparr>"
| "http_fault (HThrottle dir n) = zero_fault\<lparr>f_Phase := body_dir_phase dir, f_Action := ''throttle'',
     f_Direction := body_dir_name dir, f_BytesPerSecond := Some n\<rparr>"

fun http_action_ok :: "http_action \<Rightarrow> bool" where
  "http_action_ok (HDelay ph d) = (0 < d)"
| "http_action_ok (HRespond s b) = (200 \<le> s \<and> s \<le> 599)"
| "http_action_ok (HClose ph) = True"
| "http_action_ok (HHoldRequest d) = (0 < d)"
| "http_action_ok (HHoldResponse d) = (0 < d)"
| "http_action_ok (HTruncate dir n) = (0 \<le> n)"
| "http_action_ok (HThrottle dir n) = (0 < n)"

fun with_trigger :: "trigger \<Rightarrow> fault \<Rightarrow> fault" where
  "with_trigger AtStart f = f"
| "with_trigger (AtBytes dir n) f = f\<lparr>f_AfterBytes := Some n, f_TriggerDirection := tcp_dir_name dir\<rparr>"
| "with_trigger (AtTime d) f = f\<lparr>f_AfterDuration := Some d\<rparr>"

fun trigger_ok :: "trigger \<Rightarrow> bool" where
  "trigger_ok AtStart = True"
| "trigger_ok (AtBytes dir n) = (0 \<le> n)"
| "trigger_ok (AtTime d) = (0 < d)"

fun tcp_fault :: "tcp_action \<Rightarrow> fault" where
  "tcp_fault (TDelayConnect d) = zero_fault\<lparr>f_Phase := TCPOnConnect, f_Action := ''delay_connect'',
     f_Duration := Some d\<rparr>"
| "tcp_fault (TClose t) = with_trigger t (zero_fault\<lparr>f_Phase := TCPOnTransfer,
     f_Action := ''close_connection''\<rparr>)"
| "tcp_fault (THold dir d t) = with_trigger t (zero_fault\<lparr>f_Phase := TCPOnTransfer,
     f_Action := ''hold'', f_Direction := tcp_dir_name dir, f_MaxDuration := Some d\<rparr>)"
| "tcp_fault (TThrottle dir n t) = with_trigger t (zero_fault\<lparr>f_Phase := TCPOnTransfer,
     f_Action := ''throttle'', f_Direction := tcp_dir_name dir, f_BytesPerSecond := Some n\<rparr>)"

fun tcp_action_ok :: "tcp_action \<Rightarrow> bool" where
  "tcp_action_ok (TDelayConnect d) = (0 < d)"
| "tcp_action_ok (TClose t) = trigger_ok t"
| "tcp_action_ok (THold dir d t) = (0 < d \<and> trigger_ok t)"
| "tcp_action_ok (TThrottle dir n t) = (0 < n \<and> trigger_ok t)"

fun commit_fault :: "commit_action \<Rightarrow> fault" where
  "commit_fault (CDelay d) = zero_fault\<lparr>f_Phase := AfterCommit, f_Action := ''delay'',
     f_Duration := Some d\<rparr>"
| "commit_fault (CHoldResponse d) = zero_fault\<lparr>f_Phase := AfterCommit, f_Action := ''hold_response'',
     f_MaxDuration := Some d\<rparr>"
| "commit_fault CClose = zero_fault\<lparr>f_Phase := AfterCommit, f_Action := ''close_connection''\<rparr>"

fun commit_action_ok :: "commit_action \<Rightarrow> bool" where
  "commit_action_ok (CDelay d) = (0 < d)"
| "commit_action_ok (CHoldResponse d) = (0 < d)"
| "commit_action_ok CClose = True"


declare validateFault_def [config_defs] fault_switch_def [config_defs] fault_extra_def [config_defs]
  zero_fault_def [config_defs] nonpos_def [config_defs] phase_defs [config_defs]
  tcpDirection_def [config_defs] matcher_empty_def [config_defs]

lemma http_fault_accepted:
  assumes "http_action_ok a" shows "validateFault (http_fault a) path = Inr ()"
proof (cases a)
  case (HDelay ph d) with assms show ?thesis by (cases ph) (simp_all add: config_defs)
next
  case (HClose ph) with assms show ?thesis by (cases ph) (simp_all add: config_defs)
next
  case (HTruncate dir n) with assms show ?thesis by (cases dir) (simp_all add: config_defs)
next
  case (HThrottle dir n) with assms show ?thesis by (cases dir) (simp_all add: config_defs)
qed (use assms in \<open>simp_all add: config_defs\<close>)

lemma fault_switch_action:
  "fault_switch f path = Inr () \<Longrightarrow> f_Action f \<in> {''delay'', ''respond'', ''hold_request'',
     ''hold_response'', ''truncate'', ''throttle'', ''close_connection''}"
  unfolding fault_switch_def by (simp only: Let_def split: if_splits) auto

lemma validateFault_parts:
  assumes "validateFault f path = Inr ()"
  shows "f_AfterBytes f = None" "f_AfterDuration f = None" "f_TriggerDirection f = []"
    "f_Phase f = BeforeUpstreamRequest \<or> f_Phase f = AfterUpstreamHeaders"
    "fault_switch f path = Inr ()" "fault_extra f path = Inr ()"
  using assms unfolding validateFault_def
  by (simp_all only: split: if_splits sum.splits) simp_all

lemma fault_extra_parts:
  assumes "fault_extra f path = Inr ()"
  shows "f_Action f \<noteq> ''truncate'' \<Longrightarrow> f_Action f \<noteq> ''throttle'' \<Longrightarrow> f_Direction f = []"
    "f_Action f \<noteq> ''truncate'' \<Longrightarrow> f_Bytes f = None"
    "f_Action f \<noteq> ''throttle'' \<Longrightarrow> f_BytesPerSecond f = None"
    "f_Action f \<noteq> ''delay'' \<Longrightarrow> f_Duration f = None"
    "f_Action f \<noteq> ''hold_request'' \<Longrightarrow> f_Action f \<noteq> ''hold_response'' \<Longrightarrow> f_MaxDuration f = None"
    "f_Action f \<noteq> ''respond'' \<Longrightarrow> f_Status f = None"
    "f_Action f \<noteq> ''respond'' \<Longrightarrow> f_Body f = None"
  using assms unfolding fault_extra_def by (simp_all only: Let_def split: if_splits) simp_all

lemma http_fault_complete:
  assumes acc: "validateFault f path = Inr ()"
  obtains a where "http_action_ok a" "f = http_fault a"
proof -
  note parts = validateFault_parts[OF acc] 
  note extra = fault_extra_parts[OF parts(6)]
  define ph where "ph = (if f_Phase f = BeforeUpstreamRequest then Before else After)"
  define dir where "dir = (if f_Direction f = ''request'' then ReqBody else RespBody)"
  have ph: "f_Phase f = phase_name ph" using parts(4) by (auto simp: ph_def)
  from fault_switch_action[OF parts(5)] consider
      "f_Action f = ''delay''" | "f_Action f = ''respond''" | "f_Action f = ''hold_request''"
    | "f_Action f = ''hold_response''" | "f_Action f = ''truncate''" | "f_Action f = ''throttle''"
    | "f_Action f = ''close_connection''" by auto
  then have "\<exists>a. http_action_ok a \<and> f = http_fault a"
  proof cases
    case 1
    with parts extra ph show ?thesis
      by (intro exI[of _ "HDelay ph (the (f_Duration f))"])
        (auto simp: config_defs intro!: fault.equality split: if_splits option.splits)
  next
    case 2
    with parts extra ph show ?thesis
      by (intro exI[of _ "HRespond (the (f_Status f)) (f_Body f)"])
        (auto simp: config_defs intro!: fault.equality split: if_splits option.splits)
  next
    case 3
    with parts extra ph show ?thesis
      by (intro exI[of _ "HHoldRequest (the (f_MaxDuration f))"])
        (auto simp: config_defs intro!: fault.equality split: if_splits option.splits)
  next
    case 4
    with parts extra ph show ?thesis
      by (intro exI[of _ "HHoldResponse (the (f_MaxDuration f))"])
        (auto simp: config_defs intro!: fault.equality split: if_splits option.splits)
  next
    case 5
    with parts extra ph show ?thesis
      by (intro exI[of _ "HTruncate dir (the (f_Bytes f))"])
        (auto simp: config_defs dir_def intro!: fault.equality split: if_splits option.splits)
  next
    case 6
    with parts extra ph show ?thesis
      by (intro exI[of _ "HThrottle dir (the (f_BytesPerSecond f))"])
        (auto simp: config_defs dir_def intro!: fault.equality split: if_splits option.splits)
  next
    case 7
    with parts extra ph show ?thesis
      by (intro exI[of _ "HClose ph"])
        (auto simp: config_defs intro!: fault.equality split: if_splits option.splits)
  qed
  then show ?thesis using that by blast
qed

lemma validateFault_iff:
  "validateFault f path = Inr () \<longleftrightarrow> (\<exists>a. http_action_ok a \<and> f = http_fault a)"
  by (metis http_fault_accepted http_fault_complete)

section \<open>Selectors\<close>

datatype selection = Probability rat | Nth u64 | Every u64

fun selection_ok :: "selection \<Rightarrow> bool" where
  "selection_ok (Probability p) = (0 \<le> p \<and> p \<le> 1)"
| "selection_ok (Nth n) = (n \<noteq> 0)"
| "selection_ok (Every n) = (n \<noteq> 0)"

fun selection_selector :: "selection \<Rightarrow> selector" where
  "selection_selector (Probability p) = zero_selector\<lparr>s_Probability := Some (Fin p)\<rparr>"
| "selection_selector (Nth n) = zero_selector\<lparr>s_Nth := Some n\<rparr>"
| "selection_selector (Every n) = zero_selector\<lparr>s_Every := Some n\<rparr>"

lemma validateSelector_ok:
  "selection_ok x \<Longrightarrow> validateSelector (selection_selector x) path = Inr (selection_selector x)"
  by (cases x) (auto simp: validateSelector_def zero_selector_def fl_eq0_def)

lemma validateSelector_Inr:
  assumes "validateSelector s path = Inr s'"
  obtains x where "selection_ok x" "s' = selection_selector x"
proof -
  have "\<exists>x. selection_ok x \<and> s' = selection_selector x"
  proof (cases "s_Probability s")
    case None
    show ?thesis
    proof (cases "s_Nth s")
      case (Some n)
      with None assms have "s' = selection_selector (Nth n)" "n \<noteq> 0"
        by (auto simp: validateSelector_def zero_selector_def split: if_splits)
      then show ?thesis by (metis selection_ok.simps(2))
    next
      case None2: None
      with None assms have "s' = selection_selector (Every (the (s_Every s)))" "the (s_Every s) \<noteq> 0"
        by (auto simp: validateSelector_def zero_selector_def split: if_splits)
      then show ?thesis by (metis selection_ok.simps(3))
    qed
  next
    case (Some p)
    define q where "q = (if fl_eq0 p then Fin 0 else p)"
    have "s_Nth s = None" "s_Every s = None" "s' = s\<lparr>s_Probability := Some q\<rparr>"
      "q \<noteq> FNaN" "\<And>b. q \<noteq> FInf b" "\<not> fl_less q (Fin 0)" "\<not> fl_less (Fin 1) q" "q \<noteq> FNegZero"
      using Some assms by (auto simp: validateSelector_def q_def fl_eq0_def split: if_splits)
    then obtain r where "q = Fin r" "0 \<le> r" "r \<le> 1" "s' = selection_selector (Probability r)"
      by (cases q) (auto simp: zero_selector_def)
    then show ?thesis by (metis selection_ok.simps(1))
  qed
  then show ?thesis using that by blast
qed


lemma validateSelector_fixed:
  "validateSelector s path = Inr s' \<Longrightarrow> validateSelector s' path' = Inr s'"
  by (metis validateSelector_Inr validateSelector_ok)

section \<open>TCP and database rules\<close>


lemma tcpDirection_name [simp]: "tcpDirection (tcp_dir_name d)" "tcp_dir_name d \<noteq> []"
  by (cases d; simp add: tcpDirection_def)+

lemma tcpDirection_iff: "tcpDirection s \<longleftrightarrow> (\<exists>d. s = tcp_dir_name d)"
  by (metis tcpDirection_def tcp_dir_name.simps tcpDirection_name(1))

lemma tcp_trigger_check_iff:
  "tcp_trigger_check f path = Inr () \<longleftrightarrow>
     f_Status f = None \<and> f_Body f = None \<and> f_Bytes f = None
     \<and> (\<exists>t. trigger_ok t \<and> f = with_trigger t
            (f\<lparr>f_AfterBytes := None, f_AfterDuration := None, f_TriggerDirection := []\<rparr>))"
  (is "?L \<longleftrightarrow> ?R")
proof
  assume L: ?L
  consider n where "f_AfterBytes f = Some n" | d where "f_AfterBytes f = None" "f_AfterDuration f = Some d"
    | "f_AfterBytes f = None" "f_AfterDuration f = None" by (cases "f_AfterBytes f"; cases "f_AfterDuration f")
  then show ?R
  proof cases
    case 1
    with L have "tcpDirection (f_TriggerDirection f)"
      by (simp add: tcp_trigger_check_def tcpDirection_def split: if_splits)
    then obtain dir where "f_TriggerDirection f = tcp_dir_name dir" by (auto simp: tcpDirection_iff)
    with 1 L show ?thesis
      by (auto simp: tcp_trigger_check_def intro!: exI[of _ "AtBytes dir n"] split: if_splits)
  next
    case 2
    with L show ?thesis
      by (auto simp: tcp_trigger_check_def nonpos_def intro!: exI[of _ "AtTime d"] split: if_splits)
  next
    case 3
    with L show ?thesis
      by (auto simp: tcp_trigger_check_def intro!: exI[of _ AtStart] split: if_splits)
  qed
next
  assume ?R
  then obtain t where t: "trigger_ok t" "f_Status f = None" "f_Body f = None" "f_Bytes f = None"
    and f: "f = with_trigger t
            (f\<lparr>f_AfterBytes := None, f_AfterDuration := None, f_TriggerDirection := []\<rparr>)"
    by blast
  have g: "f_AfterBytes f = (case t of AtBytes _ n \<Rightarrow> Some n | _ \<Rightarrow> None)"
    "f_AfterDuration f = (case t of AtTime d \<Rightarrow> Some d | _ \<Rightarrow> None)"
    "f_TriggerDirection f = (case t of AtBytes dir _ \<Rightarrow> tcp_dir_name dir | _ \<Rightarrow> [])"
    using arg_cong[OF f, of f_AfterBytes] arg_cong[OF f, of f_AfterDuration]
      arg_cong[OF f, of f_TriggerDirection]
    by (cases t; simp)+
  show ?L
  proof (cases t)
    case (AtBytes dir n)
    with g t show ?thesis by (cases dir) (simp_all add: tcp_trigger_check_def)
  qed (use g t in \<open>simp_all add: tcp_trigger_check_def nonpos_def\<close>)
qed

lemma validateTCPRule_Inr:
  "validateTCPRule r path = Inr r' \<longleftrightarrow>
     matcher_empty (r_Match r) \<and> tcp_trigger_check (r_Fault r) path = Inr ()
     \<and> tcp_switch (r_Fault r) path = Inr ()
     \<and> (\<exists>s. validateSelector (r_Select r) path = Inr s \<and> r' = r\<lparr>r_Select := s\<rparr>)"
  by (auto simp: validateTCPRule_def split: sum.splits)

lemma with_trigger_sel [simp]:
  "f_Status (with_trigger t g) = f_Status g" "f_Body (with_trigger t g) = f_Body g"
  "f_Bytes (with_trigger t g) = f_Bytes g" "f_Action (with_trigger t g) = f_Action g"
  "f_Phase (with_trigger t g) = f_Phase g" "f_Direction (with_trigger t g) = f_Direction g"
  "f_Duration (with_trigger t g) = f_Duration g" "f_MaxDuration (with_trigger t g) = f_MaxDuration g"
  "f_BytesPerSecond (with_trigger t g) = f_BytesPerSecond g"
  by (cases t; simp)+

lemma with_trigger_check:
  assumes "trigger_ok t" "f_Status g = None" "f_Body g = None" "f_Bytes g = None"
    "f_AfterBytes g = None" "f_AfterDuration g = None" "f_TriggerDirection g = []"
  shows "tcp_trigger_check (with_trigger t g) path = Inr ()"
  unfolding tcp_trigger_check_iff using assms
  by (intro conjI exI[of _ t]; cases t) simp_all

lemma tcp_fault_accepted:
  assumes "tcp_action_ok a"
  shows "tcp_trigger_check (tcp_fault a) path = Inr ()" "tcp_switch (tcp_fault a) path = Inr ()"
proof -
  show "tcp_trigger_check (tcp_fault a) path = Inr ()"
  proof (cases a)
    case (TDelayConnect d)
    then show ?thesis by (simp add: tcp_trigger_check_def zero_fault_def)
  qed (use assms in \<open>simp_all add: with_trigger_check zero_fault_def\<close>)
  show "tcp_switch (tcp_fault a) path = Inr ()"
    using assms by (cases a) (simp_all add: tcp_switch_def zero_fault_def nonpos_def)
qed

lemma tcp_switch_complete:
  assumes sw: "tcp_switch f path = Inr ()" and tr: "tcp_trigger_check f path = Inr ()"
  obtains a where "tcp_action_ok a" "f = tcp_fault a"
proof -
  from tr obtain t where t: "trigger_ok t" and none: "f_Status f = None" "f_Body f = None" "f_Bytes f = None"
    and f: "f = with_trigger t
            (f\<lparr>f_AfterBytes := None, f_AfterDuration := None, f_TriggerDirection := []\<rparr>)"
    unfolding tcp_trigger_check_iff by blast
  from sw consider
      "f_Action f = ''delay_connect''" | "f_Action f = ''close_connection''" | "f_Action f = ''hold''"
    | "f_Action f = ''throttle''"
    by (simp add: tcp_switch_def split: if_splits)
  then have "\<exists>a. tcp_action_ok a \<and> f = tcp_fault a"
  proof cases
    case 1
    with sw none have "f = tcp_fault (TDelayConnect (the (f_Duration f)))" "0 < the (f_Duration f)"
      using tr by (auto simp: tcp_switch_def tcp_trigger_check_def zero_fault_def nonpos_def
          intro!: fault.equality split: if_splits option.splits)
    then show ?thesis by (metis tcp_action_ok.simps(1))
  next
    case 2
    with sw none have "f\<lparr>f_AfterBytes := None, f_AfterDuration := None, f_TriggerDirection := []\<rparr>
      = zero_fault\<lparr>f_Phase := TCPOnTransfer, f_Action := ''close_connection''\<rparr>"
      by (simp add: tcp_switch_def zero_fault_def split: if_splits)
    with f t show ?thesis by (metis tcp_action_ok.simps(2) tcp_fault.simps(2))
  next
    case 3
    with sw obtain dir where dir: "f_Direction f = tcp_dir_name dir" "0 < the (f_MaxDuration f)"
      by (auto simp: tcp_switch_def tcpDirection_iff nonpos_def split: if_splits option.splits)
    with 3 sw none have "f\<lparr>f_AfterBytes := None, f_AfterDuration := None, f_TriggerDirection := []\<rparr>
      = zero_fault\<lparr>f_Phase := TCPOnTransfer, f_Action := ''hold'', f_Direction := tcp_dir_name dir,
          f_MaxDuration := Some (the (f_MaxDuration f))\<rparr>"
      by (simp add: tcp_switch_def zero_fault_def nonpos_def split: if_splits option.splits)
    with f t dir show ?thesis by (metis tcp_action_ok.simps(3) tcp_fault.simps(3))
  next
    case 4
    with sw obtain dir where dir: "f_Direction f = tcp_dir_name dir" "0 < the (f_BytesPerSecond f)"
      by (auto simp: tcp_switch_def tcpDirection_iff nonpos_def split: if_splits option.splits)
    with 4 sw none have "f\<lparr>f_AfterBytes := None, f_AfterDuration := None, f_TriggerDirection := []\<rparr>
      = zero_fault\<lparr>f_Phase := TCPOnTransfer, f_Action := ''throttle'', f_Direction := tcp_dir_name dir,
          f_BytesPerSecond := Some (the (f_BytesPerSecond f))\<rparr>"
      by (simp add: tcp_switch_def zero_fault_def nonpos_def split: if_splits option.splits)
    with f t dir show ?thesis by (metis tcp_action_ok.simps(4) tcp_fault.simps(4))
  qed
  then show ?thesis using that by blast
qed

section \<open>Header maps\<close>

lemma chr_code_lower: "is_upper c \<Longrightarrow> chr_code (lower_char c) = chr_code c + 32"
  by (simp add: lower_char_def is_upper_def chr_code_def)

lemma lower_char_idem [simp]: "lower_char (lower_char c) = lower_char c"
proof (cases "is_upper c")
  case True
  then have "\<not> is_upper (lower_char c)"
    using chr_code_lower[OF True] by (simp add: is_upper_def)
  then show ?thesis by (simp add: lower_char_def)
qed (simp add: lower_char_def)

lemma toLower_idem [simp]: "toLower (toLower s) = toLower s"
  by (simp add: toLower_def)

lemma is_alnum_lower_char: "is_alnum c \<Longrightarrow> is_alnum (lower_char c)"
  using chr_code_lower[of c]
  by (cases "is_upper c") (auto simp: is_alnum_def is_lower_def is_upper_def lower_char_def)

lemma token_toLower: "token s \<Longrightarrow> token (toLower s)"
proof -
  have "lower_char c = c" if "\<not> is_alnum c" for c
    using that by (simp add: is_alnum_def lower_char_def)
  then show "token s \<Longrightarrow> token (toLower s)"
    unfolding token_def toLower_def list_all_iff
    by (auto intro: is_alnum_lower_char)
qed

definition put_header :: "string \<times> string \<Rightarrow> string gomap \<Rightarrow> string gomap" where
  "put_header h m = gm_put (toLower (fst h)) (snd h) m"

definition header_ok :: "string \<times> string \<Rightarrow> bool" where
  "header_ok h \<longleftrightarrow> token (fst h) \<and> \<not> containsAny (snd h) (crlf @ [CHR 0x00])"

lemma validate_headers_Inr:
  "validate_headers path acc hs = Inr h \<longleftrightarrow>
     list_all header_ok hs \<and> distinct (map (toLower \<circ> fst) hs)
     \<and> (\<forall>x \<in> set hs. map_of acc (toLower (fst x)) = None) \<and> h = fold put_header hs acc"
proof (induction path acc hs rule: validate_headers.induct)
  case (2 path acc name v rest)
  have "(\<forall>x \<in> set rest. map_of (gm_put (toLower name) v acc) (toLower (fst x)) = None)
    \<longleftrightarrow> toLower name \<notin> set (map (toLower \<circ> fst) rest)
      \<and> (\<forall>x \<in> set rest. map_of acc (toLower (fst x)) = None)"
    by (force split: if_splits)
  with 2 show ?case
    by (simp add: header_ok_def put_header_def comp_def del: set_map gm_put_lookup) blast
qed auto

lemma fold_put_header_ok: "gm_ok acc \<Longrightarrow> gm_ok (fold put_header hs acc)"
  by (induction hs arbitrary: acc) (auto simp: put_header_def)

lemma fold_put_header_lookup:
  "distinct (map (toLower \<circ> fst) hs) \<Longrightarrow>
   map_of (fold put_header hs acc) = map_of acc ++ map_of (map (\<lambda>x. (toLower (fst x), snd x)) hs)"
proof (induction hs arbitrary: acc)
  case (Cons x hs)
  let ?k = "toLower (fst x)"
  have "?k \<notin> dom (map_of (map (\<lambda>x. (toLower (fst x), snd x)) hs))"
    using Cons.prems by (auto simp: dom_map_of_conv_image_fst image_image)
  with Cons show ?case
    by (auto simp: put_header_def fun_eq_iff map_add_def split: option.splits)
qed simp

text \<open>Neither the acceptance of a header map nor the map built depends on the iteration order.\<close>

lemma validate_headers_perm:
  assumes "mset hs = mset hs'"
  shows "validate_headers path [] hs = Inr h \<longleftrightarrow> validate_headers path [] hs' = Inr h"
proof -
  have half: "validate_headers path [] ys = Inr h"
    if eq: "mset xs = mset ys" and ok: "validate_headers path [] xs = Inr h" for xs ys
  proof -
    let ?low = "map (\<lambda>x. (toLower (fst x), snd x))"
    have d: "distinct (map (toLower \<circ> fst) xs)" and l: "list_all header_ok xs"
      and h: "h = fold put_header xs []"
      using ok by (simp_all add: validate_headers_Inr)
    have s: "set xs = set ys" using eq by (rule mset_eq_setD)
    have "mset (map (toLower \<circ> fst) xs) = mset (map (toLower \<circ> fst) ys)" using eq by simp
    then have dy: "distinct (map (toLower \<circ> fst) ys)"
      using d mset_eq_imp_distinct_iff by blast
    have "set (?low xs) = set (?low ys)" using s by simp
    moreover have "distinct (map fst (?low xs))" "distinct (map fst (?low ys))"
      using d dy by (simp_all add: comp_def)
    ultimately have "map_of (?low xs) = map_of (?low ys)" by (simp add: map_of_inject_set)
    then have "fold put_header xs [] = fold put_header ys []"
      using d dy by (intro gm_ext) (simp_all add: fold_put_header_ok fold_put_header_lookup)
    then show ?thesis
      using l h dy s by (simp add: validate_headers_Inr list_all_iff)
  qed
  show ?thesis using half[of hs hs'] half[of hs' hs] assms by auto
qed

lemma validate_headers_fixed:
  assumes "validate_headers path [] hs = Inr h"
  shows "validate_headers path' [] h = Inr h"
proof -
  let ?low = "map (\<lambda>x. (toLower (fst x), snd x)) hs"
  have d: "distinct (map (toLower \<circ> fst) hs)" and l: "list_all header_ok hs"
    and h: "h = fold put_header hs []"
    using assms by (simp_all add: validate_headers_Inr)
  have ok: "gm_ok h" by (simp add: h fold_put_header_ok)
  have look: "map_of h = map_of ?low" by (simp add: h fold_put_header_lookup[OF d])
  have mem: "\<exists>y \<in> set hs. x = (toLower (fst y), snd y)" if "x \<in> set h" for x
  proof -
    obtain k v where x: "x = (k, v)" by (cases x)
    from that ok x have "map_of h k = Some v" by (simp add: gm_ok_distinct)
    with look have "map_of ?low k = Some v" by simp
    then show ?thesis using map_of_SomeD x by fastforce
  qed
  have low: "toLower (fst x) = fst x" if "x \<in> set h" for x using mem[OF that] by auto
  have "list_all header_ok h"
    using mem l by (fastforce simp: list_all_iff header_ok_def token_toLower)
  moreover have "distinct (map (toLower \<circ> fst) h)"
    using gm_ok_distinct[OF ok] low by (simp add: comp_def cong: map_cong)
  moreover have "fold put_header h [] = h"
  proof (rule gm_ext)
    have "map (\<lambda>x. (toLower (fst x), snd x)) h = h" by (rule map_idI) (simp add: low)
    then show "map_of (fold put_header h []) = map_of h"
      using calculation(2) by (simp add: fold_put_header_lookup)
  qed (simp_all add: ok fold_put_header_ok)
  ultimately show ?thesis by (simp add: validate_headers_Inr)
qed

definition norm_selector :: "selector \<Rightarrow> selector" where
  "norm_selector s =
     s\<lparr>s_Probability := map_option (\<lambda>p. if fl_eq0 p then Fin 0 else p) (s_Probability s)\<rparr>"

lemma validateSelector_iff:
  "validateSelector s path = Inr s' \<longleftrightarrow>
     s' = norm_selector s \<and> (\<exists>x. selection_ok x \<and> norm_selector s = selection_selector x)"
proof
  assume ok: "validateSelector s path = Inr s'"
  then have "s' = norm_selector s"
    by (auto simp: validateSelector_def norm_selector_def split: if_splits option.splits)
  with ok show "s' = norm_selector s \<and> (\<exists>x. selection_ok x \<and> norm_selector s = selection_selector x)"
    using validateSelector_Inr by metis
next
  assume "s' = norm_selector s \<and> (\<exists>x. selection_ok x \<and> norm_selector s = selection_selector x)"
  then obtain x where s': "s' = norm_selector s" and x: "selection_ok x" "norm_selector s = selection_selector x"
    by blast
  have nn: "norm_selector (norm_selector s) = norm_selector s"
    by (cases "s_Probability s") (auto simp: norm_selector_def fl_eq0_def)
  have "validateSelector (norm_selector s) path = validateSelector s path"
    by (cases "s_Probability s") (auto simp: validateSelector_def norm_selector_def fl_eq0_def)
  with validateSelector_ok[OF x(1)] x(2) s' show "validateSelector s path = Inr s'" by simp
qed

definition matcher_ok :: "matcher \<Rightarrow> bool" where
  "matcher_ok m \<longleftrightarrow>
     (m_Method m \<noteq> [] \<longrightarrow> token (m_Method m))
     \<and> (m_Path m \<noteq> [] \<longrightarrow> hasPrefix (m_Path m) ''/'' \<and> \<not> containsAny (m_Path m) (''?#'' @ crlf))
     \<and> (m_PathPattern m \<noteq> [] \<longrightarrow> m_Path m = [] \<and> validPathPattern (m_PathPattern m))
     \<and> list_all header_ok (headers_of m) \<and> distinct (map (toLower \<circ> fst) (headers_of m))"

definition norm_headers :: "matcher \<Rightarrow> string gomap" where
  "norm_headers m = fold put_header (headers_of m) []"

definition norm_body :: "fault \<Rightarrow> fault" where
  "norm_body f = (if f_Action f = ''respond'' \<and> f_Body f = None then f\<lparr>f_Body := Some []\<rparr> else f)"

definition norm_rule :: "rule \<Rightarrow> rule" where
  "norm_rule r = r\<lparr>r_Match := (r_Match r)\<lparr>m_Headers := Some (norm_headers (r_Match r))\<rparr>,
     r_Select := norm_selector (r_Select r), r_Fault := norm_body (r_Fault r)\<rparr>"

definition selector_ok :: "selector \<Rightarrow> bool" where
  "selector_ok s \<longleftrightarrow> (\<exists>x. selection_ok x \<and> norm_selector s = selection_selector x)"

lemma validateRule_iff:
  "validateRule r path = Inr r' \<longleftrightarrow>
     matcher_ok (r_Match r) \<and> selector_ok (r_Select r)
     \<and> (\<exists>a. http_action_ok a \<and> r_Fault r = http_fault a) \<and> r' = norm_rule r"
proof -
  have h: "validate_headers path [] (headers_of m) = Inr h \<longleftrightarrow>
      list_all header_ok (headers_of m) \<and> distinct (map (toLower \<circ> fst) (headers_of m))
      \<and> h = norm_headers m" for m h
    by (simp add: validate_headers_Inr norm_headers_def)
  have "validateRule r path = Inr r' \<longleftrightarrow>
     (m_Method (r_Match r) \<noteq> [] \<longrightarrow> token (m_Method (r_Match r)))
     \<and> (m_Path (r_Match r) \<noteq> [] \<longrightarrow>
          hasPrefix (m_Path (r_Match r)) ''/'' \<and> \<not> containsAny (m_Path (r_Match r)) (''?#'' @ crlf))
     \<and> (m_PathPattern (r_Match r) \<noteq> [] \<longrightarrow>
          m_Path (r_Match r) = [] \<and> validPathPattern (m_PathPattern (r_Match r)))
     \<and> (\<exists>hd s. validate_headers path [] (headers_of (r_Match r)) = Inr hd
         \<and> validateSelector (r_Select r) path = Inr s
         \<and> validateFault (r_Fault r) (path @ ''.fault'') = Inr ()
         \<and> r' = r\<lparr>r_Match := (r_Match r)\<lparr>m_Headers := Some hd\<rparr>, r_Select := s,
                  r_Fault := norm_body (r_Fault r)\<rparr>)"
    by (auto simp: validateRule_def norm_body_def Let_def split: sum.splits)
  then show ?thesis
    by (auto simp: h validateSelector_iff validateFault_iff matcher_ok_def selector_ok_def norm_rule_def)
qed

definition norm_commit_rule :: "rule \<Rightarrow> rule" where
  "norm_commit_rule r = r\<lparr>r_Match := (r_Match r)\<lparr>m_Headers := Some []\<rparr>,
     r_Select := norm_selector (r_Select r)\<rparr>"

definition norm_tcp_rule :: "rule \<Rightarrow> rule" where
  "norm_tcp_rule r = r\<lparr>r_Select := norm_selector (r_Select r)\<rparr>"

lemma matcher_empty_ok: "matcher_empty m \<Longrightarrow> matcher_ok m" "matcher_empty m \<Longrightarrow> norm_headers m = []"
  by (simp_all add: matcher_empty_def matcher_ok_def norm_headers_def)

lemma commit_http:
  assumes "f_Action f \<in> set (Actions ''mysql'')"
  shows "(f_Phase f = AfterCommit \<and> (\<exists>a. http_action_ok a \<and> f\<lparr>f_Phase := AfterUpstreamHeaders\<rparr> = http_fault a))
     \<longleftrightarrow> (\<exists>a. commit_action_ok a \<and> f = commit_fault a)" (is "?L \<longleftrightarrow> ?R")
proof
  assume L: ?L
  then obtain a where a: "http_action_ok a" "f\<lparr>f_Phase := AfterUpstreamHeaders\<rparr> = http_fault a" by blast
  have "f = (f\<lparr>f_Phase := AfterUpstreamHeaders\<rparr>)\<lparr>f_Phase := AfterCommit\<rparr>"
    using L by simp
  then have f: "f = (http_fault a)\<lparr>f_Phase := AfterCommit\<rparr>" by (simp only: a(2))
  with assms have "f_Action (http_fault a) \<in> set (Actions ''mysql'')" by simp
  with a(1) f show ?R
    by (cases a) (auto simp: Actions_def intro: exI[of _ "CDelay d" for d]
        exI[of _ "CHoldResponse d" for d] exI[of _ CClose])
next
  assume ?R
  then obtain a where a: "commit_action_ok a" "f = commit_fault a" by blast
  then show ?L
    by (cases a) (auto intro: exI[of _ "HDelay After d" for d] exI[of _ "HHoldResponse d" for d]
        exI[of _ "HClose After"])
qed

lemma validateCommitRule_iff:
  assumes act: "f_Action (r_Fault r) \<in> set (Actions ''mysql'')"
  shows "validateCommitRule r path = Inr r' \<longleftrightarrow>
     matcher_empty (r_Match r) \<and> selector_ok (r_Select r)
     \<and> (\<exists>a. commit_action_ok a \<and> r_Fault r = commit_fault a) \<and> r' = norm_commit_rule r"
proof -
  have "validateCommitRule r path = Inr r' \<longleftrightarrow>
     f_Phase (r_Fault r) = AfterCommit \<and> matcher_empty (r_Match r)
     \<and> (\<exists>q. validateRule (r\<lparr>r_Fault := (r_Fault r)\<lparr>f_Phase := AfterUpstreamHeaders\<rparr>\<rparr>) path = Inr q
         \<and> r' = r\<lparr>r_Match := (r_Match r)\<lparr>m_Headers := m_Headers (r_Match q)\<rparr>, r_Select := r_Select q\<rparr>)"
    by (auto simp: validateCommitRule_def split: sum.splits)
  then show ?thesis
    unfolding commit_http[OF act, symmetric] validateRule_iff
    by (auto simp: norm_commit_rule_def norm_rule_def matcher_empty_ok)
qed

lemma validateTCPRule_iff:
  "validateTCPRule r path = Inr r' \<longleftrightarrow>
     matcher_empty (r_Match r) \<and> selector_ok (r_Select r)
     \<and> (\<exists>a. tcp_action_ok a \<and> r_Fault r = tcp_fault a) \<and> r' = norm_tcp_rule r"
proof -
  have "tcp_trigger_check f path = Inr () \<and> tcp_switch f path = Inr ()
      \<longleftrightarrow> (\<exists>a. tcp_action_ok a \<and> f = tcp_fault a)" for f
    using tcp_fault_accepted tcp_switch_complete by metis
  then show ?thesis
    by (auto simp: validateTCPRule_Inr validateSelector_iff selector_ok_def norm_tcp_rule_def)
qed

definition rule_ok :: "string \<Rightarrow> rule \<Rightarrow> bool" where
  "rule_ok protocol r \<longleftrightarrow>
     is_identifier (r_ID r)
     \<and> (m_Service (r_Match r) \<noteq> [] \<longrightarrow> protocol = ''grpc'' \<and> is_identifier (m_Service (r_Match r)))
     \<and> selector_ok (r_Select r)
     \<and> f_Action (r_Fault r) \<in> set (Actions protocol)
     \<and> (if is_database protocol
        then matcher_empty (r_Match r) \<and> (\<exists>a. commit_action_ok a \<and> r_Fault r = commit_fault a)
        else if protocol = ''tcp''
        then matcher_empty (r_Match r) \<and> (\<exists>a. tcp_action_ok a \<and> r_Fault r = tcp_fault a)
        else matcher_ok (r_Match r) \<and> (\<exists>a. http_action_ok a \<and> r_Fault r = http_fault a))"

definition norm_rule_of :: "string \<Rightarrow> rule \<Rightarrow> rule" where
  "norm_rule_of protocol r =
     (if is_database protocol then norm_commit_rule r
      else if protocol = ''tcp'' then norm_tcp_rule r else norm_rule r)"

lemma validate_one_rule_iff:
  "validate_one_rule protocol r rp = Inr r' \<longleftrightarrow> rule_ok protocol r \<and> r' = norm_rule_of protocol r"
proof (cases "is_database protocol")
  case True
  then have "Actions protocol = Actions ''mysql''"
    by (auto simp: is_database_def Actions_def)
  with True show ?thesis
    by (cases "f_Action (r_Fault r) \<in> set (Actions ''mysql'')")
      (auto simp: validate_one_rule_def rule_ok_def norm_rule_of_def validateCommitRule_iff is_database_def)
next
  case False
  then show ?thesis
    by (cases "protocol = ''tcp''")
      (auto simp: validate_one_rule_def rule_ok_def norm_rule_of_def validateTCPRule_iff validateRule_iff)
qed

lemma norm_selector_idem [simp]: "norm_selector (norm_selector s) = norm_selector s"
  by (cases "s_Probability s") (auto simp: norm_selector_def fl_eq0_def)

lemma selector_ok_norm [simp]: "selector_ok (norm_selector s) \<longleftrightarrow> selector_ok s"
  by (simp add: selector_ok_def)

lemma norm_body_idem [simp]: "norm_body (norm_body f) = norm_body f"
  by (simp add: norm_body_def)

lemma norm_body_Action [simp]: "f_Action (norm_body f) = f_Action f"
  by (simp add: norm_body_def)

lemma norm_body_http:
  assumes "http_action_ok a"
  shows "\<exists>a'. http_action_ok a' \<and> norm_body (http_fault a) = http_fault a'"
proof (cases a)
  case (HRespond s b)
  with assms show ?thesis
    by (cases b) (auto simp: norm_body_def intro!: exI[of _ "HRespond s (Some (case b of None \<Rightarrow> [] | Some x \<Rightarrow> x))"])
qed (use assms in \<open>auto simp: norm_body_def intro!: exI[of _ a]\<close>)

lemma norm_headers_fixed:
  assumes "matcher_ok m"
  defines "m' \<equiv> m\<lparr>m_Headers := Some (norm_headers m)\<rparr>"
  shows "matcher_ok m'" "norm_headers m' = norm_headers m"
proof -
  have "validate_headers [] [] (headers_of m) = Inr (norm_headers m)"
    using assms(1) by (simp add: validate_headers_Inr matcher_ok_def norm_headers_def)
  then have "validate_headers [] [] (norm_headers m) = Inr (norm_headers m)"
    by (rule validate_headers_fixed)
  moreover have "headers_of m' = norm_headers m" by (simp add: m'_def headers_of_def)
  ultimately have "list_all header_ok (headers_of m') \<and> distinct (map (toLower \<circ> fst) (headers_of m'))
      \<and> norm_headers m' = norm_headers m"
    by (simp add: validate_headers_Inr norm_headers_def[of m'])
  with assms(1) show "matcher_ok m'" "norm_headers m' = norm_headers m"
    by (simp_all add: matcher_ok_def m'_def)
qed

lemma norm_rule_of_fixed:
  assumes "rule_ok protocol r"
  shows "rule_ok protocol (norm_rule_of protocol r)"
    "norm_rule_of protocol (norm_rule_of protocol r) = norm_rule_of protocol r"
proof -
  have "matcher_empty (m\<lparr>m_Headers := Some []\<rparr>)" if "matcher_empty m" for m
    using that by (simp add: matcher_empty_def headers_of_def)
  then show "rule_ok protocol (norm_rule_of protocol r)"
    using assms norm_headers_fixed(1)[of "r_Match r"] norm_body_http
    by (auto simp: rule_ok_def norm_rule_of_def norm_rule_def norm_commit_rule_def norm_tcp_rule_def
        split: if_splits)
  show "norm_rule_of protocol (norm_rule_of protocol r) = norm_rule_of protocol r"
    using assms norm_headers_fixed(2)[of "r_Match r"]
    by (auto simp: rule_ok_def norm_rule_of_def norm_rule_def norm_commit_rule_def norm_tcp_rule_def
        split: if_splits)
qed

lemma validate_rules_iff:
  "validate_rules protocol path j rs = Inr rs' \<longleftrightarrow>
     list_all (rule_ok protocol) rs \<and> rs' = map (norm_rule_of protocol) rs"
proof (induction rs arbitrary: j rs')
  case (Cons r rs)
  have "validate_rules protocol path j (r # rs) = Inr rs' \<longleftrightarrow>
      (\<exists>r1 rs1. validate_one_rule protocol r (path @ indexed ''.rules'' j) = Inr r1
         \<and> validate_rules protocol path (Suc j) rs = Inr rs1 \<and> rs' = r1 # rs1)"
    by (auto split: sum.splits)
  then show ?case by (auto simp: validate_one_rule_iff Cons.IH)
qed auto

lemma validate_rules_fixed:
  assumes "validate_rules protocol path j rs = Inr rs'"
  shows "validate_rules protocol path' j' rs' = Inr rs'"
  using assms norm_rule_of_fixed by (auto simp: validate_rules_iff list_all_iff)

definition proxy_ok :: "proxy \<Rightarrow> bool" where
  "proxy_ok p \<longleftrightarrow>
     is_identifier (p_ID p) \<and> known_protocol (p_Protocol p)
     \<and> upstream_protocol_error p = None
     \<and> list_all (rule_ok (p_Protocol p)) (p_Rules p)
     \<and> list_all (\<lambda>r. norm_rule_of (p_Protocol p) r = r) (p_Rules p)
     \<and> (p_Protocol p = ''tcp'' \<longrightarrow> p_TLS p = None \<and> p_UpstreamTLS p = None
          \<and> p_Upstream p \<noteq> ''tcp://'' @ p_Listen p)
     \<and> (p_Protocol p = ''mysql'' \<longrightarrow> (p_TLS p \<noteq> None \<longleftrightarrow> hasPrefix (p_Upstream p) ''mysqls://''))
     \<and> (is_database (p_Protocol p) \<longrightarrow>
          (\<forall>t. p_TLS p = Some t \<longrightarrow> lt_ClientCAFile t = [])
          \<and> (\<forall>u. p_UpstreamTLS p = Some u \<longrightarrow> ut_CertFile u = [] \<and> ut_KeyFile u = []))"

definition config_ok :: "config \<Rightarrow> bool" where
  "config_ok c \<longleftrightarrow>
     c_APIVersion c = APIVersion \<and> 0 < MaxInflightRequests (c_Runtime c)
     \<and> 0 < RequestTimeout (c_Runtime c) \<and> c_Proxies c \<noteq> []
     \<and> distinct (map p_Listen (c_Proxies c)) \<and> list_all proxy_ok (c_Proxies c)"

lemma listener_tls_step_ClientCA:
  assumes "listener_tls_step env base path tls dg = Inr (tls', dg')"
  shows "(tls' = None \<longleftrightarrow> tls = None)
    \<and> (\<forall>t t'. tls = Some t \<longrightarrow> tls' = Some t' \<longrightarrow> lt_ClientCAFile t = [] \<longrightarrow> lt_ClientCAFile t' = [])"
  using assms by (auto simp: listener_tls_step_def Let_def split: option.splits sum.splits if_splits)

lemma upstream_tls_step_Cert:
  assumes "upstream_tls_step env base path upstream tls dg = Inr (tls', dg')"
  shows "(tls' = None \<longleftrightarrow> tls = None)
    \<and> (\<forall>u u'. tls = Some u \<longrightarrow> tls' = Some u' \<longrightarrow> ut_CertFile u = [] \<longrightarrow> ut_KeyFile u = [] \<longrightarrow>
         ut_CertFile u' = [] \<and> ut_KeyFile u' = [])"
  using assms by (auto simp: upstream_tls_step_def Let_def split: option.splits sum.splits if_splits)

lemma validateTLS_Inr:
  assumes "validateTLS env p base path dg = Inr (p', dg')"
  obtains t u dg1 where "p' = p\<lparr>p_TLS := t, p_UpstreamTLS := u\<rparr>"
    "listener_tls_step env base path (p_TLS p) dg = Inr (t, dg1)"
    "upstream_tls_step env base path (p_Upstream p) (p_UpstreamTLS p) dg1 = Inr (u, dg')"
    "p_Protocol p = ''mysql'' \<longrightarrow> (p_TLS p \<noteq> None \<longleftrightarrow> hasPrefix (p_Upstream p) ''mysqls://'')"
    "is_database (p_Protocol p) \<longrightarrow>
          (\<forall>t. p_TLS p = Some t \<longrightarrow> lt_ClientCAFile t = [])
          \<and> (\<forall>u. p_UpstreamTLS p = Some u \<longrightarrow> ut_CertFile u = [] \<and> ut_KeyFile u = [])"
  using assms by (auto simp: validateTLS_def split: sum.splits if_splits option.splits)

lemma tcp_upstream_Inr:
  assumes "tcp_upstream env p path = Inr p'"
  obtains up where "p' = p\<lparr>p_Upstream := up\<rparr>" "up \<noteq> ''tcp://'' @ p_Listen p" "p_TLS p = None"
    "p_UpstreamTLS p = None"
  using assms by (auto simp: tcp_upstream_def Let_def split: sum.splits if_splits option.splits)

lemma origin_upstream_Inr:
  assumes "origin_upstream env p path = Inr p'"
  obtains up where "p' = p\<lparr>p_Upstream := up\<rparr>"
  using assms by (auto simp: origin_upstream_def Let_def split: sum.splits if_splits option.splits)

lemma validate_proxy_Inr:
  assumes "validate_proxy env base path listeners dg p0 = Inr (p', dg')"
  obtains listen p4 where
    "is_identifier (p_ID p0)" "known_protocol (p_Protocol p0)"
    "upstream_protocol_error (default_upstream_protocol p0) = None"
    "normalize_listen env (p_Listen p0) = Some listen" "listen \<notin> set listeners"
    "upstream_step env base path dg ((default_upstream_protocol p0)\<lparr>p_Listen := listen\<rparr>) = Inr (p4, dg')"
    "validate_rules (p_Protocol p4) path 0 (p_Rules p4) = Inr (p_Rules p')"
    "p' = p4\<lparr>p_Rules := p_Rules p'\<rparr>"
proof -
  have "p_Listen (default_upstream_protocol p0) = p_Listen p0"
    by (simp add: default_upstream_protocol_def)
  then show thesis
    using assms that by (fastforce simp: validate_proxy_def upstream_step_def Let_def
        split: sum.splits if_splits option.splits prod.splits)
qed

lemma upstream_step_Inr:
  assumes "upstream_step env base path dg p = Inr (q, dg')"
  shows "(\<exists>up t u. q = p\<lparr>p_Upstream := up, p_TLS := t, p_UpstreamTLS := u\<rparr>)
    \<and> (p_Protocol q = ''tcp'' \<longrightarrow> p_TLS q = None \<and> p_UpstreamTLS q = None
        \<and> p_Upstream q \<noteq> ''tcp://'' @ p_Listen q)
    \<and> (p_Protocol q = ''mysql'' \<longrightarrow> (p_TLS q \<noteq> None \<longleftrightarrow> hasPrefix (p_Upstream q) ''mysqls://''))
    \<and> (is_database (p_Protocol q) \<longrightarrow>
          (\<forall>t. p_TLS q = Some t \<longrightarrow> lt_ClientCAFile t = [])
          \<and> (\<forall>u. p_UpstreamTLS q = Some u \<longrightarrow> ut_CertFile u = [] \<and> ut_KeyFile u = []))"
proof (cases "p_Protocol p = ''tcp''")
  case True
  then have "tcp_upstream env p path = Inr q"
    using assms by (auto simp: upstream_step_def split: sum.splits)
  then obtain up where q: "q = p\<lparr>p_Upstream := up\<rparr>" and n: "up \<noteq> ''tcp://'' @ p_Listen p"
    "p_TLS p = None" "p_UpstreamTLS p = None" by (rule tcp_upstream_Inr)
  have "q = p\<lparr>p_Upstream := up, p_TLS := None, p_UpstreamTLS := None\<rparr>"
    using n(2,3) by (simp add: q)
  with q n True show ?thesis by (auto simp: is_database_def)
next
  case False
  then obtain q1 where q1: "origin_upstream env p path = Inr q1"
    "validateTLS env q1 base path dg = Inr (q, dg')"
    using assms by (auto simp: upstream_step_def split: sum.splits)
  from q1(1) obtain up where up: "q1 = p\<lparr>p_Upstream := up\<rparr>" by (rule origin_upstream_Inr)
  from q1(2) obtain t u dg1 where q: "q = q1\<lparr>p_TLS := t, p_UpstreamTLS := u\<rparr>"
    "listener_tls_step env base path (p_TLS q1) dg = Inr (t, dg1)"
    "upstream_tls_step env base path (p_Upstream q1) (p_UpstreamTLS q1) dg1 = Inr (u, dg')"
    "p_Protocol q1 = ''mysql'' \<longrightarrow> (p_TLS q1 \<noteq> None \<longleftrightarrow> hasPrefix (p_Upstream q1) ''mysqls://'')"
    "is_database (p_Protocol q1) \<longrightarrow>
          (\<forall>t. p_TLS q1 = Some t \<longrightarrow> lt_ClientCAFile t = [])
          \<and> (\<forall>u. p_UpstreamTLS q1 = Some u \<longrightarrow> ut_CertFile u = [] \<and> ut_KeyFile u = [])"
    by (rule validateTLS_Inr)
  have f: "p_TLS q = t" "p_UpstreamTLS q = u" "p_Protocol q = p_Protocol p" "p_Upstream q = p_Upstream q1"
    "p_Protocol q1 = p_Protocol p"
    by (simp_all add: q(1) up)
  have "q = p\<lparr>p_Upstream := up, p_TLS := t, p_UpstreamTLS := u\<rparr>" by (simp add: q(1) up)
  then have "\<exists>up t u. q = p\<lparr>p_Upstream := up, p_TLS := t, p_UpstreamTLS := u\<rparr>" by blast
  moreover have "p_Protocol p = ''mysql'' \<longrightarrow> (t \<noteq> None \<longleftrightarrow> hasPrefix (p_Upstream q1) ''mysqls://'')"
    using q(4) listener_tls_step_ClientCA[OF q(2)] unfolding f(5) by simp
  moreover have "is_database (p_Protocol p) \<longrightarrow> (\<forall>x. t = Some x \<longrightarrow> lt_ClientCAFile x = [])"
    using q(5) listener_tls_step_ClientCA[OF q(2)] unfolding f(5) by (metis option.exhaust)
  moreover have "is_database (p_Protocol p) \<longrightarrow>
      (\<forall>x. u = Some x \<longrightarrow> ut_CertFile x = [] \<and> ut_KeyFile x = [])"
    using q(5) upstream_tls_step_Cert[OF q(3)] unfolding f(5) by (metis option.exhaust)
  ultimately show ?thesis
    using False by (simp only: f simp_thms) iprover
qed

lemma validate_proxy_ok:
  assumes "validate_proxy env base path listeners dg p0 = Inr (p', dg')"
  shows "proxy_ok p' \<and> p_Listen p' \<notin> set listeners"
  using assms
proof (rule validate_proxy_Inr)
  fix listen p4
  assume a: "is_identifier (p_ID p0)" "known_protocol (p_Protocol p0)"
    "upstream_protocol_error (default_upstream_protocol p0) = None"
    "normalize_listen env (p_Listen p0) = Some listen" "listen \<notin> set listeners"
    "upstream_step env base path dg ((default_upstream_protocol p0)\<lparr>p_Listen := listen\<rparr>) = Inr (p4, dg')"
    "validate_rules (p_Protocol p4) path 0 (p_Rules p4) = Inr (p_Rules p')"
    "p' = p4\<lparr>p_Rules := p_Rules p'\<rparr>"
  note u = upstream_step_Inr[OF a(6)]
  then obtain up t v where p4: "p4 = (default_upstream_protocol p0)\<lparr>p_Listen := listen,
      p_Upstream := up, p_TLS := t, p_UpstreamTLS := v\<rparr>" by auto
  obtain rs where rs: "p' = p4\<lparr>p_Rules := rs\<rparr>" using a(8) by blast
  have d: "p_ID (default_upstream_protocol p0) = p_ID p0"
    "p_Protocol (default_upstream_protocol p0) = p_Protocol p0"
    by (simp_all add: default_upstream_protocol_def)
  have "list_all (rule_ok (p_Protocol p4)) (p_Rules p') \<and>
      list_all (\<lambda>r. norm_rule_of (p_Protocol p4) r = r) (p_Rules p')"
    using a(7) norm_rule_of_fixed by (auto simp: validate_rules_iff list_all_iff)
  moreover have eqs: "p_ID p' = p_ID p0" "p_Protocol p' = p_Protocol p0" "p_Protocol p4 = p_Protocol p0"
    "p_UpstreamProtocol p' = p_UpstreamProtocol (default_upstream_protocol p0)"
    "p_Upstream p' = p_Upstream p4" "p_TLS p' = p_TLS p4" "p_UpstreamTLS p' = p_UpstreamTLS p4"
    "p_Listen p' = p_Listen p4" "p_Listen p4 = listen"
    by (simp_all add: rs p4 d)
  moreover have "upstream_protocol_error p' = None"
    using a(3) unfolding upstream_protocol_error_def eqs d .
  ultimately show ?thesis
    using a(1,2,5) u unfolding proxy_ok_def eqs by simp
qed

lemma validate_proxies_ok:
  assumes "validate_proxies env base i listeners dg ps = Inr (ps', dg')"
  shows "list_all proxy_ok ps' \<and> distinct (map p_Listen ps')
    \<and> set (map p_Listen ps') \<inter> set listeners = {} \<and> length ps' = length ps"
  using assms
proof (induction ps arbitrary: i listeners dg ps')
  case (Cons p ps)
  then obtain p1 dg1 qs where
    "validate_proxy env base (indexed ''proxies'' i) listeners dg p = Inr (p1, dg1)"
    "validate_proxies env base (Suc i) (p_Listen p1 # listeners) dg1 ps = Inr (qs, dg')"
    "ps' = p1 # qs"
    by (auto split: sum.splits)
  then show ?case using validate_proxy_ok Cons.IH by fastforce
qed auto

lemma validate_config_ok:
  assumes "validate env c base = Inr (c', dg)"
  shows "config_ok c'"
  using assms validate_proxies_ok[of env base 0 "[]" "[]" "c_Proxies c"]
  by (fastforce simp: validate_def config_ok_def split: if_splits sum.splits)

lemma path_clean_nonempty [simp]: "path_clean p \<noteq> []"
  by (simp add: path_clean_def Let_def)

definition listener_files :: "listener_tls option \<Rightarrow> string set" where
  "listener_files tls = (case tls of None \<Rightarrow> {}
     | Some t \<Rightarrow> {lt_CertFile t, lt_KeyFile t, lt_ClientCAFile t} - {[]})"

definition upstream_files :: "upstream_tls option \<Rightarrow> string set" where
  "upstream_files tls = (case tls of None \<Rightarrow> {}
     | Some u \<Rightarrow> {ut_CAFile u, ut_CertFile u, ut_KeyFile u} - {[]})"

definition tls_files :: "proxy list \<Rightarrow> string set" where
  "tls_files ps = (\<Union>p \<in> set ps. listener_files (p_TLS p) \<union> upstream_files (p_UpstreamTLS p))"

text \<open>The digests of the files in \<open>S\<close>, each of which can be read, and of no other file.\<close>

definition digests_of :: "host_env \<Rightarrow> digests \<Rightarrow> string set \<Rightarrow> bool" where
  "digests_of env dg S \<longleftrightarrow> gm_ok dg \<and> S \<subseteq> {n. e_readFile env n \<noteq> None}
     \<and> (\<forall>n. map_of dg n = (if n \<in> S then map_option (e_sha256 env) (e_readFile env n) else None))"

lemma tls_read_digests:
  assumes "tls_read env base name field dg = Inr (data, name', dg')" "digests_of env dg S"
  shows "name' \<noteq> [] \<and> digests_of env dg' (insert name' S)"
  using assms by (auto simp: tls_read_def Let_def digests_of_def gm_put_ok split: if_splits option.splits)

lemma validateCA_digests:
  assumes "validateCA env base name field dg = Inr (name', dg')" "digests_of env dg S"
  shows "name' \<noteq> [] \<and> digests_of env dg' (insert name' S)"
  using assms by (auto simp: validateCA_def dest: tls_read_digests split: if_splits sum.splits)

lemma tls_pair_digests:
  assumes "tls_pair env base path cf kf dg = Inr (cn, kn, dg')" "digests_of env dg S"
  shows "cn \<noteq> [] \<and> kn \<noteq> [] \<and> digests_of env dg' ({cn, kn} \<union> S)"
proof -
  obtain cert dg1 key where r: "tls_read env base cf (path @ ''.cert_file'') dg = Inr (cert, cn, dg1)"
    "tls_read env base kf (path @ ''.key_file'') dg1 = Inr (key, kn, dg')"
    using assms(1) by (auto simp: tls_pair_def split: if_splits sum.splits)
  note a = tls_read_digests[OF r(1) assms(2)]
  show ?thesis using a tls_read_digests[OF r(2), of "insert cn S"] by (simp add: insert_commute)
qed

lemma listener_tls_step_digests:
  assumes "listener_tls_step env base path tls dg = Inr (tls', dg')" "digests_of env dg S"
  shows "digests_of env dg' (listener_files tls' \<union> S)"
proof (cases tls)
  case None
  with assms show ?thesis by (simp add: listener_tls_step_def listener_files_def)
next
  case (Some t)
  then obtain cn kn dg1 where
    p: "tls_pair env base (path @ ''.tls'') (lt_CertFile t) (lt_KeyFile t) dg = Inr (cn, kn, dg1)"
    using assms(1) by (auto simp: listener_tls_step_def split: sum.splits)
  note q = tls_pair_digests[OF p assms(2)]
  show ?thesis
  proof (cases "lt_ClientCAFile t = []")
    case True
    with Some p assms(1) have "tls' = Some (t\<lparr>lt_CertFile := cn, lt_KeyFile := kn\<rparr>)" "dg' = dg1"
      by (auto simp: listener_tls_step_def Let_def)
    with q True show ?thesis by (simp add: listener_files_def insert_Diff_if)
  next
    case False
    with Some p assms(1) obtain an where
      "validateCA env base (lt_ClientCAFile t) (path @ ''.tls.client_ca_file'') dg1 = Inr (an, dg')"
      "tls' = Some (t\<lparr>lt_CertFile := cn, lt_KeyFile := kn, lt_ClientCAFile := an\<rparr>)"
      by (auto simp: listener_tls_step_def Let_def split: sum.splits)
    with q show ?thesis
      using validateCA_digests[of env base _ _ dg1 an dg' "{cn, kn} \<union> S"]
      by (auto simp: listener_files_def insert_Diff_if insert_commute)
  qed
qed

lemma upstream_tls_step_digests:
  assumes "upstream_tls_step env base path upstream tls dg = Inr (tls', dg')" "digests_of env dg S"
  shows "digests_of env dg' (upstream_files tls' \<union> S)"
proof (cases tls)
  case None
  with assms show ?thesis by (simp add: upstream_tls_step_def upstream_files_def)
next
  case (Some u)
  then obtain an dg1 where
    ca: "(if ut_CAFile u = [] then Inr (ut_CAFile u, dg)
          else validateCA env base (ut_CAFile u) (path @ ''.upstream_tls.ca_file'') dg) = Inr (an, dg1)"
    using assms(1) by (auto simp: upstream_tls_step_def split: if_splits sum.splits)
  have d1: "digests_of env dg1 (({an} - {[]}) \<union> S)"
    using ca assms(2) validateCA_digests[of env base _ _ dg an dg1 S]
    by (auto simp: insert_Diff_if split: if_splits)
  show ?thesis
  proof (cases "ut_CertFile u = [] \<and> ut_KeyFile u = []")
    case True
    with Some ca assms(1) have "tls' = Some (u\<lparr>ut_CAFile := an\<rparr>)" "dg' = dg1"
      by (auto simp: upstream_tls_step_def Let_def split: if_splits)
    with d1 True show ?thesis by (simp add: upstream_files_def insert_Diff_if split: if_splits)
  next
    case False
    with Some ca assms(1) obtain cn kn where
      p: "tls_pair env base (path @ ''.upstream_tls'') (ut_CertFile u) (ut_KeyFile u) dg1 = Inr (cn, kn, dg')"
      and t: "tls' = Some (u\<lparr>ut_CAFile := an, ut_CertFile := cn, ut_KeyFile := kn\<rparr>)"
      by (auto simp: upstream_tls_step_def Let_def split: if_splits sum.splits)
    from tls_pair_digests[OF p d1] t show ?thesis
      by (cases "an = []") (auto simp: upstream_files_def insert_Diff_if insert_commute)
  qed
qed

lemma upstream_step_digests:
  assumes "upstream_step env base path dg p = Inr (q, dg')" "digests_of env dg S"
  shows "digests_of env dg' (listener_files (p_TLS q) \<union> upstream_files (p_UpstreamTLS q) \<union> S)"
proof (cases "p_Protocol p = ''tcp''")
  case True
  then have "tcp_upstream env p path = Inr q" "dg' = dg"
    using assms by (auto simp: upstream_step_def split: sum.splits)
  from this(1) obtain up where "q = p\<lparr>p_Upstream := up\<rparr>" "p_TLS p = None" "p_UpstreamTLS p = None"
    by (rule tcp_upstream_Inr)
  with \<open>dg' = dg\<close> assms(2) show ?thesis by (simp add: listener_files_def upstream_files_def)
next
  case False
  then obtain q1 where "validateTLS env q1 base path dg = Inr (q, dg')"
    using assms by (auto simp: upstream_step_def split: sum.splits)
  then obtain t u dg1 where q: "q = q1\<lparr>p_TLS := t, p_UpstreamTLS := u\<rparr>"
    "listener_tls_step env base path (p_TLS q1) dg = Inr (t, dg1)"
    "upstream_tls_step env base path (p_Upstream q1) (p_UpstreamTLS q1) dg1 = Inr (u, dg')"
    by (rule validateTLS_Inr)
  from upstream_tls_step_digests[OF q(3) listener_tls_step_digests[OF q(2) assms(2)]]
  show ?thesis by (simp add: q(1) Un_ac)
qed

lemma validate_proxies_digests:
  assumes "validate_proxies env base i listeners dg ps = Inr (ps', dg')" "digests_of env dg S"
  shows "digests_of env dg' (tls_files ps' \<union> S)"
  using assms
proof (induction ps arbitrary: i listeners dg S ps')
  case (Cons p ps)
  then obtain p1 dg1 qs where
    p1: "validate_proxy env base (indexed ''proxies'' i) listeners dg p = Inr (p1, dg1)" and
    r: "validate_proxies env base (Suc i) (p_Listen p1 # listeners) dg1 ps = Inr (qs, dg')"
      "ps' = p1 # qs"
    by (auto split: sum.splits)
  from p1 have "digests_of env dg1 (listener_files (p_TLS p1) \<union> upstream_files (p_UpstreamTLS p1) \<union> S)"
  proof (rule validate_proxy_Inr)
    fix listen p4
    assume u: "upstream_step env base (indexed ''proxies'' i) dg
        ((default_upstream_protocol p)\<lparr>p_Listen := listen\<rparr>) = Inr (p4, dg1)"
      and "p1 = p4\<lparr>p_Rules := p_Rules p1\<rparr>"
    then obtain rs where "p1 = p4\<lparr>p_Rules := rs\<rparr>" by blast
    then show ?thesis using upstream_step_digests[OF u Cons.prems(2)] by simp
  qed
  from Cons.IH[OF r(1) this] r(2) show ?case by (simp add: tls_files_def Un_ac)
qed (simp add: tls_files_def)

lemma validate_digests:
  assumes "validate env c base = Inr (c', dg)"
  shows "digests_of env dg (tls_files (c_Proxies c'))"
proof -
  have "digests_of env [] {}" by (simp add: digests_of_def)
  with assms validate_proxies_digests[of env base 0 "[]" "[]" "c_Proxies c" _ dg "{}"] show ?thesis
    by (auto simp: validate_def split: if_splits sum.splits)
qed

section \<open>A sample configuration\<close>

text \<open>
  One HTTP proxy with a TLS listener, relative file names and a rule, and a host that has the
  files: the input at which the theorems on validation are instantiated.
\<close>

definition demo_env :: host_env where
  "demo_env = \<lparr>e_parseIP = (\<lambda>s. s = ''127.0.0.1''),
     e_urlParse = (\<lambda>s. if s = ''https://api.test:443''
        then Some \<lparr>u_Scheme = ''https'', u_User = False, u_Opaque = [], u_Host = ''api.test:443'', u_Path = [],
          u_RawQuery = [], u_ForceQuery = False, u_Fragment = []\<rparr> else None),
     e_readFile = (\<lambda>n. if n = ''/etc/cert.pem'' then Some [1] else if n = ''/etc/key.pem'' then Some [2] else None),
     e_sha256 = (\<lambda>d. d), e_X509KeyPair = (\<lambda>c k. c = [1] \<and> k = [2]),
     e_pemDecode = (\<lambda>d. None), e_parseCertificate = (\<lambda>d. False)\<rparr>"

definition demo_rule :: rule where
  "demo_rule = \<lparr>r_ID = ''slow'', r_Enabled = True, r_Match = zero_matcher, r_Select = zero_selector\<lparr>s_Nth := Some 2\<rparr>,
     r_Fault = http_fault (HDelay Before 5)\<rparr>"

definition demo_proxy :: proxy where
  "demo_proxy = \<lparr>p_ID = ''api'', p_Protocol = ''http1'', p_UpstreamProtocol = [], p_Listen = '':8080'', p_Upstream = ''https://api.test:443'',
     p_TLS = Some \<lparr>lt_CertFile = ''cert.pem'', lt_KeyFile = ''../etc/key.pem'', lt_ClientCAFile = []\<rparr>,
     p_UpstreamTLS = None, p_Rules = [demo_rule]\<rparr>"

definition demo_config :: config where
  "demo_config = \<lparr>c_APIVersion = APIVersion, c_Seed = 1, c_Runtime = DefaultRuntime, c_Proxies = [demo_proxy]\<rparr>"


lemmas demo_defs = demo_config_def demo_proxy_def demo_rule_def demo_env_def DefaultRuntime_def
  zero_matcher_def zero_selector_def zero_fault_def

definition checked_proxy :: proxy where
  "checked_proxy = demo_proxy\<lparr>p_UpstreamProtocol := ''http1'', p_Listen := ''127.0.0.1:8080'',
     p_Upstream := ''https://api.test'',
     p_TLS := Some \<lparr>lt_CertFile = ''/etc/cert.pem'', lt_KeyFile = ''/etc/key.pem'', lt_ClientCAFile = []\<rparr>,
     p_Rules := [demo_rule\<lparr>r_Match := zero_matcher\<lparr>m_Headers := Some []\<rparr>\<rparr>]\<rparr>"

definition checked_config :: config where
  "checked_config = demo_config\<lparr>c_Proxies := [checked_proxy]\<rparr>"

definition demo_digests :: digests where
  "demo_digests = [(''/etc/cert.pem'', [1]), (''/etc/key.pem'', [2])]"

lemma demo_proxy_validates:
  "validate_proxy demo_env ''/etc'' path [] [] demo_proxy = Inr (checked_proxy, demo_digests)"
  by (simp add: eval_simps demo_defs checked_proxy_def demo_digests_def)

lemma demo_validates:
  "validate demo_env demo_config ''/etc'' = Inr (checked_config, demo_digests)"
  by (simp add: validate_def APIVersion_def demo_config_def DefaultRuntime_def demo_proxy_validates
      checked_config_def)

lemma demo_rule_validates:
  "validate_rules ''http1'' path 0 [demo_rule] = Inr (p_Rules checked_proxy)"
  by (simp add: eval_simps demo_defs checked_proxy_def)

section \<open>The properties of the validator\<close>

text \<open>C3. The HTTP faults that \<open>validateFault\<close> accepts are exactly the written forms of the
  legal HTTP actions: a fault with a missing, a superfluous or an out-of-range parameter is
  rejected, and every legal action is accepted.\<close>

theorem validateFault_language:
  "{f. validateFault f path = Inr ()} = http_fault ` {a. http_action_ok a}"
  by (auto simp: validateFault_iff)

text \<open>C1. The checks that \<open>validate\<close> makes of one rule accept it exactly when the rule is legal for
  the protocol of its proxy (identifier, gRPC service, matcher, selector, and a fault that is the
  written form of a legal HTTP, TCP or commit action), and what is stored is its normal form.\<close>

theorem validate_rule_exact:
  "validate_one_rule protocol r rp = Inr r' \<longleftrightarrow> rule_ok protocol r \<and> r' = norm_rule_of protocol r"
  by (rule validate_one_rule_iff)

text \<open>C2. A configuration that \<open>validate\<close> accepts is well-formed after normalisation: positive
  limits, at least one proxy, pairwise different listeners, known protocols with a matching
  upstream protocol, legal and normalised rules, no TLS and no loop to itself on a TCP proxy, both
  or neither TLS legs on a MySQL proxy, and no client certificates on a database proxy.\<close>

theorem validate_sound:
  assumes "validate env c base = Inr (c', dg)"
  shows "config_ok c'"
  using assms by (rule validate_config_ok)

theorem validate_sound_witness: "config_ok checked_config"
  by (rule validate_sound[OF demo_validates])

text \<open>C4. The digests that \<open>validate\<close> returns are those of the TLS files the accepted
  configuration names, all of which could be read, and of no other file.\<close>

theorem validate_digests_exact:
  assumes "validate env c base = Inr (c', dg)"
  shows "digests_of env dg (tls_files (c_Proxies c'))"
  using assms by (rule validate_digests)

theorem validate_digests_exact_witness:
  "digests_of demo_env demo_digests (tls_files (c_Proxies checked_config))"
  by (rule validate_digests_exact[OF demo_validates])

end
