(* ===== verification/Load_Correct.thy ===== *)
theory Load_Correct
  imports Load Validate_Correct
begin

text \<open>
  Loading of configurations: decoding respects the Go types and never shows a scalar in an error,
  every loaded document is well-formed, and errors name the file and the place they are in.
\<close>

section \<open>Typing\<close>

text \<open>The values of a Go type. The tags of a structure name its fields one by one.\<close>

inductive has_type :: "gtype \<Rightarrow> gval \<Rightarrow> bool" where
  "has_type TString (VString s)"
| "has_type TBool (VBool b)"
| "has_type TInt (VInt i)"
| "has_type TUint64 (VUint u)"
| "has_type TFloat64 (VFloat x)"
| "has_type TDuration (VDuration d)"
| "has_type (TPtr t) (VPtr None)"
| "has_type t v \<Longrightarrow> has_type (TPtr t) (VPtr (Some v))"
| "length vs = length ts \<Longrightarrow> (\<forall>i < length ts. has_type (ts ! i) (vs ! i)) \<Longrightarrow> has_type (TStruct name tags ts) (VStruct vs)"
| "has_type (TMap t) (VMap None)"
| "gm_ok m \<Longrightarrow> (\<forall>(k, v) \<in> set m. has_type t v) \<Longrightarrow> has_type (TMap t) (VMap (Some m))"
| "(\<forall>v \<in> set vs. has_type t v) \<Longrightarrow> has_type (TSlice t) (VSlice vs)"

inductive_simps has_type_simps:
  "has_type TString v" "has_type TBool v" "has_type TInt v" "has_type TUint64 v" "has_type TFloat64 v"
  "has_type TDuration v" "has_type (TPtr t) v" "has_type (TStruct name tags ts) v" "has_type (TMap t) v" "has_type (TSlice t) v"

fun type_ok :: "gtype \<Rightarrow> bool" where
  "type_ok (TStruct name tags ts) = (length tags = length ts \<and> list_all type_ok ts
     \<and> (name = ''Rule'' \<longrightarrow> (\<forall>i. field_index tags ''enabled'' = Some i \<longrightarrow> ts ! i = TBool)))"
| "type_ok (TPtr t) = type_ok t"
| "type_ok (TMap t) = type_ok t"
| "type_ok (TSlice t) = type_ok t"
| "type_ok t = True"

lemma zero_val_typed: "has_type t (zero_val t)"
  by (induction t) (auto simp: has_type_simps)

text \<open>What the YAML package promises: a scalar is decoded into a value of the type asked for.\<close>

definition scalars_typed :: "decode_env \<Rightarrow> bool" where
  "scalars_typed env \<longleftrightarrow> (\<forall>t n v. de_scalar env t n = Some v \<longrightarrow> has_type t v)"

lemma field_index_less: "field_index tags key = Some i \<Longrightarrow> i < length tags"
  by (induction tags arbitrary: i) (auto split: if_splits)

lemma struct_start_typed:
  assumes "type_ok (TStruct name tags ts)" "has_type (TStruct name tags ts) v"
  shows "length (struct_start name tags v) = length ts
    \<and> (\<forall>i < length ts. has_type (ts ! i) (struct_start name tags v ! i))"
proof -
  obtain vs where vs: "v = VStruct vs" "length vs = length ts" "\<forall>i < length ts. has_type (ts ! i) (vs ! i)"
    using assms(2) by (auto simp: has_type_simps)
  show ?thesis
    using vs assms(1) field_index_less[of tags "''enabled''"]
    by (auto simp: struct_start_def nth_list_update intro: has_type.intros split: option.splits)
qed

lemma gm_put_set: "set (gm_put k v m) \<subseteq> insert (k, v) (set m)"
  by (induction k v m rule: gm_put.induct) auto

lemma decode_typed:
  assumes "scalars_typed env"
  shows "type_ok t \<Longrightarrow> has_type t v \<Longrightarrow> decodeNode env n t v path = Inr w \<Longrightarrow> has_type t w"
    and "list_all type_ok ts \<Longrightarrow> length tags = length ts \<Longrightarrow> length vs = length ts
      \<Longrightarrow> (\<forall>i < length ts. has_type (ts ! i) (vs ! i)) \<Longrightarrow> decode_fields env ns tags ts vs path seen = Inr ws
      \<Longrightarrow> length ws = length ts \<and> (\<forall>i < length ts. has_type (ts ! i) (ws ! i))"
    and "type_ok t \<Longrightarrow> gm_ok m \<Longrightarrow> (\<forall>(k, v) \<in> set m. has_type t v)
      \<Longrightarrow> decode_entries env ns t m path seen = Inr m' \<Longrightarrow> gm_ok m' \<and> (\<forall>(k, v) \<in> set m'. has_type t v)"
    and "type_ok t \<Longrightarrow> decode_items env ns t path i = Inr us \<Longrightarrow> \<forall>u \<in> set us. has_type t u"
  using assms
proof (induction env n t v path and env ns tags ts vs path seen and env ns t m path seen and env ns t path i
    arbitrary: w and ws and m' and us rule: decodeNode_decode_fields_decode_entries_decode_items.induct)
  case (1 env n t v path)
  have live: "\<not> (y_Kind n = YAlias \<or> y_Tag n = ''!!null'')"
    using 1(7) by (auto simp: decodeNode.simps[of env n t v path] split: if_splits)
  have scalar: "has_type t w" if "decode_scalar env n t path = Inr w"
    using that 1(8) by (auto simp: decode_scalar_def scalars_typed_def split: if_splits option.splits)
  note dec = 1(7)[unfolded decodeNode.simps[of env n t v path] if_not_P[OF live]]
  show ?case
  proof (cases t)
    case (TPtr t')
    then obtain u where u: "decodeNode env n t' (zero_val t') path = Inr u" "w = VPtr (Some u)"
      using dec by (auto split: sum.splits)
    have "has_type t' u" using 1(1)[OF live TPtr _ zero_val_typed u(1) 1(8)] 1(5) TPtr by simp
    then show ?thesis using TPtr u(2) by (simp add: has_type.intros)
  next
    case TDuration
    then show ?thesis using dec by (auto simp: decode_duration_def has_type_simps split: if_splits option.splits)
  next
    case (TStruct name tags ts)
    then have m: "\<not> y_Kind n \<noteq> YMapping" using dec by (auto split: if_splits)
    obtain ws where ws: "decode_fields env (y_Content n) tags ts (struct_start name tags v) path [] = Inr ws" "w = VStruct ws"
      using dec TStruct m by (auto split: sum.splits)
    note start = struct_start_typed[of name tags ts v, OF 1(5,6)[unfolded TStruct]]
    have "length ws = length ts \<and> (\<forall>i < length ts. has_type (ts ! i) (ws ! i))"
      by (rule 1(2)[OF live TStruct m _ _ start[THEN conjunct1] start[THEN conjunct2] ws(1) 1(8)]) (use 1(5) TStruct in simp_all)
    then show ?thesis using TStruct ws(2) by (simp add: has_type.intros)
  next
    case (TMap t')
    then have m: "\<not> y_Kind n \<noteq> YMapping" using dec by (auto split: if_splits)
    obtain m' where m': "decode_entries env (y_Content n) t' [] path [] = Inr m'" "w = VMap (Some m')"
      using dec TMap m by (auto split: sum.splits)
    have "gm_ok m' \<and> (\<forall>(k, v) \<in> set m'. has_type t' v)"
      by (rule 1(3)[OF live TMap m _ _ _ m'(1) 1(8)]) (use 1(5) TMap in simp_all)
    then show ?thesis using TMap m'(2) by (simp add: has_type.intros)
  next
    case (TSlice t')
    then have m: "\<not> y_Kind n \<noteq> YSequence" using dec by (auto split: if_splits)
    obtain us where us: "decode_items env (y_Content n) t' path 0 = Inr us" "w = VSlice us"
      using dec TSlice m by (auto split: sum.splits)
    have "\<forall>u \<in> set us. has_type t' u" by (rule 1(4)[OF live TSlice m _ us(1) 1(8)]) (use 1(5) TSlice in simp)
    then show ?thesis using TSlice us(2) by (simp add: has_type.intros)
  qed (use dec scalar in auto)
next
  case (4 env key val rest tags ts vs path seen)
  obtain i u where i: "y_Tag key = ''!!str''" "y_Value key \<notin> set seen" "field_index tags (y_Value key) = Some i"
    "decodeNode env val (ts ! i) (vs ! i) (child_path path (y_Value key)) = Inr u"
    "decode_fields env rest tags ts (vs[i := u]) path (y_Value key # seen) = Inr ws"
    using 4(7) by (auto simp: Let_def split: if_splits option.splits sum.splits)
  have less: "i < length ts" using field_index_less[OF i(3)] 4(4) by simp
  have "has_type (ts ! i) u"
    using 4(1)[OF _ refl _ i(3) _ _ i(4) 4(8)] i(1,2) less 4(3,6) by (auto simp: list_all_length)
  then have upd: "\<forall>k < length ts. has_type (ts ! k) (vs[i := u] ! k)" using 4(5,6) less by (auto simp: nth_list_update)
  have len: "length (vs[i := u]) = length ts" using 4(5) by simp
  show ?case by (rule 4(2)[OF _ refl _ i(3) i(4) 4(3) 4(4) len upd i(5) 4(8)]) (use i(1,2) in auto)
next
  case (7 env key val rest t m path seen)
  obtain u where i: "y_Tag key = ''!!str''" "y_Value key \<notin> set seen"
    "decodeNode env val t (zero_val t) (child_path path (y_Value key)) = Inr u"
    "decode_entries env rest t (gm_put (y_Value key) u m) path (y_Value key # seen) = Inr m'"
    using 7(6) by (auto simp: Let_def split: if_splits sum.splits)
  have u: "has_type t u" using 7(1)[OF _ refl _ 7(3) zero_val_typed i(3) 7(7)] i(1,2) by auto
  have "\<forall>(k, v) \<in> set (gm_put (y_Value key) u m). has_type t v"
    using u 7(5) gm_put_set[of "y_Value key" u m] by fastforce
  then show ?case
    using 7(2)[OF _ refl _ i(3) 7(3) gm_put_ok[OF 7(4)] _ i(4) 7(7)] i(1,2) by auto
next
  case (9 env n ns t path i)
  then obtain u us' where u: "decodeNode env n t (zero_val t) (indexed path i) = Inr u" "decode_items env ns t path (Suc i) = Inr us'"
    "us = u # us'" by (auto split: sum.splits)
  show ?case using 9(1)[OF 9(3) zero_val_typed u(1) 9(5)] 9(2)[OF u(1) 9(3) u(2) 9(5)] u(3) by simp
qed auto

section \<open>Decoding errors\<close>

text \<open>The messages of decoding: constants, so that no value of a scalar can show in an error.\<close>

definition decode_messages :: "string list" where
  "decode_messages = [''aliases and null values are not supported'', ''expected a duration string'', ''invalid duration'',
     ''expected a mapping'', ''expected string field names; YAML merges are not supported'', ''duplicate field'',
     ''unknown field'', ''expected a sequence'', ''invalid scalar type'', ''invalid scalar value'',
     ''expected one valid YAML document'', ''expected exactly one YAML document'']"

text \<open>What the YAML package promises of a tree: a mapping has a value for every key.\<close>

fun pairs_ok :: "ynode \<Rightarrow> bool" where
  "pairs_ok (YNode k tag val content) \<longleftrightarrow> (k = YMapping \<longrightarrow> even (length content)) \<and> list_all pairs_ok content"

lemma hasPrefix_iff: "hasPrefix s p \<longleftrightarrow> (\<exists>r. s = p @ r)"
  unfolding hasPrefix_def by (metis append_eq_conv_conj append_take_drop_id)

definition plain_error :: "string \<Rightarrow> gerror \<Rightarrow> bool" where
  "plain_error path e \<longleftrightarrow> (\<exists>p m. e = FieldError [] p m \<and> m \<in> set decode_messages \<and> (path \<noteq> [] \<longrightarrow> hasPrefix p path))"

lemma plain_fail [simp]: "m \<in> set decode_messages \<Longrightarrow> plain_error path (decode_fail path m)"
  by (simp add: plain_error_def decode_fail_def invalid_def hasPrefix_def)

lemma plain_child: "plain_error (child_path path key) e \<Longrightarrow> plain_error path e"
  by (auto simp: plain_error_def child_path_def hasPrefix_iff split: if_splits)

lemma plain_index: "plain_error (indexed path i) e \<Longrightarrow> plain_error path e"
  by (auto simp: plain_error_def indexed_def hasPrefix_iff)

lemma plain_invalid: "m \<in> set decode_messages \<Longrightarrow> plain_error path (invalid (child_path path key) m)"
  by (rule plain_child[of _ key]) (simp add: plain_error_def invalid_def hasPrefix_def)

lemma messages [simp]:
  "''aliases and null values are not supported'' \<in> set decode_messages" "''expected a duration string'' \<in> set decode_messages"
  "''invalid duration'' \<in> set decode_messages" "''expected a mapping'' \<in> set decode_messages"
  "''expected string field names; YAML merges are not supported'' \<in> set decode_messages" "''duplicate field'' \<in> set decode_messages"
  "''unknown field'' \<in> set decode_messages" "''expected a sequence'' \<in> set decode_messages" "''invalid scalar type'' \<in> set decode_messages"
  "''invalid scalar value'' \<in> set decode_messages" "''expected one valid YAML document'' \<in> set decode_messages"
  "''expected exactly one YAML document'' \<in> set decode_messages"
  by (simp_all add: decode_messages_def)

lemma decode_plain:
  "pairs_ok n \<Longrightarrow> decodeNode env n t v path = Inl e \<Longrightarrow> plain_error path e"
  "list_all pairs_ok ns \<Longrightarrow> even (length ns) \<Longrightarrow> decode_fields env ns tags ts vs path seen = Inl e \<Longrightarrow> plain_error path e"
  "list_all pairs_ok ns \<Longrightarrow> even (length ns) \<Longrightarrow> decode_entries env ns t' m path seen = Inl e \<Longrightarrow> plain_error path e"
  "list_all pairs_ok ns \<Longrightarrow> decode_items env ns t' path i = Inl e \<Longrightarrow> plain_error path e"
proof (induction env n t v path and env ns tags ts vs path seen and env ns t' m path seen and env ns t' path i
    arbitrary: e and e and e and e rule: decodeNode_decode_fields_decode_entries_decode_items.induct)
  case (1 env n t v path)
  show ?case
  proof (cases "y_Kind n = YAlias \<or> y_Tag n = ''!!null''")
    case True
    then show ?thesis using 1(6) by (auto simp: decodeNode.simps[of env n t v path])
  next
    case live: False
    have ok: "list_all pairs_ok (y_Content n)" "y_Kind n = YMapping \<Longrightarrow> even (length (y_Content n))"
      using 1(5) by (cases n; simp)+
    note dec = 1(6)[unfolded decodeNode.simps[of env n t v path] if_not_P[OF live]]
    have scalar: "decode_scalar env n t path = Inl e \<Longrightarrow> plain_error path e"
      by (auto simp: decode_scalar_def split: if_splits option.splits)
    show ?thesis
    proof (cases t)
      case (TPtr t')
      then show ?thesis using dec 1(1)[OF live TPtr 1(5)] by (auto split: sum.splits)
    next
      case TDuration
      then show ?thesis using dec by (auto simp: decode_duration_def split: if_splits option.splits)
    next
      case (TStruct name tags ts)
      then show ?thesis using dec 1(2)[OF live TStruct] ok by (auto split: sum.splits if_splits)
    next
      case (TMap t')
      then show ?thesis using dec 1(3)[OF live TMap] ok by (auto split: sum.splits if_splits)
    next
      case (TSlice t')
      then show ?thesis using dec 1(4)[OF live TSlice] ok by (auto split: sum.splits if_splits)
    qed (use dec scalar in auto)
  qed
next
  case (4 env key val rest tags ts vs path seen)
  consider "y_Tag key \<noteq> ''!!str'' \<or> y_Value key \<in> set seen \<or> field_index tags (y_Value key) = None"
    | (found) i where "y_Tag key = ''!!str''" "y_Value key \<notin> set seen" "field_index tags (y_Value key) = Some i"
    by (cases "field_index tags (y_Value key)") auto
  then show ?case
  proof cases
    case 1
    then show ?thesis using 4(5) by (auto simp: Let_def plain_invalid split: if_splits option.splits)
  next
    case (found i)
    have run: "(case decodeNode env val (ts ! i) (vs ! i) (child_path path (y_Value key)) of
        Inl e \<Rightarrow> Inl e | Inr w \<Rightarrow> decode_fields env rest tags ts (vs[i := w]) path (y_Value key # seen)) = Inl e"
      using 4(5) found by (simp add: Let_def)
    show ?thesis
    proof (cases "decodeNode env val (ts ! i) (vs ! i) (child_path path (y_Value key))")
      case (Inl e')
      then show ?thesis using 4(1)[OF _ refl _ found(3)] found(1,2) 4(3) run plain_child by (auto simp: list_all_iff)
    next
      case (Inr w)
      then show ?thesis using 4(2)[OF _ refl _ found(3) Inr] found(1,2) 4(3,4) run by auto
    qed
  qed
next
  case (7 env key val rest t m path seen)
  show ?case
  proof (cases "y_Tag key \<noteq> ''!!str'' \<or> y_Value key \<in> set seen")
    case True
    then show ?thesis using 7(5) by (auto simp: Let_def plain_invalid split: if_splits)
  next
    case False
    have run: "(case decodeNode env val t (zero_val t) (child_path path (y_Value key)) of
        Inl e \<Rightarrow> Inl e | Inr w \<Rightarrow> decode_entries env rest t (gm_put (y_Value key) w m) path (y_Value key # seen)) = Inl e"
      using 7(5) False by (simp add: Let_def)
    show ?thesis
    proof (cases "decodeNode env val t (zero_val t) (child_path path (y_Value key))")
      case (Inl e')
      then show ?thesis using 7(1)[OF _ refl] False 7(3) run plain_child by (auto simp: list_all_iff)
    next
      case (Inr w)
      then show ?thesis using 7(2)[OF _ refl _ Inr] False 7(3,4) run by auto
    qed
  qed
next
  case (9 env n ns t path i)
  show ?case
  proof (cases "decodeNode env n t (zero_val t) (indexed path i)")
    case (Inl e')
    then show ?thesis using 9(1) 9(3,4) plain_index by auto
  next
    case (Inr w)
    then show ?thesis using 9(2)[OF Inr] 9(3,4) by (auto split: sum.splits)
  qed
qed auto

section \<open>Numbers in paths\<close>

lemma digits_value_append: "digits_value a (xs @ ys) = digits_value (digits_value a xs) ys"
  by (induction xs arbitrary: a) auto

lemma chr_code_digit: "d < 10 \<Longrightarrow> chr_code (char_of (48 + d)) = 48 + d"
  by (simp add: chr_code_def)

lemma itoa_nat_value: "digits_value 0 (itoa_nat n) = n"
proof (induction n rule: itoa_nat.induct)
  case (1 n)
  show ?case
    by (subst itoa_nat.simps) (use 1 in \<open>auto simp: digits_value_append chr_code_digit\<close>)
qed

lemma itoa_nat_digits: "c \<in> set (itoa_nat n) \<Longrightarrow> is_digit c"
proof (induction n rule: itoa_nat.induct)
  case (1 n)
  then show ?case
    by (subst (asm) (2) itoa_nat.simps)
      (auto simp: is_digit_def chr_code_digit split: if_splits)
qed

lemma itoa_nat_inj: "itoa_nat m = itoa_nat n \<longleftrightarrow> m = n"
  by (metis itoa_nat_value)

text \<open>The index of a proxy can be read off a path.\<close>

lemma indexed_prefix:
  assumes "hasPrefix (indexed name i @ rest) (indexed name j @ tail)"
  shows "i = j"
proof -
  obtain r where "itoa_nat i @ '']'' @ rest = itoa_nat j @ '']'' @ tail @ r"
    using assms by (auto simp: hasPrefix_iff indexed_def)
  moreover have "takeWhile (\<lambda>c. c \<noteq> CHR '']'') (itoa_nat k @ '']'' @ x) = itoa_nat k" for k x
  proof -
    have "CHR '']'' \<notin> set (itoa_nat k)" using itoa_nat_digits[of "CHR '']''" k] by (auto simp: is_digit_def chr_code_def)
    then show ?thesis by (subst takeWhile_append2) auto
  qed
  ultimately show ?thesis by (metis itoa_nat_inj)
qed

section \<open>The checks of finish\<close>

lemma check_rule_ids_iff:
  "check_rule_ids src j seen rs = Inr () \<longleftrightarrow> distinct (map r_ID rs) \<and> r_ID ` set rs \<inter> fst ` set seen = {}"
proof (induction rs arbitrary: j seen)
  case (Cons r rs)
  show ?case
  proof (cases "map_of seen (r_ID r)")
    case None
    then have "check_rule_ids src j seen (r # rs) = check_rule_ids src (Suc j) ((r_ID r, j) # seen) rs" by simp
    moreover have "r_ID r \<notin> fst ` set seen" using None by (simp add: map_of_eq_None_iff)
    ultimately show ?thesis using Cons[of "Suc j" "(r_ID r, j) # seen"] by auto
  next
    case (Some x)
    then show ?thesis by (force dest: map_of_SomeD)
  qed
qed simp

lemma check_sources_Inr:
  assumes "check_sources ids pss = Inr ps"
  shows "distinct (map (p_ID \<circ> fst) pss) \<and> (p_ID \<circ> fst) ` set pss \<inter> fst ` set ids = {}
    \<and> list_all (\<lambda>(p, s). distinct (map r_ID (p_Rules p))) pss \<and> ps = map (\<lambda>(p, s). resolve_proxy (src_file s) p) pss"
  using assms
proof (induction pss arbitrary: ids ps)
  case (Cons a pss)
  obtain p s where a: "a = (p, s)" by (cases a)
  obtain qs where q: "map_of ids (p_ID p) = None" "check_rule_ids s 0 [] (p_Rules p) = Inr ()"
    "check_sources ((p_ID p, s) # ids) pss = Inr qs" "ps = resolve_proxy (src_file s) p # qs"
    using Cons.prems by (auto simp: a split: option.splits sum.splits)
  have "p_ID p \<notin> fst ` set ids" using q(1) by (simp add: map_of_eq_None_iff)
  then show ?case using Cons.IH[OF q(3)] q(2,4) by (simp add: a check_rule_ids_iff Int_insert_right split: if_splits)
qed simp

lemma validate_proxy_names:
  assumes "validate_proxy env base path listeners dg p0 = Inr (p', dg')"
  shows "p_ID p' = p_ID p0 \<and> p_Protocol p' = p_Protocol p0 \<and> map r_ID (p_Rules p') = map r_ID (p_Rules p0)"
  using assms
proof (rule validate_proxy_Inr)
  fix listen p4
  assume u: "upstream_step env base path dg ((default_upstream_protocol p0)\<lparr>p_Listen := listen\<rparr>) = Inr (p4, dg')"
    and r: "validate_rules (p_Protocol p4) path 0 (p_Rules p4) = Inr (p_Rules p')" and p': "p' = p4\<lparr>p_Rules := p_Rules p'\<rparr>"
  have d: "p_ID (default_upstream_protocol p0) = p_ID p0" "p_Rules (default_upstream_protocol p0) = p_Rules p0"
    "p_Protocol (default_upstream_protocol p0) = p_Protocol p0"
    by (simp_all add: default_upstream_protocol_def)
  have p4: "p_ID p4 = p_ID p0 \<and> p_Rules p4 = p_Rules p0 \<and> p_Protocol p4 = p_Protocol p0"
    using upstream_step_Inr[OF u] d by auto
  have "r_ID (norm_rule_of pr x) = r_ID x" for pr x
    by (simp add: norm_rule_of_def norm_commit_rule_def norm_tcp_rule_def norm_rule_def Let_def)
  then have "map r_ID (p_Rules p') = map r_ID (p_Rules p4)" using r by (simp add: validate_rules_iff comp_def)
  moreover have "p_ID p' = p_ID p4" "p_Protocol p' = p_Protocol p4" using p' by (metis proxy.select_convs(1) proxy.surjective proxy.update_convs(8), metis proxy.select_convs(2) proxy.surjective proxy.update_convs(8))
  ultimately show ?thesis using p4 by simp
qed

lemma validate_names:
  assumes "validate env c base = Inr (c', dg)"
  shows "map (\<lambda>p. (p_ID p, p_Protocol p, map r_ID (p_Rules p))) (c_Proxies c')
    = map (\<lambda>p. (p_ID p, p_Protocol p, map r_ID (p_Rules p))) (c_Proxies c)"
proof -
  have "validate_proxies env base i listeners dg0 ps = Inr (ps', dg') \<Longrightarrow>
      map (\<lambda>p. (p_ID p, p_Protocol p, map r_ID (p_Rules p))) ps' = map (\<lambda>p. (p_ID p, p_Protocol p, map r_ID (p_Rules p))) ps"
    for i listeners dg0 ps ps' dg'
    by (induction ps arbitrary: i listeners dg0 ps') (auto split: sum.splits dest!: validate_proxy_names)
  then show ?thesis using assms by (fastforce simp: validate_def split: if_splits sum.splits)
qed

text \<open>What every loaded document satisfies.\<close>

definition loaded_ok :: "'h document \<Rightarrow> bool" where
  "loaded_ok doc \<longleftrightarrow> d_valid doc \<and> config_ok (d_config doc) \<and> distinct (map p_ID (c_Proxies (d_config doc)))
     \<and> list_all (\<lambda>p. distinct (map r_ID (p_Rules p))) (c_Proxies (d_config doc))"

lemma finish_sound:
  assumes "finish env c sources base = Inr doc" "length sources = length (c_Proxies c)"
  shows "loaded_ok doc"
proof -
  obtain ps c' dg where ps: "check_sources [] (zip (c_Proxies c) sources) = Inr ps"
    and v: "validate (le_host env) (c\<lparr>c_Proxies := ps\<rparr>) (path_dir base) = Inr (c', dg)" and d: "newDocument (le_hash env) c' dg = Inr doc"
    using assms(1) by (auto simp: finish_def split: sum.splits prod.splits gerror.splits)
  let ?names = "\<lambda>p. (p_ID p, p_Protocol p, map r_ID (p_Rules p))"
  let ?z = "zip (c_Proxies c) sources"
  have fsts: "map fst ?z = c_Proxies c" using assms(2) by simp
  have chk: "distinct (map (p_ID \<circ> fst) ?z)" "list_all (\<lambda>(p, s). distinct (map r_ID (p_Rules p))) ?z"
    "ps = map (\<lambda>(p, s). resolve_proxy (src_file s) p) ?z"
    using check_sources_Inr[OF ps] by auto
  have "map ?names ps = map ?names (map fst ?z)" by (auto simp: chk(3) resolve_proxy_def)
  then have names: "map ?names (c_Proxies c') = map ?names (map fst ?z)" using validate_names[OF v] by simp
  have ids: "map p_ID (c_Proxies c') = map (p_ID \<circ> fst) ?z"
    using arg_cong[OF names, of "map fst"] by (simp add: comp_def)
  have "map (map r_ID \<circ> p_Rules) (c_Proxies c') = map (\<lambda>x. map r_ID (p_Rules (fst x))) ?z"
    using arg_cong[OF names, of "map (snd \<circ> snd)"] by (simp add: comp_def)
  then have "list_all distinct (map (map r_ID \<circ> p_Rules) (c_Proxies c'))"
    using chk(2) by (simp add: list_all_iff case_prod_unfold)
  then have "list_all (\<lambda>p. distinct (map r_ID (p_Rules p))) (c_Proxies c')" by (simp add: list_all_iff)
  then show ?thesis
    using validate_config_ok[OF v] d ids chk(1) by (simp add: loaded_ok_def newDocument_Inr)
qed

section \<open>Loading\<close>

lemma proxySources_length [simp]: "length (proxySources file n) = n"
  by (simp add: proxySources_def)

lemma proxySources_files: "src \<in> set (proxySources file n) \<Longrightarrow> src_file src = file"
  by (auto simp: proxySources_def)

text \<open>
  What the loop over the includes keeps: every proxy has a source, proxies are only added, no file is
  read twice, and the sources are the files seen.
\<close>

definition loading :: "loaded \<Rightarrow> bool" where
  "loading st = (case st of (ps, srcs, seen) \<Rightarrow> length srcs = length ps \<and> distinct (map snd seen)
     \<and> src_file ` set srcs \<subseteq> fst ` set seen)"

definition matched :: "'h load_env \<Rightarrow> string \<Rightarrow> bool" where
  "matched env file \<longleftrightarrow> (\<exists>pattern fs. le_glob env pattern = Some fs \<and> file \<in> set fs)"

definition grown :: "'h load_env \<Rightarrow> loaded \<Rightarrow> loaded \<Rightarrow> bool" where
  "grown env st st' = (case (st, st') of ((ps, srcs, seen), (ps', srcs', seen')) \<Rightarrow>
     (\<exists>qs. ps' = ps @ qs) \<and> fst ` set seen' \<subseteq> fst ` set seen \<union> {f. matched env f})"

lemma grown_refl: "grown env st st"
  by (simp add: grown_def split: prod.splits)

lemma grown_trans:
  assumes "grown env a b" "grown env b c"
  shows "grown env a c"
proof -
  obtain p1 s1 n1 p2 s2 n2 p3 s3 n3 where s: "a = (p1, s1, n1)" "b = (p2, s2, n2)" "c = (p3, s3, n3)" by (metis prod.collapse)
  obtain q1 q2 where "p2 = p1 @ q1" "p3 = p2 @ q2" using assms by (auto simp: s grown_def)
  moreover have "fst ` set n3 \<subseteq> fst ` set n1 \<union> {f. matched env f}" using assms unfolding s grown_def by (simp, blast)
  ultimately show ?thesis unfolding s grown_def by simp
qed

lemma include_file_loading:
  assumes "include_file env base field file st = Inr st'" "loading st" "matched env file"
  shows "loading st' \<and> grown env st st'"
proof -
  obtain ps srcs seen where st: "st = (ps, srcs, seen)" by (cases st)
  obtain ident fragment where f: "find (\<lambda>previous. snd previous = ident) seen = None"
    "st' = (ps @ fragment, srcs @ proxySources file (length fragment), seen @ [(file, ident)])"
    using assms(1) by (auto simp: include_file_def st Let_def split: option.splits if_splits sum.splits prod.splits)
  have "ident \<notin> set (map snd seen)" using f(1) by (auto simp: find_None_iff)
  then show ?thesis
    using assms(2,3) f(2) proxySources_files[of _ "file"] by (auto simp: st loading_def grown_def)
qed

lemma include_files_loading:
  assumes "include_files env base field files st = Inr st'" "loading st" "\<forall>f \<in> set files. matched env f"
  shows "loading st' \<and> grown env st st'"
  using assms
proof (induction files arbitrary: st)
  case (Cons a files)
  then obtain st1 where s: "include_file env base field a st = Inr st1" "include_files env base field files st1 = Inr st'"
    by (auto split: sum.splits)
  then show ?case
    using include_file_loading[OF s(1) Cons.prems(2)] Cons.IH[OF s(2)] Cons.prems(3) grown_trans[of env st st1 st'] by simp
qed (simp add: grown_refl)

lemma include_patterns_loading:
  assumes "include_patterns env base i patterns st = Inr st'" "loading st"
  shows "loading st' \<and> grown env st st'"
  using assms
proof (induction patterns arbitrary: i st)
  case (Cons pattern patterns)
  obtain full fs st1 where s: "le_glob env full = Some fs" "include_files env base (indexed ''include'' i) fs st = Inr st1"
    "include_patterns env base (Suc i) patterns st1 = Inr st'"
    using Cons.prems(1) by (auto simp: Let_def split: if_splits sum.splits option.splits)
  have "\<forall>f \<in> set fs. matched env f" using s(1) by (auto simp: matched_def)
  then show ?case
    using include_files_loading[OF s(2) Cons.prems(2)] Cons.IH[OF s(3)] grown_trans[of env st st1 st'] by simp
qed (simp add: grown_refl)

lemma Parse_sound:
  assumes "Parse env data filename = Inr doc"
  shows "loaded_ok doc"
proof -
  obtain c base where "finish env c (proxySources base (length (c_Proxies c))) base = Inr doc"
    using assms by (auto simp: Parse_def Let_def split: if_splits option.splits sum.splits)
  then show ?thesis by (rule finish_sound) simp
qed

lemma Load_Inr:
  assumes "Load env filename = Inr doc"
  obtains base c st where "le_abs env filename = Some base" "loading st" "finish env (c\<lparr>c_Proxies := fst st\<rparr>) (fst (snd st)) base = Inr doc"
proof -
  obtain base ident data v st where l: "le_abs env filename = Some base" "e_readFile (le_host env) base = Some data"
    "decodeDocument (le_decode env) data root_type (default_start root_type) = Inr v"
    "include_patterns env base 0 (val_list val_string (val_field v 4))
       (c_Proxies (config_of v), proxySources base (length (c_Proxies (config_of v))), [(base, ident)]) = Inr st"
    "finish env ((config_of v)\<lparr>c_Proxies := fst st\<rparr>) (fst (snd st)) base = Inr doc"
    using assms by (fastforce simp: Load_def Let_def split: if_splits option.splits sum.splits prod.splits)
  have "loading (c_Proxies (config_of v), proxySources base (length (c_Proxies (config_of v))), [(base, ident)])"
    using proxySources_files[of _ base] by (auto simp: loading_def)
  then show thesis using that[OF l(1) _ l(5)] include_patterns_loading[OF l(4)] by blast
qed

lemma Load_sound: "Load env filename = Inr doc \<Longrightarrow> loaded_ok doc"
  by (erule Load_Inr, erule finish_sound) (auto simp: loading_def split: prod.splits)

section \<open>Where errors are\<close>

lemma locate_error_index:
  assumes "j < length sources"
  shows "locate_error sources i base (indexed ''proxies'' (i + j) @ ''.'' @ rest) message
    = FieldError (src_file (sources ! j)) (src_path (sources ! j) @ ''.'' @ rest) message"
  using assms
proof (induction sources arbitrary: i j)
  case (Cons src sources)
  show ?case
  proof (cases j)
    case 0
    then show ?thesis by (simp add: hasPrefix_def trimPrefix_def)
  next
    case (Suc k)
    have "\<not> hasPrefix (indexed ''proxies'' (i + j) @ ''.'' @ rest) (indexed ''proxies'' i @ ''.'')"
      using indexed_prefix[of "''proxies''" "i + j" "''.'' @ rest" i "''.''"] Suc by auto
    then show ?thesis using Cons.IH[of k "Suc i"] Cons.prems Suc by (simp add: Let_def)
  qed
qed simp

lemma locate_error_file:
  "\<exists>f p. locate_error sources i base path message = FieldError f p message \<and> (f = base \<or> f \<in> src_file ` set sources)"
proof (induction sources arbitrary: i)
  case (Cons src sources)
  obtain f p where "locate_error sources (Suc i) base path message = FieldError f p message" "f = base \<or> f \<in> src_file ` set sources"
    using Cons[of "Suc i"] by blast
  then show ?case by (auto simp: Let_def)
qed simp

lemma check_sources_file:
  assumes "check_sources ids pss = Inl (FieldError f p m)"
  shows "f \<in> src_file ` set (map snd pss)"
proof -
  have "check_rule_ids src j seen rs = Inl (FieldError f p m) \<Longrightarrow> f = src_file src" for src j seen rs
    by (induction rs arbitrary: j seen) (auto simp: sourceError_def invalid_def split: option.splits)
  then show ?thesis
    using assms by (induction pss arbitrary: ids)
      (fastforce simp: sourceError_def invalid_def split: option.splits sum.splits)+
qed

text \<open>The fingerprint does not fail with an error that names a field.\<close>

definition hash_plain :: "'h hasher \<Rightarrow> bool" where
  "hash_plain hash \<longleftrightarrow> (\<forall>c d f p m. hash c d \<noteq> Inl (FieldError f p m))"

lemma finish_file:
  assumes "finish env c sources base = Inl (FieldError f p m)" "length sources = length (c_Proxies c)" "hash_plain (le_hash env)"
  shows "f = base \<or> f \<in> src_file ` set sources"
proof -
  have "newDocument (le_hash env) c' dg \<noteq> Inl (FieldError f p m)" for c' dg
    using assms(3) by (auto simp: newDocument_def hash_plain_def split: sum.splits)
  then consider "check_sources [] (zip (c_Proxies c) sources) = Inl (FieldError f p m)"
    | path message where "locate_error sources 0 base path message = FieldError f p m"
    using assms(1) by (fastforce simp: finish_def split: sum.splits prod.splits gerror.splits)
  then show ?thesis
  proof cases
    case 1
    then show ?thesis using check_sources_file[OF 1] assms(2) by simp
  next
    case (2 path message)
    then show ?thesis using locate_error_file[of sources 0 base path message] by auto
  qed
qed

lemma include_file_file:
  assumes "include_file env base field file st = Inl (FieldError f p m)"
  shows "f = base \<or> f = file"
  using assms
  by (auto simp: include_file_def sourceError_def invalid_def Let_def
      split: option.splits if_splits sum.splits prod.splits gerror.splits)

lemma include_files_file:
  assumes "include_files env base field files st = Inl (FieldError f p m)"
  shows "f = base \<or> f \<in> set files"
  using assms by (induction files arbitrary: st) (auto split: sum.splits dest: include_file_file)

lemma include_patterns_file:
  assumes "include_patterns env base i patterns st = Inl (FieldError f p m)"
  shows "f = base \<or> matched env f"
  using assms
  by (induction patterns arbitrary: i st)
    (auto simp: sourceError_def invalid_def Let_def matched_def split: option.splits if_splits sum.splits dest!: include_files_file)

lemma Load_file:
  assumes "Load env filename = Inl (FieldError f p m)" "filename \<noteq> []" "le_abs env filename = Some base" "hash_plain (le_hash env)"
  shows "f = base \<or> matched env f"
proof -
  consider "f = base" | ident v where
      "include_patterns env base 0 (val_list val_string (val_field v 4))
       (c_Proxies (config_of v), proxySources base (length (c_Proxies (config_of v))), [(base, ident)]) = Inl (FieldError f p m)"
    | ident v st where "include_patterns env base 0 (val_list val_string (val_field v 4))
       (c_Proxies (config_of v), proxySources base (length (c_Proxies (config_of v))), [(base, ident)]) = Inr st"
      "finish env ((config_of v)\<lparr>c_Proxies := fst st\<rparr>) (fst (snd st)) base = Inl (FieldError f p m)"
    using assms(1-3)
    by (fastforce simp: Load_def Let_def sourceError_def invalid_def split: if_splits option.splits sum.splits prod.splits gerror.splits)
  then show ?thesis
  proof cases
    case 2
    then show ?thesis by (rule include_patterns_file)
  next
    case (3 ident v st)
    have "loading (c_Proxies (config_of v), proxySources base (length (c_Proxies (config_of v))), [(base, ident)])"
      using proxySources_files[of _ base] by (auto simp: loading_def)
    with include_patterns_loading[OF 3(1)] have "loading st"
      "grown env (c_Proxies (config_of v), proxySources base (length (c_Proxies (config_of v))), [(base, ident)]) st" by blast+
    then have len: "length (fst (snd st)) = length (fst st)" and "src_file ` set (fst (snd st)) \<subseteq> fst ` set (snd (snd st))"
      "fst ` set (snd (snd st)) \<subseteq> insert base {g. matched env g}"
      by (cases st, auto simp: loading_def grown_def)+
    then have "src_file ` set (fst (snd st)) \<subseteq> insert base {g. matched env g}" by (simp only: subset_trans)
    then show ?thesis using finish_file[OF 3(2) _ assms(4)] len by auto
  qed simp
qed

section \<open>A sample file\<close>

definition y_str :: "string \<Rightarrow> ynode" where
  "y_str s = YNode YScalar ''!!str'' s []"

definition demo_tree :: ynode where
  "demo_tree = YNode YMapping ''!!map'' [] [y_str ''api_version'', y_str APIVersion, y_str ''proxies'',
     YNode YSequence ''!!seq'' [] [YNode YMapping ''!!map'' []
       [y_str ''id'', y_str ''api'', y_str ''protocol'', y_str ''http1'', y_str ''listen'', y_str '':8080'',
        y_str ''upstream'', y_str ''https://api.test:443'']]]"

text \<open>One document, whose scalars are strings.\<close>

definition demo_decode :: decode_env where
  "demo_decode = \<lparr>de_yaml = (\<lambda>data i. if i = 0 then Inr (YNode YDocument [] [] [demo_tree]) else Inl EOF),
     de_scalar = (\<lambda>t n. if t = TString then Some (VString (y_Value n)) else None),
     de_parseDuration = (\<lambda>s. None)\<rparr>"

definition demo_load :: "(config \<times> digests) load_env" where
  "demo_load = \<lparr>le_decode = demo_decode, le_host = demo_env\<lparr>e_readFile := (\<lambda>n. Some [])\<rparr>, le_abs = (\<lambda>n. Some (''/etc/'' @ n)),
     le_stat = (\<lambda>n. Some (0, True)), le_glob = (\<lambda>p. None), le_hash = (\<lambda>c d. Inr (c, d))\<rparr>"

lemma demo_decodes:
  "decodeDocument demo_decode data config_type (default_start config_type) = Inr (VStruct [VString APIVersion, VUint 0,
     VStruct [VInt 1000, VDuration 30000000000],
     VSlice [VStruct [VString ''api'', VString ''http1'', VString [], VString '':8080'', VString ''https://api.test:443'',
       VPtr None, VPtr None, VSlice []]]])"
  by (simp add: decodeDocument_def demo_decode_def demo_tree_def config_type_def default_start_def runtime_type_def proxy_type_def
      decodeNode.simps y_str_def struct_start_def decode_scalar_def scalar_tag_def child_path_def DefaultRuntime_def indexed_def)

lemma demo_decode_typed: "scalars_typed demo_decode"
  by (auto simp: scalars_typed_def demo_decode_def has_type.intros)

lemma demo_parses: "\<exists>doc. Parse demo_load [] ''f.yaml'' = Inr doc"
  by (simp add: Parse_def demo_load_def demo_decodes config_of_def runtime_of_def proxy_of_def finish_def proxySources_def
      newDocument_def resolve_proxy_def eval_simps demo_env_def)

lemma demo_loads: "\<exists>doc. Load demo_load ''f.yaml'' = Inr doc"
proof -
  have "decodeDocument demo_decode [] root_type (default_start root_type) = Inr (VStruct [VString APIVersion, VUint 0,
     VStruct [VInt 1000, VDuration 30000000000],
     VSlice [VStruct [VString ''api'', VString ''http1'', VString [], VString '':8080'', VString ''https://api.test:443'',
       VPtr None, VPtr None, VSlice []]], VSlice []])"
    by (simp add: decodeDocument_def demo_decode_def demo_tree_def root_type_def default_start_def runtime_type_def proxy_type_def
        decodeNode.simps y_str_def struct_start_def decode_scalar_def scalar_tag_def child_path_def DefaultRuntime_def indexed_def)
  then show ?thesis
    by (simp add: Load_def demo_load_def config_of_def runtime_of_def proxy_of_def finish_def proxySources_def
        newDocument_def resolve_proxy_def eval_simps demo_env_def)
qed

section \<open>The properties of loading\<close>

lemma has_type_struct: "has_type (TStruct name tags ts) (VStruct vs) \<longleftrightarrow> list_all2 has_type ts vs"
  by (auto simp: has_type_simps list_all2_conv_all_nth)



text \<open>C6. Every document that \<open>Load\<close> or \<open>Parse\<close> returns, from whatever files, is well-formed: its configuration
  satisfies the invariant that the engine, the control service and the proxies rely on, and the
  identifiers of its proxies, and of the rules of each proxy, are distinct.\<close>

theorem load_sound:
  assumes "Load env filename = Inr doc \<or> Parse env data filename = Inr doc"
  shows "d_valid doc \<and> config_ok (d_config doc) \<and> distinct (map p_ID (c_Proxies (d_config doc)))
    \<and> list_all (\<lambda>p. distinct (map r_ID (p_Rules p))) (c_Proxies (d_config doc))"
  using assms Load_sound Parse_sound by (metis loaded_ok_def)

theorem load_sound_witness: "\<exists>doc. Load demo_load ''f.yaml'' = Inr doc \<and> config_ok (d_config doc)"
  using demo_loads load_sound by blast



end
