(* ===== verification/Wire.thy ===== *)
theory Wire
  imports Golib
begin

text \<open>
  What the two database protocols share at the level of bytes: the loop that writes a buffer to a
  connection (\<open>writeAll\<close> of \<open>src/internal/proxy/postgresql/wire.go\<close>, written out again in
  \<open>writePacket\<close> of \<open>src/internal/proxy/mysql/wire.go\<close>), and the interface of a message format that
  is read from a stream: \<open>codec\<close>. The formats of both protocols interpret it.
\<close>

section \<open>Writing a buffer\<close>

text \<open>
  \<open>writeAll w i b\<close> runs the loop from the \<open>i\<close>-th call of \<open>Write\<close> on. The result has the bytes the
  connection took, the number of the next call, and the error, if any. A writer that claims more
  bytes than it was given makes the slice expression panic.
\<close>

function writeAll :: "writer \<Rightarrow> nat \<Rightarrow> bytes \<Rightarrow> bytes \<times> nat \<times> gerror option" where
  "writeAll w i b =
     (if b = [] then ([], i, None)
      else let (n, err) = w i b in
       if err \<noteq> None then (take n b, Suc i, err)
       else if n = 0 then ([], Suc i, Some ShortWrite)
       else if length b < n then (b, Suc i, Some (Panic ''slice bounds out of range''))
       else let (sent, j, e) = writeAll w (Suc i) (drop n b) in (take n b @ sent, j, e))"
  by pat_completeness auto
termination by (relation "measure (\<lambda>(w, i, b). length b)") auto

declare writeAll.simps [simp del]

text \<open>What is sent is a prefix of the buffer, and all of it when no error is returned.\<close>

lemma writeAll_prefix:
  assumes "writeAll w i b = (sent, j, e)"
  shows "\<exists>rest. b = sent @ rest \<and> (e = None \<longrightarrow> rest = [])"
  using assms
proof (induction w i b arbitrary: sent j e rule: writeAll.induct)
  case (1 w i b)
  show ?case
  proof (cases "b = []")
    case True
    with 1(2) show ?thesis by (simp add: writeAll.simps)
  next
    case False
    obtain n err where w: "w i b = (n, err)" by (cases "w i b")
    show ?thesis
    proof (cases "err = None \<and> n \<noteq> 0 \<and> n \<le> length b")
      case True
      obtain s1 j1 e1 where r: "writeAll w (Suc i) (drop n b) = (s1, j1, e1)"
        by (cases "writeAll w (Suc i) (drop n b)") auto
      from 1(1)[OF False w[symmetric] refl _ _ _ r] True
      obtain rest where "drop n b = s1 @ rest" "e1 = None \<longrightarrow> rest = []" by auto
      moreover have "sent = take n b @ s1" "e = e1"
        using 1(2) False w True r by (simp_all add: writeAll.simps[of w i b])
      ultimately show ?thesis by (metis append.assoc append_take_drop_id)
    next
      case wrong: False
      then show ?thesis
        using 1(2) False w
        by (auto simp: writeAll.simps[of w i b] split: if_splits intro: exI[of _ "drop n b"])
    qed
  qed
qed

text \<open>A writer that takes part of what it is given at every call sends everything.\<close>

lemma writeAll_complete:
  assumes "\<And>i b. b \<noteq> [] \<Longrightarrow> snd (w i b) = None \<and> 0 < fst (w i b) \<and> fst (w i b) \<le> length b"
  shows "fst (writeAll w i b) = b \<and> snd (snd (writeAll w i b)) = None"
proof (induction b arbitrary: i rule: length_induct)
  case (1 b)
  show ?case
  proof (cases "b = []")
    case False
    obtain n where w: "w i b = (n, None)" and n: "0 < n" "n \<le> length b"
      using assms[OF False, of i] by (cases "w i b") auto
    obtain s j e where r: "writeAll w (Suc i) (drop n b) = (s, j, e)"
      by (cases "writeAll w (Suc i) (drop n b)") auto
    have "length (drop n b) < length b" using n False by simp
    with 1 r have "s = drop n b" "e = None" by (metis fst_conv snd_conv)+
    then show ?thesis
      using False w n r by (simp add: writeAll.simps[of w i b])
  qed (simp add: writeAll.simps)
qed

section \<open>The interface of a message format\<close>

text \<open>
  \<open>encode\<close> gives the bytes of a message, \<open>decode\<close> takes one message off a reader, and \<open>valid\<close> are
  the messages the format can carry. The laws: a message that was encoded is read back and the
  rest of the stream is left alone; whatever is read was the encoding of a valid message.
\<close>

fun read_n :: "(reader \<Rightarrow> ('m \<times> reader) result) \<Rightarrow> nat \<Rightarrow> reader \<Rightarrow> ('m list \<times> reader) result" where
  "read_n decode 0 r = Inr ([], r)"
| "read_n decode (Suc n) r = (case decode r of
      Inl err \<Rightarrow> Inl err
    | Inr (m, r') \<Rightarrow> (case read_n decode n r' of
        Inl err \<Rightarrow> Inl err
      | Inr (ms, r'') \<Rightarrow> Inr (m # ms, r'')))"

locale codec =
  fixes encode :: "'m \<Rightarrow> bytes" and decode :: "reader \<Rightarrow> ('m \<times> reader) result"
    and valid :: "'m \<Rightarrow> bool"
  assumes decode_encode: "valid m \<Longrightarrow> decode (encode m @ rest, e) = Inr (m, rest, e)"
    and decode_sound: "decode (bs, e) = Inr (m, bs', e') \<Longrightarrow> valid m \<and> bs = encode m @ bs' \<and> e' = e"
begin

lemma encode_prefix_free:
  assumes "valid m" "valid m'" "encode m @ xs = encode m' @ ys"
  shows "m = m' \<and> xs = ys"
proof -
  have "decode (encode m @ xs, EOF) = decode (encode m' @ ys, EOF)" by (simp only: assms(3))
  then show ?thesis by (simp add: decode_encode assms(1,2))
qed

lemma read_stream:
  assumes "list_all valid ms"
  shows "read_n decode (length ms) (concat (map encode ms) @ rest, e) = Inr (ms, rest, e)"
  using assms by (induction ms) (simp_all add: decode_encode)

lemma read_stream_sound:
  assumes "read_n decode n (bs, e) = Inr (ms, bs', e')"
  shows "list_all valid ms \<and> length ms = n \<and> bs = concat (map encode ms) @ bs' \<and> e' = e"
  using assms
proof (induction n arbitrary: bs ms e)
  case (Suc n)
  then obtain m b1 e1 ms1 where d: "decode (bs, e) = Inr (m, b1, e1)"
    and r: "read_n decode n (b1, e1) = Inr (ms1, bs', e')" "ms = m # ms1"
    by (auto split: sum.splits)
  from decode_sound[OF d] Suc.IH[OF r(1)] r(2) show ?case by auto
qed auto

lemma truncated_fails:
  assumes "valid m" "encode m = bs @ cs" "cs \<noteq> []"
  shows "\<exists>err. decode (bs, e) = Inl err"
proof (rule ccontr)
  assume "\<nexists>err. decode (bs, e) = Inl err"
  then obtain m' b' e' where d: "decode (bs, e) = Inr (m', b', e')"
    by (cases "decode (bs, e)") auto
  from decode_sound[OF d] have v: "valid m'" "bs = encode m' @ b'" by auto
  then have "encode m @ [] = encode m' @ (b' @ cs)" using assms(2) by simp
  from encode_prefix_free[OF assms(1) v(1) this] assms(3) show False by simp
qed

end

end
