(* ===== verification/Engine.thy ===== *)
theory Engine
  imports Config
begin

text \<open>
  The decision engine of \<open>src/internal/engine/engine.go\<close>: which rule of a proxy a request falls
  under, and whether the fault of that rule is injected. A rule state carries its counters and its
  own PCG generator, so what a rule selects depends on the seed, the names of proxy and rule and
  the number of requests the rule was eligible for, and on nothing else.

  \<open>Decide\<close> locks one rule state, after a search that reads only the immutable rules; the model
  performs it as one step, and every interleaving of concurrent calls is a sequence of such steps.
\<close>

section \<open>State\<close>

record metadata =
  md_Method :: string
  md_Service :: string
  md_Path :: string
  md_Headers :: "string list gomap"

record decision =
  de_ProxyID :: string
  de_RuleID :: string
  de_EligibleSequence :: u64
  de_Selected :: bool
  de_Selector :: selector
  de_Fault :: fault

record counters =
  cn_Eligible :: u64
  cn_Selected :: u64

record rule_state =
  rs_rule :: rule
  rs_counters :: counters
  rs_random :: pcg

type_synonym engine = "string \<rightharpoonup> rule_state list"

definition zero_counters :: counters where
  "zero_counters = \<lparr>cn_Eligible = 0, cn_Selected = 0\<rparr>"

definition zero_decision :: "string \<Rightarrow> decision" where
  "zero_decision proxyID = \<lparr>de_ProxyID = proxyID, de_RuleID = [], de_EligibleSequence = 0,
     de_Selected = False, de_Selector = zero_selector, de_Fault = zero_fault\<rparr>"

section \<open>Matching\<close>

function matchesPathPattern :: "string \<Rightarrow> string \<Rightarrow> bool" where
  "matchesPathPattern pattern path =
     (let (want, restPattern, morePattern) = cut (CHR ''/'') pattern;
          (got, restPath, morePath) = cut (CHR ''/'') path
      in if hasPrefix want '':'' \<and> got = [] then False
         else if \<not> hasPrefix want '':'' \<and> want \<noteq> got then False
         else if morePattern \<noteq> morePath then False
         else if \<not> morePattern then True
         else matchesPathPattern restPattern restPath)"
  by pat_completeness auto
termination
  by (relation "measure (\<lambda>(pattern, path). length pattern)")
    (auto simp: cut_def length_tl_dropWhile_less simp del: length_tl)

declare matchesPathPattern.simps [simp del]

definition header_found :: "metadata \<Rightarrow> string \<Rightarrow> string \<Rightarrow> bool" where
  "header_found md name expected \<longleftrightarrow>
     list_ex (\<lambda>(actual, values). equalFold name actual \<and> expected \<in> set values) (md_Headers md)"

definition matches :: "matcher \<Rightarrow> metadata \<Rightarrow> bool" where
  "matches m md =
     (let path = fst (cut (CHR ''?'') (md_Path md))
      in if m_Service m \<noteq> [] \<and> m_Service m \<noteq> md_Service md then False
         else if m_Method m \<noteq> [] \<and> m_Method m \<noteq> md_Method md \<or> m_Path m \<noteq> [] \<and> m_Path m \<noteq> path
         then False
         else if m_PathPattern m \<noteq> [] \<and> \<not> matchesPathPattern (m_PathPattern m) path then False
         else list_all (\<lambda>(name, expected). header_found md name expected) (headers_of m))"

section \<open>Selection\<close>

text \<open>
  The selector is read in the order of the \<open>switch\<close>; a missing probability is a nil dereference
  and an \<open>every\<close> of zero a division by zero, both of which panic.
\<close>

definition selectAttempt :: "rule_state \<Rightarrow> u64 \<Rightarrow> (bool \<times> pcg) result" where
  "selectAttempt r sequence =
     (let s = r_Select (rs_rule r) in
      case s_Nth s of
        Some n \<Rightarrow> Inr (sequence = n, rs_random r)
      | None \<Rightarrow>
         (case s_Every s of
            Some n \<Rightarrow> if n = 0 then Inl (Panic ''integer divide by zero'')
                      else Inr (sequence mod n = 0, rs_random r)
          | None \<Rightarrow>
             (case s_Probability s of
                None \<Rightarrow> Inl (Panic ''nil pointer dereference'')
              | Some p \<Rightarrow>
                  if fl_eq0 p then Inr (False, rs_random r)
                  else if p = Fin 1 then Inr (True, rs_random r)
                  else let (x, q) = pcg_Float64 (rs_random r) in Inr (fl_less x p, q))))"

text \<open>The critical section of \<open>Decide\<close>: the new state, the sequence number and the outcome.\<close>

definition attempt :: "rule_state \<Rightarrow> (rule_state \<times> u64 \<times> bool) result" where
  "attempt state =
     (let sequence = cn_Eligible (rs_counters state) + 1 in
      case selectAttempt state sequence of
        Inl err \<Rightarrow> Inl err
      | Inr (selected, random) \<Rightarrow>
          Inr (state\<lparr>rs_counters :=
                 \<lparr>cn_Eligible = sequence,
                  cn_Selected = (if selected then cn_Selected (rs_counters state) + 1
                                 else cn_Selected (rs_counters state))\<rparr>,
                 rs_random := random\<rparr>, sequence, selected))"

section \<open>The operations\<close>

definition string_bytes :: "string \<Rightarrow> bytes" where
  "string_bytes s = map of_char s"

definition seed_bytes :: "u64 \<Rightarrow> string \<Rightarrow> string \<Rightarrow> bytes" where
  "seed_bytes seed proxyID ruleID = put_le64 seed @ string_bytes proxyID @ [0] @ string_bytes ruleID"

definition new_state :: "(bytes \<Rightarrow> bytes) \<Rightarrow> u64 \<Rightarrow> string \<Rightarrow> rule \<Rightarrow> rule_state" where
  "new_state sha256 seed proxyID r =
     (let hash = sha256 (seed_bytes seed proxyID (r_ID r))
      in \<lparr>rs_rule = r, rs_counters = zero_counters,
          rs_random = \<lparr>pcg_hi = le64 (take 8 hash), pcg_lo = le64 (take 8 (drop 8 hash))\<rparr>\<rparr>)"

definition New :: "(bytes \<Rightarrow> bytes) \<Rightarrow> 'h document option \<Rightarrow> engine result" where
  "New sha256 d = (case d of
      Some doc \<Rightarrow>
        if \<not> Valid d then Inl (Err ''engine: validated config is required'')
        else let c = d_config doc
             in Inr (fold (\<lambda>p e. e(p_ID p \<mapsto> map (new_state sha256 (c_Seed c) (p_ID p)) (p_Rules p)))
                       (c_Proxies c) Map.empty)
    | None \<Rightarrow> Inl (Err ''engine: validated config is required''))"

text \<open>The loop of \<open>Decide\<close> over the rules, with the state that was hit, if any.\<close>

fun decide_rules ::
    "metadata \<Rightarrow> rule_state list \<Rightarrow> (rule_state list \<times> (rule_state \<times> u64 \<times> bool) option) result" where
  "decide_rules md [] = Inr ([], None)"
| "decide_rules md (state # rest) =
     (if \<not> r_Enabled (rs_rule state) \<or> \<not> matches (r_Match (rs_rule state)) md
      then (case decide_rules md rest of
              Inl err \<Rightarrow> Inl err
            | Inr (rest', hit) \<Rightarrow> Inr (state # rest', hit))
      else (case attempt state of
              Inl err \<Rightarrow> Inl err
            | Inr (state', sequence, selected) \<Rightarrow>
                Inr (state' # rest, Some (state', sequence, selected))))"

definition Decide ::
    "engine \<Rightarrow> string \<Rightarrow> metadata \<Rightarrow> bool \<Rightarrow> (engine \<times> decision \<times> gerror option) result" where
  "Decide e proxyID md enabled =
     (case e proxyID of
        None \<Rightarrow> Inr (e, zero_decision proxyID, Some (Err ''engine: unknown proxy''))
      | Some states \<Rightarrow>
          if \<not> enabled then Inr (e, zero_decision proxyID, None)
          else case decide_rules md states of
            Inl err \<Rightarrow> Inl err
          | Inr (states', None) \<Rightarrow> Inr (e(proxyID \<mapsto> states'), zero_decision proxyID, None)
          | Inr (states', Some (state, sequence, selected)) \<Rightarrow>
              Inr (e(proxyID \<mapsto> states'),
                   \<lparr>de_ProxyID = proxyID, de_RuleID = r_ID (rs_rule state),
                    de_EligibleSequence = sequence, de_Selected = selected,
                    de_Selector = r_Select (rs_rule state), de_Fault = r_Fault (rs_rule state)\<rparr>, None))"

definition Counters :: "engine \<Rightarrow> string \<Rightarrow> string \<Rightarrow> counters \<times> bool" where
  "Counters e proxyID ruleID =
     (case find (\<lambda>s. r_ID (rs_rule s) = ruleID) (case e proxyID of None \<Rightarrow> [] | Some ss \<Rightarrow> ss) of
        None \<Rightarrow> (zero_counters, False)
      | Some s \<Rightarrow> (rs_counters s, True))"

end
