(* ===== verification/Control.thy ===== *)
theory Control
  imports Engine
begin

text \<open>
  The control service of \<open>src/internal/control/service.go\<close>: the active snapshot, the switch for
  injection, and the publication of new revisions, with an optional persistence hook. Revisions
  are shared by reference between the service and the snapshots that flows hold, so they live in a
  heap; a snapshot carries the address of its revision. The state of the persistence (\<open>'p\<close>) is
  threaded through, because the hook changes it.
\<close>

section \<open>State\<close>

record info =
  in_RunID :: string
  in_Revision :: u64
  in_Enabled :: bool
  in_ControlSequence :: u64
  in_AppliedAt :: instant
  in_StateChangedAt :: instant

record 'h revision =
  rv_document :: "'h document"
  rv_engine :: engine

record snapshot =
  sn_info :: info
  sn_revision :: nat

record ctl_result =
  re_Changed :: bool
  re_Info :: info

type_synonym ('h, 'p) persist = "'h document \<Rightarrow> ctl_result \<Rightarrow> 'p \<Rightarrow> gerror option \<times> 'p"

record ('h, 'p) service =
  sv_active :: snapshot
  sv_persist :: "('h, 'p) persist option"
  sv_heap :: "nat \<rightharpoonup> 'h revision"
  sv_next :: nat
  sv_store :: 'p

section \<open>Snapshots\<close>

text \<open>
  A decision on a snapshot changes the engine its revision points to, and nothing else. A snapshot
  of an address that is not allocated is a nil dereference.
\<close>

definition snapshot_Decide ::
    "snapshot \<Rightarrow> string \<Rightarrow> metadata \<Rightarrow> ('h, 'p) service
      \<Rightarrow> (('h, 'p) service \<times> decision \<times> gerror option) result" where
  "snapshot_Decide s proxyID md sv =
     (case sv_heap sv (sn_revision s) of
        None \<Rightarrow> Inl (Panic ''nil pointer dereference'')
      | Some rv \<Rightarrow>
          (case Decide (rv_engine rv) proxyID md (in_Enabled (sn_info s)) of
             Inl err \<Rightarrow> Inl err
           | Inr (e, d, err) \<Rightarrow>
               Inr (sv\<lparr>sv_heap := (sv_heap sv)(sn_revision s \<mapsto> rv\<lparr>rv_engine := e\<rparr>)\<rparr>, d, err)))"

definition snapshot_Counters ::
    "snapshot \<Rightarrow> string \<Rightarrow> string \<Rightarrow> ('h, 'p) service \<Rightarrow> (counters \<times> bool) result" where
  "snapshot_Counters s proxyID ruleID sv =
     (case sv_heap sv (sn_revision s) of
        None \<Rightarrow> Inl (Panic ''nil pointer dereference'')
      | Some rv \<Rightarrow> Inr (Counters (rv_engine rv) proxyID ruleID))"

definition snapshot_Config :: "snapshot \<Rightarrow> ('h, 'p) service \<Rightarrow> config result" where
  "snapshot_Config s sv =
     (case sv_heap sv (sn_revision s) of
        None \<Rightarrow> Inl (Panic ''nil pointer dereference'')
      | Some rv \<Rightarrow> Inr (d_config (rv_document rv)))"

section \<open>The service\<close>

definition control_New ::
    "(bytes \<Rightarrow> bytes) \<Rightarrow> string \<Rightarrow> instant \<Rightarrow> 'p \<Rightarrow> 'h document option \<Rightarrow> ('h, 'p) service result" where
  "control_New sha256 runID now store d =
     (case New sha256 d of
        Inl err \<Rightarrow> Inl err
      | Inr evaluator \<Rightarrow>
          Inr \<lparr>sv_active = \<lparr>sn_info = \<lparr>in_RunID = runID, in_Revision = 1, in_Enabled = False,
                 in_ControlSequence = 0, in_AppliedAt = now, in_StateChangedAt = now\<rparr>, sn_revision = 0\<rparr>,
               sv_persist = None,
               sv_heap = [0 \<mapsto> \<lparr>rv_document = the d, rv_engine = evaluator\<rparr>],
               sv_next = 1, sv_store = store\<rparr>)"

definition Acquire :: "('h, 'p) service \<Rightarrow> snapshot" where
  "Acquire sv = sv_active sv"

definition SetEnabled :: "bool \<Rightarrow> instant \<Rightarrow> ('h, 'p) service \<Rightarrow> ('h, 'p) service \<times> ctl_result" where
  "SetEnabled enabled now sv =
     (let i = sn_info (sv_active sv) in
      if in_Enabled i = enabled then (sv, \<lparr>re_Changed = False, re_Info = i\<rparr>)
      else let i' = i\<lparr>in_Enabled := enabled, in_ControlSequence := in_ControlSequence i + 1,
                       in_StateChangedAt := now\<rparr>
           in (sv\<lparr>sv_active := (sv_active sv)\<lparr>sn_info := i'\<rparr>\<rparr>, \<lparr>re_Changed = True, re_Info = i'\<rparr>))"

definition NewManaged ::
    "(bytes \<Rightarrow> bytes) \<Rightarrow> string \<Rightarrow> instant \<Rightarrow> 'p \<Rightarrow> 'h document option \<Rightarrow> u64
      \<Rightarrow> ('h, 'p) persist option \<Rightarrow> ('h, 'p) service result" where
  "NewManaged sha256 runID now store d revision persist =
     (case control_New sha256 runID now store d of
        Inl err \<Rightarrow> Inl err
      | Inr s \<Rightarrow>
          if revision = 0 \<or> persist = None
          then Inl (Err ''control: revision and persistence required'')
          else Inr (s\<lparr>sv_active := (sv_active s)\<lparr>sn_info := (sn_info (sv_active s))\<lparr>in_Revision := revision\<rparr>\<rparr>,
                      sv_persist := persist\<rparr>))"

text \<open>The call of the hook, which does nothing when there is none.\<close>

definition run_persist ::
    "'h document \<Rightarrow> ctl_result \<Rightarrow> ('h, 'p) service \<Rightarrow> gerror option \<times> ('h, 'p) service" where
  "run_persist doc r sv =
     (case sv_persist sv of
        None \<Rightarrow> (None, sv)
      | Some f \<Rightarrow> (case f doc r (sv_store sv) of (err, p) \<Rightarrow> (err, sv\<lparr>sv_store := p\<rparr>)))"

definition apply_document ::
    "(bytes \<Rightarrow> bytes) \<Rightarrow> instant \<Rightarrow> 'h document option \<Rightarrow> u64 option \<Rightarrow> ('h, 'p) service
      \<Rightarrow> ('h, 'p) service \<times> ctl_result result" where
  "apply_document sha256 now d expected sv =
     (if \<not> Valid d then (sv, Inl (Err ''control: validated config is required''))
      else let i = sn_info (sv_active sv); doc = the d in
       if expected \<noteq> None \<and> the expected \<noteq> in_Revision i then (sv, Inl ErrConflict)
       else case sv_heap sv (sn_revision (sv_active sv)) of
         None \<Rightarrow> (sv, Inl (Panic ''nil pointer dereference''))
       | Some rv \<Rightarrow>
          if \<not> RestartCompatible (Some (rv_document rv)) d
          then (sv, Inl (Err ''control: proxies, listeners, upstreams, TLS and runtime limits require restart''))
          else if Equal (Some (rv_document rv)) d
          then let r = \<lparr>re_Changed = False, re_Info = i\<rparr> in
               (case run_persist doc r sv of
                  (Some err, sv') \<Rightarrow> (sv', Inl err)
                | (None, sv') \<Rightarrow> (sv', Inr r))
          else case New sha256 d of
            Inl err \<Rightarrow> (sv, Inl err)
          | Inr evaluator \<Rightarrow>
              let i' = i\<lparr>in_Revision := in_Revision i + 1,
                         in_ControlSequence := in_ControlSequence i + 1, in_AppliedAt := now\<rparr>;
                  r = \<lparr>re_Changed = True, re_Info = i'\<rparr> in
              (case run_persist doc r sv of
                 (Some err, sv') \<Rightarrow> (sv', Inl err)
               | (None, sv') \<Rightarrow>
                   (sv'\<lparr>sv_heap := (sv_heap sv')(sv_next sv' \<mapsto> \<lparr>rv_document = doc, rv_engine = evaluator\<rparr>),
                        sv_active := \<lparr>sn_info = i', sn_revision = sv_next sv'\<rparr>,
                        sv_next := sv_next sv' + 1\<rparr>, Inr r)))"

definition Apply ::
    "(bytes \<Rightarrow> bytes) \<Rightarrow> instant \<Rightarrow> 'h document option \<Rightarrow> ('h, 'p) service
      \<Rightarrow> ('h, 'p) service \<times> ctl_result result" where
  "Apply sha256 now d sv =
     (if sv_persist sv \<noteq> None
      then (sv, Inl (Err ''control: managed config requires revision precondition''))
      else apply_document sha256 now d None sv)"

definition ApplyRevision ::
    "(bytes \<Rightarrow> bytes) \<Rightarrow> instant \<Rightarrow> 'h document option \<Rightarrow> u64 \<Rightarrow> ('h, 'p) service
      \<Rightarrow> ('h, 'p) service \<times> ctl_result result" where
  "ApplyRevision sha256 now d expected sv = apply_document sha256 now d (Some expected) sv"

text \<open>
  \<open>Reload\<close> and \<open>ReloadFile\<close> apply what the configuration loader returns, or return its error.
\<close>

definition reload_document ::
    "(bytes \<Rightarrow> bytes) \<Rightarrow> instant \<Rightarrow> 'h document result \<Rightarrow> ('h, 'p) service
      \<Rightarrow> ('h, 'p) service \<times> ctl_result result" where
  "reload_document sha256 now loaded sv =
     (case loaded of Inl err \<Rightarrow> (sv, Inl err) | Inr doc \<Rightarrow> Apply sha256 now (Some doc) sv)"

end
