(* ===== verification/Recorder.thy ===== *)
theory Recorder
  imports Control "HOL-Library.Sublist"
begin

text \<open>
  The event recorder of \<open>src/internal/recorder/recorder.go\<close>: the run counters, the bounded table of
  outcomes, the bounded queue, and the goroutine that writes the queue to a sink. Callers, the
  writer and \<open>Close\<close> run concurrently; each action below is what one of them does between two
  points where another can come in (under the mutex, or a receive from the queue), and a run of the
  recorder is any sequence of them.
\<close>

section \<open>Events and counters\<close>

record rec_counters =
  rc_Total :: u64
  rc_Eligible :: u64
  rc_Selected :: u64
  rc_Applied :: u64
  rc_Active :: u64
  rc_ActiveFaults :: u64
  rc_Dropped :: u64
  rc_WriteErrors :: u64
  rc_Written :: u64
  rc_Pending :: u64

record event =
  ev_Info :: info
  ev_Type :: string
  ev_Time :: instant
  ev_FlowID :: string
  ev_ProxyID :: string
  ev_Protocol :: string
  ev_StartedAt :: instant
  ev_FinishedAt :: instant
  ev_RuleID :: string
  ev_EligibleSequence :: u64
  ev_Selector :: string
  ev_Probability :: "float64 option"
  ev_Nth :: "u64 option"
  ev_Every :: "u64 option"
  ev_Selected :: bool
  ev_Reached :: bool
  ev_Applied :: bool
  ev_NotReached :: bool
  ev_Phase :: string
  ev_Action :: string
  ev_Outcome :: string
  ev_ErrorKind :: string
  ev_CommitConfirmed :: bool
  ev_GRPCStatus :: string
  ev_UpstreamStatus :: int
  ev_Operation :: string
  ev_ClientBytes :: int
  ev_UpstreamBytes :: int
  ev_Changed :: bool
  ev_Counters :: "rec_counters option"

definition zero_rec_counters :: rec_counters where
  "zero_rec_counters = \<lparr>rc_Total = 0, rc_Eligible = 0, rc_Selected = 0, rc_Applied = 0, rc_Active = 0,
     rc_ActiveFaults = 0, rc_Dropped = 0, rc_WriteErrors = 0, rc_Written = 0, rc_Pending = 0\<rparr>"

text \<open>An event with its embedded \<open>Info\<close> and type; the zero instant stands for an unset time.\<close>

definition new_event :: "info \<Rightarrow> string \<Rightarrow> event" where
  "new_event i typ = \<lparr>ev_Info = i, ev_Type = typ, ev_Time = 0, ev_FlowID = [], ev_ProxyID = [],
     ev_Protocol = [], ev_StartedAt = 0, ev_FinishedAt = 0, ev_RuleID = [], ev_EligibleSequence = 0,
     ev_Selector = [], ev_Probability = None, ev_Nth = None, ev_Every = None, ev_Selected = False,
     ev_Reached = False, ev_Applied = False, ev_NotReached = False, ev_Phase = [], ev_Action = [],
     ev_Outcome = [], ev_ErrorKind = [], ev_CommitConfirmed = False, ev_GRPCStatus = [],
     ev_UpstreamStatus = 0, ev_Operation = [], ev_ClientBytes = 0, ev_UpstreamBytes = 0,
     ev_Changed = False, ev_Counters = None\<rparr>"

section \<open>The recorder\<close>

text \<open>
  The writer waits for the queue, encodes an event it has taken, or has ended (\<open>done\<close> is closed).
  \<open>rr_output\<close> are the events that were encoded without an error.
\<close>

datatype rec_writer = Waiting | Encoding event | Ended

record recorder =
  rr_counts :: rec_counters
  rr_outcomes :: "u64 gomap"
  rr_queue :: "event list"
  rr_capacity :: nat
  rr_closed :: bool
  rr_aborted :: bool
  rr_writer :: rec_writer
  rr_output :: "event list"

definition recorder_New :: "nat \<Rightarrow> recorder" where
  "recorder_New capacity = \<lparr>rr_counts = zero_rec_counters, rr_outcomes = [], rr_queue = [],
     rr_capacity = capacity, rr_closed = False, rr_aborted = False, rr_writer = Waiting, rr_output = []\<rparr>"

text \<open>The \<open>switch\<close> of \<open>Record\<close> on the type of the event, for the counters and for the outcomes.\<close>

definition record_counts :: "event \<Rightarrow> rec_counters \<Rightarrow> rec_counters" where
  "record_counts e c =
     (if ev_Type e = ''flow_started'' then
        c\<lparr>rc_Total := rc_Total c + 1, rc_Active := rc_Active c + 1\<rparr>
      else if ev_Type e = ''decision'' then
        c\<lparr>rc_Eligible := (if ev_RuleID e \<noteq> [] then rc_Eligible c + 1 else rc_Eligible c),
          rc_Selected := (if ev_Selected e then rc_Selected c + 1 else rc_Selected c)\<rparr>
      else if ev_Type e = ''fault_applied'' then
        c\<lparr>rc_Applied := rc_Applied c + 1, rc_ActiveFaults := rc_ActiveFaults c + 1\<rparr>
      else if ev_Type e = ''flow_finished'' then
        c\<lparr>rc_Active := rc_Active c - 1,
          rc_ActiveFaults := (if ev_Applied e then rc_ActiveFaults c - 1 else rc_ActiveFaults c)\<rparr>
      else c)"

definition record_outcomes :: "event \<Rightarrow> u64 gomap \<Rightarrow> u64 gomap" where
  "record_outcomes e m =
     (if ev_Type e = ''flow_finished'' \<and> (map_of m (ev_Outcome e) \<noteq> None \<or> length m < 32)
      then gm_put (ev_Outcome e) ((case map_of m (ev_Outcome e) of None \<Rightarrow> 0 | Some n \<Rightarrow> n) + 1) m
      else m)"

definition stamp :: "instant \<Rightarrow> event \<Rightarrow> event" where
  "stamp now e = (if ev_Time e = 0 then e\<lparr>ev_Time := now\<rparr> else e)"

definition Record :: "instant \<Rightarrow> event \<Rightarrow> recorder \<Rightarrow> recorder" where
  "Record now e r =
     (let c = record_counts e (rr_counts r);
          r1 = r\<lparr>rr_outcomes := record_outcomes e (rr_outcomes r)\<rparr>
      in if \<not> rr_closed r \<and> length (rr_queue r) < rr_capacity r
         then r1\<lparr>rr_queue := rr_queue r @ [stamp now e], rr_counts := c\<lparr>rc_Pending := rc_Pending c + 1\<rparr>\<rparr>
         else r1\<lparr>rr_counts := c\<lparr>rc_Dropped := rc_Dropped c + 1\<rparr>\<rparr>)"

text \<open>A nil recorder ignores what it is told, and has no counters and no outcomes.\<close>

definition Record_nil :: "instant \<Rightarrow> event \<Rightarrow> recorder option \<Rightarrow> recorder option" where
  "Record_nil now e r = map_option (Record now e) r"

definition recorder_Counters :: "recorder option \<Rightarrow> rec_counters" where
  "recorder_Counters r = (case r of None \<Rightarrow> zero_rec_counters | Some x \<Rightarrow> rr_counts x)"

definition Outcomes :: "recorder option \<Rightarrow> u64 gomap" where
  "Outcomes r = (case r of None \<Rightarrow> [] | Some x \<Rightarrow> rr_outcomes x)"

text \<open>The end of an iteration of the writer: the result of encoding the event it holds.\<close>

definition encode_done :: "gerror option \<Rightarrow> event \<Rightarrow> recorder \<Rightarrow> recorder" where
  "encode_done err e r =
     (let c = (rr_counts r)\<lparr>rc_Pending := rc_Pending (rr_counts r) - 1\<rparr>
      in if err \<noteq> None
         then r\<lparr>rr_writer := Waiting, rr_counts := c\<lparr>rc_Dropped := rc_Dropped c + 1,
                  rc_WriteErrors := rc_WriteErrors c + 1\<rparr>\<rparr>
         else r\<lparr>rr_writer := Waiting, rr_output := rr_output r @ [e],
                rr_counts := c\<lparr>rc_Written := rc_Written c + 1\<rparr>\<rparr>)"

text \<open>What \<open>Close\<close> returns when the writer has ended before the context was cancelled.\<close>

definition close_result :: "recorder \<Rightarrow> gerror option" where
  "close_result r = (if rc_Pending (rr_counts r) \<noteq> 0
     then Some (Err ''recorder stopped with unflushed events'') else None)"

section \<open>Runs\<close>

datatype rec_action =
    ARecord instant event
  | ATake
  | AEncode "gerror option"
  | AEnd
  | AClose
  | AAbort

inductive rec_step :: "recorder \<Rightarrow> rec_action \<Rightarrow> recorder \<Rightarrow> bool" where
  record_call: "rec_step r (ARecord now e) (Record now e r)"
| take_event: "\<lbrakk>rr_writer r = Waiting; rr_queue r = e # q; \<not> rr_aborted r\<rbrakk>
    \<Longrightarrow> rec_step r ATake (r\<lparr>rr_queue := q, rr_writer := Encoding e\<rparr>)"
| take_aborted: "\<lbrakk>rr_writer r = Waiting; rr_queue r = e # q; rr_aborted r\<rbrakk>
    \<Longrightarrow> rec_step r ATake (r\<lparr>rr_queue := q, rr_writer := Ended\<rparr>)"
| encode_event: "rr_writer r = Encoding e \<Longrightarrow> rec_step r (AEncode err) (encode_done err e r)"
| queue_closed: "\<lbrakk>rr_writer r = Waiting; rr_queue r = []; rr_closed r\<rbrakk>
    \<Longrightarrow> rec_step r AEnd (r\<lparr>rr_writer := Ended\<rparr>)"
| close_queue: "rec_step r AClose (r\<lparr>rr_closed := True\<rparr>)"
| abort_writer: "rr_closed r \<Longrightarrow> rec_step r AAbort (r\<lparr>rr_aborted := True\<rparr>)"

inductive rec_run :: "recorder \<Rightarrow> rec_action list \<Rightarrow> recorder \<Rightarrow> bool" where
  run_none: "rec_run r [] r"
| run_snoc: "\<lbrakk>rec_run r as r'; rec_step r' a r''\<rbrakk> \<Longrightarrow> rec_run r (as @ [a]) r''"

inductive_cases rec_stepE: "rec_step r a r'"

section \<open>Accounting\<close>

text \<open>The events handed to \<open>Record\<close> in a run, with their time; and the event the writer holds.\<close>

fun recorded :: "rec_action list \<Rightarrow> event list" where
  "recorded [] = []"
| "recorded (a # as) = (case a of ARecord now e \<Rightarrow> stamp now e # recorded as | _ \<Rightarrow> recorded as)"

lemma recorded_append [simp]: "recorded (as @ bs) = recorded as @ recorded bs"
  by (induction as) (auto split: rec_action.splits)

definition held :: "recorder \<Rightarrow> event list" where
  "held r = (case rr_writer r of Encoding e \<Rightarrow> [e] | _ \<Rightarrow> [])"

lemma held_simps [simp]:
  "rr_writer r = Waiting \<Longrightarrow> held r = []" "rr_writer r = Ended \<Longrightarrow> held r = []"
  "rr_writer r = Encoding e \<Longrightarrow> held r = [e]"
  by (simp_all add: held_def)

lemma record_counts_fields [simp]:
  "rc_Pending (record_counts e c) = rc_Pending c" "rc_Written (record_counts e c) = rc_Written c"
  "rc_Dropped (record_counts e c) = rc_Dropped c" "rc_WriteErrors (record_counts e c) = rc_WriteErrors c"
  by (simp_all add: record_counts_def)

lemma Record_fields [simp]:
  "rr_writer (Record now e r) = rr_writer r" "rr_output (Record now e r) = rr_output r"
  "rr_closed (Record now e r) = rr_closed r" "rr_aborted (Record now e r) = rr_aborted r"
  "rr_capacity (Record now e r) = rr_capacity r"
  "rr_outcomes (Record now e r) = record_outcomes e (rr_outcomes r)"
  by (simp_all add: Record_def Let_def)

lemma held_Record [simp]: "held (Record now e r) = held r"
  by (simp add: held_def)

text \<open>
  The invariant of a run: nothing is lost without being counted, nothing is invented, duplicated or
  reordered, and the number of pending events is what the queue and the writer hold, plus one event
  that an aborted writer may have taken and dropped.
\<close>

definition rec_inv :: "rec_action list \<Rightarrow> recorder \<Rightarrow> bool" where
  "rec_inv as r \<longleftrightarrow>
     length (rr_queue r) \<le> rr_capacity r
     \<and> subseq (rr_output r @ held r @ rr_queue r) (recorded as)
     \<and> rc_Written (rr_counts r) + rc_Dropped (rr_counts r) + rc_Pending (rr_counts r)
         = of_nat (length (recorded as))
     \<and> rc_Written (rr_counts r) = of_nat (length (rr_output r))
     \<and> (\<exists>lost \<le> 1. rc_Pending (rr_counts r) = of_nat (length (held r) + length (rr_queue r) + lost)
         \<and> (lost = 1 \<longrightarrow> rr_writer r = Ended \<and> rr_aborted r))
     \<and> (rr_writer r = Ended \<longrightarrow> rr_closed r \<and> (rr_queue r = [] \<or> rr_aborted r))
     \<and> (rr_aborted r \<longrightarrow> rr_closed r)"

lemma subseq_drop_mid: "subseq (xs @ y # ys) zs \<Longrightarrow> subseq (xs @ ys) zs"
proof -
  have "subseq (xs @ ys) (xs @ y # ys)"
    by (rule list_emb_append_mono) (auto intro: list_emb_Cons)
  then show "subseq (xs @ y # ys) zs \<Longrightarrow> subseq (xs @ ys) zs" by (rule subseq_order.order_trans)
qed

lemma subseq_snoc:
  assumes "subseq xs ys"
  shows "subseq (xs @ [x]) (ys @ [x])" "subseq xs (ys @ [x])"
  using list_emb_append_mono[OF assms, of "[x]" "[x]"] list_emb_append_mono[OF assms, of "[]" "[x]"] by simp_all

lemma rec_inv_pending:
  assumes "rec_inv as r" "rr_writer r \<noteq> Ended"
  shows "rc_Pending (rr_counts r) = of_nat (length (held r) + length (rr_queue r))"
proof -
  obtain lost where l: "lost \<le> (1::nat)" "lost = 1 \<longrightarrow> rr_writer r = Ended"
    "rc_Pending (rr_counts r) = of_nat (length (held r) + length (rr_queue r) + lost)"
    using assms(1) by (auto simp: rec_inv_def)
  then have "lost = 0" using assms(2) by auto
  with l(3) show ?thesis by simp
qed

lemma rec_step_inv:
  assumes "rec_step r a r'" "rec_inv as r"
  shows "rec_inv (as @ [a]) r'"
  using assms(1)
proof cases
  case (record_call now e)
  have inv: "subseq (rr_output r @ held r @ rr_queue r) (recorded as)" using assms(2) by (simp add: rec_inv_def)
  note s = subseq_snoc[OF this, of "stamp now e"]
  have h: "held (r\<lparr>rr_outcomes := o', rr_queue := q, rr_counts := c\<rparr>) = held r"
    "held (r\<lparr>rr_outcomes := o', rr_counts := c\<rparr>) = held r" for o' q c by (simp_all add: held_def)
  show ?thesis
    using assms(2) s unfolding rec_inv_def record_call
    by (auto simp: Record_def Let_def h algebra_simps)
next
  case (take_event e q)
  then show ?thesis using assms(2) by (auto simp: rec_inv_def)
next
  case (take_aborted e q)
  then have "rc_Pending (rr_counts r) = 1 + of_nat (length q)"
    using rec_inv_pending[OF assms(2)] by simp
  moreover have "rec_inv as r" by (rule assms(2))
  ultimately show ?thesis
    using take_aborted by (auto simp: rec_inv_def intro!: exI[of _ "1::nat"] dest: subseq_drop_mid)
next
  case (encode_event e err)
  then show ?thesis
    using assms(2) by (auto simp: rec_inv_def encode_done_def Let_def algebra_simps dest: subseq_drop_mid)
next
  case queue_closed
  then show ?thesis using assms(2) by (auto simp: rec_inv_def)
next
  case close_queue
  then show ?thesis using assms(2) by (auto simp: rec_inv_def held_def)
next
  case abort_writer
  then show ?thesis using assms(2) by (auto simp: rec_inv_def held_def)
qed

lemma rec_run_inv: "rec_run (recorder_New cap) as r \<Longrightarrow> rec_inv as r"
proof (induction "recorder_New cap" as r rule: rec_run.induct)
  case run_none
  show ?case
    by (auto simp: rec_inv_def recorder_New_def zero_rec_counters_def held_def intro: exI[of _ "0::nat"])
next
  case (run_snoc as r' a r'')
  then show ?case by (blast intro: rec_step_inv)
qed

section \<open>Run totals\<close>

text \<open>How many of the events handed to \<open>Record\<close> satisfy a condition, as a 64-bit counter.\<close>

definition tally :: "(event \<Rightarrow> bool) \<Rightarrow> event list \<Rightarrow> u64" where
  "tally P es = of_nat (length (filter P es))"

lemma tally_simps [simp]: "tally P [] = 0" "tally P (es @ [e]) = tally P es + (if P e then 1 else 0)"
  by (simp_all add: tally_def)

lemma stamp_fields [simp]:
  "ev_Type (stamp now e) = ev_Type e" "ev_RuleID (stamp now e) = ev_RuleID e"
  "ev_Selected (stamp now e) = ev_Selected e" "ev_Applied (stamp now e) = ev_Applied e"
  "ev_Outcome (stamp now e) = ev_Outcome e"
  by (simp_all add: stamp_def)

definition totals_ok :: "event list \<Rightarrow> rec_counters \<Rightarrow> bool" where
  "totals_ok es c \<longleftrightarrow>
     rc_Total c = tally (\<lambda>e. ev_Type e = ''flow_started'') es
     \<and> rc_Active c = tally (\<lambda>e. ev_Type e = ''flow_started'') es - tally (\<lambda>e. ev_Type e = ''flow_finished'') es
     \<and> rc_Eligible c = tally (\<lambda>e. ev_Type e = ''decision'' \<and> ev_RuleID e \<noteq> []) es
     \<and> rc_Selected c = tally (\<lambda>e. ev_Type e = ''decision'' \<and> ev_Selected e) es
     \<and> rc_Applied c = tally (\<lambda>e. ev_Type e = ''fault_applied'') es
     \<and> rc_ActiveFaults c = tally (\<lambda>e. ev_Type e = ''fault_applied'') es
         - tally (\<lambda>e. ev_Type e = ''flow_finished'' \<and> ev_Applied e) es"

lemma totals_ok_record:
  assumes "totals_ok es c"
  shows "totals_ok (es @ [stamp now e]) (record_counts e c)"
proof -
  consider "ev_Type e = ''flow_started''" | "ev_Type e = ''decision''" | "ev_Type e = ''fault_applied''"
    | "ev_Type e = ''flow_finished''" | "ev_Type e \<notin> {''flow_started'', ''decision'', ''fault_applied'', ''flow_finished''}"
    by auto
  then show ?thesis
    using assms by cases (simp_all add: totals_ok_def record_counts_def)
qed

lemma totals_ok_queue [simp]:
  "totals_ok es (c\<lparr>rc_Pending := n\<rparr>) = totals_ok es c" "totals_ok es (c\<lparr>rc_Dropped := n\<rparr>) = totals_ok es c"
  "totals_ok es (c\<lparr>rc_Written := n\<rparr>) = totals_ok es c" "totals_ok es (c\<lparr>rc_WriteErrors := n\<rparr>) = totals_ok es c"
  by (simp_all add: totals_ok_def)

definition outcomes_ok :: "u64 gomap \<Rightarrow> bool" where
  "outcomes_ok m \<longleftrightarrow> gm_ok m \<and> length m \<le> 32"

lemma length_gm_put: "gm_ok m \<Longrightarrow> length (gm_put k v m) = (if k \<in> fst ` set m then length m else Suc (length m))"
proof -
  assume ok: "gm_ok m"
  have c: "length x = card (fst ` set x)" if "gm_ok x" for x :: "'a gomap"
    using gm_ok_distinct[OF that] by (metis distinct_card length_map set_map)
  from c[OF ok] c[OF gm_put_ok[OF ok, of k v]] show ?thesis by (simp add: card_insert_if)
qed

lemma outcomes_ok_record: "outcomes_ok m \<Longrightarrow> outcomes_ok (record_outcomes e m)"
  by (auto simp: outcomes_ok_def record_outcomes_def length_gm_put gm_put_ok map_of_eq_None_iff
      split: option.splits)

lemma rec_run_totals:
  "rec_run (recorder_New cap) as r \<Longrightarrow> totals_ok (recorded as) (rr_counts r) \<and> outcomes_ok (rr_outcomes r)"
proof (induction "recorder_New cap" as r rule: rec_run.induct)
  case run_none
  show ?case by (simp add: totals_ok_def recorder_New_def zero_rec_counters_def outcomes_ok_def)
next
  case (run_snoc as r' a r'')
  from run_snoc(3) show ?case
  proof cases
    case (record_call now e)
    with run_snoc(2) totals_ok_record outcomes_ok_record show ?thesis by (simp add: Record_def Let_def)
  next
    case (encode_event e err)
    with run_snoc(2) show ?thesis by (simp add: encode_done_def Let_def)
  qed (use run_snoc(2) in simp_all)
qed

section \<open>Executing runs\<close>

fun rec_exec :: "recorder \<Rightarrow> rec_action \<Rightarrow> recorder option" where
  "rec_exec r (ARecord now e) = Some (Record now e r)"
| "rec_exec r ATake = (case (rr_writer r, rr_queue r) of
      (Waiting, e # q) \<Rightarrow> Some (r\<lparr>rr_queue := q, rr_writer := (if rr_aborted r then Ended else Encoding e)\<rparr>)
    | _ \<Rightarrow> None)"
| "rec_exec r (AEncode err) = (case rr_writer r of Encoding e \<Rightarrow> Some (encode_done err e r) | _ \<Rightarrow> None)"
| "rec_exec r AEnd = (if rr_writer r = Waiting \<and> rr_queue r = [] \<and> rr_closed r
      then Some (r\<lparr>rr_writer := Ended\<rparr>) else None)"
| "rec_exec r AClose = Some (r\<lparr>rr_closed := True\<rparr>)"
| "rec_exec r AAbort = (if rr_closed r then Some (r\<lparr>rr_aborted := True\<rparr>) else None)"

lemma rec_step_exec: "rec_step r a r' \<longleftrightarrow> rec_exec r a = Some r'"
proof
  show "rec_step r a r' \<Longrightarrow> rec_exec r a = Some r'"
    by (erule rec_stepE) simp_all
  show "rec_exec r a = Some r' \<Longrightarrow> rec_step r a r'"
    by (cases a) (auto intro: rec_step.intros split: rec_writer.splits list.splits if_splits)
qed

fun rec_execs :: "recorder \<Rightarrow> rec_action list \<Rightarrow> recorder option" where
  "rec_execs r [] = Some r"
| "rec_execs r (a # as) = (case rec_exec r a of None \<Rightarrow> None | Some r' \<Rightarrow> rec_execs r' as)"

lemma rec_execs_snoc:
  "rec_execs r (as @ [a]) = (case rec_execs r as of None \<Rightarrow> None | Some r' \<Rightarrow> rec_exec r' a)"
  by (induction as arbitrary: r) (auto split: option.splits)

lemma rec_run_execs: "rec_run r as r' \<longleftrightarrow> rec_execs r as = Some r'"
proof
  show "rec_run r as r' \<Longrightarrow> rec_execs r as = Some r'"
    by (induction rule: rec_run.induct) (simp_all add: rec_execs_snoc rec_step_exec)
  show "rec_execs r as = Some r' \<Longrightarrow> rec_run r as r'"
  proof (induction as arbitrary: r' rule: rev_induct)
    case (snoc a as)
    then show ?case by (auto simp: rec_execs_snoc rec_step_exec intro: rec_run.intros split: option.splits)
  qed (simp add: rec_run.intros)
qed

section \<open>The writer comes to an end\<close>

definition writer_action :: "rec_action \<Rightarrow> bool" where
  "writer_action a \<longleftrightarrow> a = ATake \<or> a = AEnd \<or> (\<exists>err. a = AEncode err)"

definition writer_work :: "recorder \<Rightarrow> nat" where
  "writer_work r = 2 * length (rr_queue r) + (case rr_writer r of Waiting \<Rightarrow> 1 | Encoding _ \<Rightarrow> 2 | Ended \<Rightarrow> 0)"

lemma writer_step_decreases:
  assumes "rec_step r a r'" "writer_action a"
  shows "writer_work r' < writer_work r \<and> rr_closed r' = rr_closed r"
  using assms by cases (auto simp: writer_action_def writer_work_def encode_done_def Let_def)

lemma writer_run_bounded:
  assumes "rec_run r as r'" "list_all writer_action as"
  shows "length as + writer_work r' \<le> writer_work r \<and> rr_closed r' = rr_closed r"
  using assms
proof (induction rule: rec_run.induct)
  case (run_snoc r as r' a r'')
  with writer_step_decreases[OF run_snoc(2)] show ?case by auto
qed simp

lemma writer_can_step:
  assumes "rr_closed r" "rr_writer r \<noteq> Ended"
  shows "\<exists>a r'. writer_action a \<and> rec_step r a r'"
proof (cases "rr_writer r")
  case Waiting
  then show ?thesis
    using assms by (cases "rr_queue r"; cases "rr_aborted r")
      (auto simp: writer_action_def intro: rec_step.intros)
next
  case (Encoding e)
  then have "rec_step r (AEncode None) (encode_done None e r)" by (rule rec_step.intros)
  then show ?thesis by (auto simp: writer_action_def)
qed (use assms in simp)

section \<open>The properties of the recorder\<close>

definition demo_event :: event where
  "demo_event = (new_event \<lparr>in_RunID = ''r'', in_Revision = 1, in_Enabled = True, in_ControlSequence = 1,
     in_AppliedAt = 1, in_StateChangedAt = 1\<rparr> ''flow_started'')\<lparr>ev_FlowID := ''f''\<rparr>"

definition demo_actions :: "rec_action list" where
  "demo_actions = [ARecord 5 demo_event, ARecord 6 demo_event, ATake, AEncode None, AClose, AEnd]"

lemma demo_rec_run:
  "\<exists>r. rec_run (recorder_New 1) demo_actions r \<and> rr_writer r = Ended \<and> close_result r = None
     \<and> length (recorded demo_actions) = 2"
  by (simp add: rec_run_execs demo_actions_def recorder_New_def Record_def demo_event_def new_event_def
      record_counts_def record_outcomes_def zero_rec_counters_def encode_done_def close_result_def Let_def)



text \<open>C38. The run totals are exact tallies of the events handed to \<open>Record\<close>, whether or not they
  fit in the queue: flows started, eligible and selected decisions, applied faults, flows active and
  flows with an active fault; and at most 32 different outcomes are kept.\<close>

theorem recorder_totals:
  assumes "rec_run (recorder_New cap) as r"
  shows "totals_ok (recorded as) (rr_counts r) \<and> length (rr_outcomes r) \<le> 32"
  using rec_run_totals[OF assms] by (simp add: outcomes_ok_def)

theorem recorder_totals_witness:
  "\<exists>r. rec_run (recorder_New 1) demo_actions r \<and> totals_ok (recorded demo_actions) (rr_counts r)"
  using demo_rec_run recorder_totals by blast

text \<open>C39. \<open>Close\<close> reports success only when nothing was left behind: the writer has ended, the queue is
  empty, and every event was written or is counted as dropped.\<close>

theorem close_flushed:
  assumes run: "rec_run (recorder_New cap) as r" and "rr_writer r = Ended" "close_result r = None"
    and small: "Suc (length (recorded as)) < 2 ^ 64"
  shows "rr_queue r = [] \<and> rc_Written (rr_counts r) + rc_Dropped (rr_counts r) = of_nat (length (recorded as))"
proof -
  have inv: "rec_inv as r" using run by (rule rec_run_inv)
  obtain lost where l: "lost \<le> (1::nat)" "rc_Pending (rr_counts r) = of_nat (length (rr_queue r) + lost)"
    using inv assms(2) by (auto simp: rec_inv_def)
  have "length (rr_output r @ held r @ rr_queue r) \<le> length (recorded as)"
    using inv by (auto simp: rec_inv_def dest: list_emb_length)
  then have "length (rr_queue r) + lost < 2 ^ 64" using l(1) small by simp
  moreover have "(of_nat (length (rr_queue r) + lost) :: u64) = 0"
    using assms(3) l(2) by (simp add: close_result_def split: if_splits)
  ultimately have "length (rr_queue r) + lost = 0"
    by (simp add: word_unat_eq_iff unat_of_nat del: of_nat_add)
  moreover have "rc_Written (rr_counts r) + rc_Dropped (rr_counts r) + rc_Pending (rr_counts r)
      = of_nat (length (recorded as))"
    using inv unfolding rec_inv_def by blast
  ultimately show ?thesis using l(2) by simp
qed

theorem close_flushed_witness:
  "\<exists>r. rec_run (recorder_New 1) demo_actions r \<and> rr_queue r = []
     \<and> rc_Written (rr_counts r) + rc_Dropped (rr_counts r) = 2"
  using demo_rec_run close_flushed[of 1 demo_actions] by fastforce



end
