(* ===== verification/Session.thy ===== *)
theory Session
  imports Wire Recorder
begin

text \<open>
  What the sessions of the two database proxies share: effectful steps that keep their state when
  they fail, a small Hoare logic for them, the connections they write to, and the part of a flow
  event that records a decision (the same statements in
  \<open>src/internal/proxy/mysql/session.go\<close> and \<open>src/internal/proxy/postgresql/session.go\<close>).
\<close>

section \<open>Effects\<close>

text \<open>
  An effect takes a state and gives a result and the state it left, also when it fails: bytes that
  were sent before an error stay sent. A \<open>Panic\<close> is an error no caller handles.
\<close>

type_synonym ('s, 'a) eff = "'s \<Rightarrow> 'a result \<times> 's"

definition return :: "'a \<Rightarrow> ('s, 'a) eff" where
  "return a s = (Inr a, s)"

definition fail :: "gerror \<Rightarrow> ('s, 'a) eff" where
  "fail e s = (Inl e, s)"

definition modify :: "('s \<Rightarrow> 's) \<Rightarrow> ('s, unit) eff" where
  "modify f s = (Inr (), f s)"

definition gets :: "('s \<Rightarrow> 'a) \<Rightarrow> ('s, 'a) eff" where
  "gets f s = (Inr (f s), s)"

definition andThen :: "('s, 'a) eff \<Rightarrow> ('a \<Rightarrow> ('s, 'b) eff) \<Rightarrow> ('s, 'b) eff" where
  "andThen m f s = (case m s of (Inl e, s') \<Rightarrow> (Inl e, s') | (Inr a, s') \<Rightarrow> f a s')"

text \<open>The error of an effect as a value: what \<open>err := f()\<close> gives.\<close>

definition is_panic :: "gerror \<Rightarrow> bool" where
  "is_panic e \<longleftrightarrow> (\<exists>m. e = Panic m)"

lemma is_panic_simps [simp, eval_simps]:
  "is_panic (Panic m)" "\<not> is_panic ErrProtocol" "\<not> is_panic Canceled" "\<not> is_panic (Err x)" "\<not> is_panic EOF"
  "\<not> is_panic ShortWrite" "\<not> is_panic DeadlineExceeded" "\<not> is_panic UnexpectedEOF"
  by (simp_all add: is_panic_def)

definition caught :: "('s, unit) eff \<Rightarrow> ('s, gerror option) eff" where
  "caught m s = (case m s of
      (Inl (Panic x), s') \<Rightarrow> (Inl (Panic x), s')
    | (Inl e, s') \<Rightarrow> (Inr (Some e), s')
    | (Inr _, s') \<Rightarrow> (Inr None, s'))"

lemmas eff_defs = return_def fail_def modify_def gets_def andThen_def caught_def

declare eff_defs [eval_simps]

subsection \<open>Triples\<close>

text \<open>From a state with \<open>P\<close>, the effect ends with a value and \<open>Q\<close>, or with an error and \<open>E\<close>.\<close>

definition triple ::
    "('s \<Rightarrow> bool) \<Rightarrow> ('s, 'a) eff \<Rightarrow> ('a \<Rightarrow> 's \<Rightarrow> bool) \<Rightarrow> (gerror \<Rightarrow> 's \<Rightarrow> bool) \<Rightarrow> bool" where
  "triple P m Q E \<longleftrightarrow> (\<forall>s. P s \<longrightarrow> (case m s of (Inr a, s') \<Rightarrow> Q a s' | (Inl e, s') \<Rightarrow> E e s'))"

lemma tripleI:
  assumes "\<And>s r s'. P s \<Longrightarrow> m s = (r, s') \<Longrightarrow> (case r of Inr a \<Rightarrow> Q a s' | Inl e \<Rightarrow> E e s')"
  shows "triple P m Q E"
  using assms unfolding triple_def by (fastforce split: sum.splits prod.splits)

lemma triple_Inr: "triple P m Q E \<Longrightarrow> P s \<Longrightarrow> m s = (Inr a, s') \<Longrightarrow> Q a s'"
  and triple_Inl: "triple P m Q E \<Longrightarrow> P s \<Longrightarrow> m s = (Inl e, s') \<Longrightarrow> E e s'"
  by (auto simp: triple_def)

lemma triple_return: "(\<And>s. P s \<Longrightarrow> Q a s) \<Longrightarrow> triple P (return a) Q E"
  by (simp add: triple_def return_def)

lemma triple_fail: "(\<And>s. P s \<Longrightarrow> E e s) \<Longrightarrow> triple P (fail e) Q E"
  by (simp add: triple_def fail_def)

lemma triple_modify: "(\<And>s. P s \<Longrightarrow> Q () (f s)) \<Longrightarrow> triple P (modify f) Q E"
  by (simp add: triple_def modify_def)

lemma triple_gets: "(\<And>s. P s \<Longrightarrow> Q (f s) s) \<Longrightarrow> triple P (gets f) Q E"
  by (simp add: triple_def gets_def)

lemma triple_andThen:
  assumes "triple P m Q' E" "\<And>a. triple (Q' a) (f a) Q E"
  shows "triple P (andThen m f) Q E"
proof (rule tripleI)
  fix s r s' assume P: "P s" and m: "andThen m f s = (r, s')"
  show "case r of Inr a \<Rightarrow> Q a s' | Inl e \<Rightarrow> E e s'"
  proof (cases "m s")
    case (Pair r1 s1)
    then show ?thesis
      using m triple_Inl[OF assms(1) P] triple_Inr[OF assms(1) P] triple_Inr[OF assms(2)] triple_Inl[OF assms(2)]
      by (cases r1; cases r) (auto simp: andThen_def)
  qed
qed

lemma triple_caught:
  assumes "triple P m Q E" "\<And>s. Q () s \<Longrightarrow> Q' None s" "\<And>e s. \<not> is_panic e \<Longrightarrow> E e s \<Longrightarrow> Q' (Some e) s"
    "\<And>e s. is_panic e \<Longrightarrow> E e s \<Longrightarrow> E' e s"
  shows "triple P (caught m) Q' E'"
proof (rule tripleI)
  fix s r s' assume P: "P s" and m: "caught m s = (r, s')"
  show "case r of Inr a \<Rightarrow> Q' a s' | Inl e \<Rightarrow> E' e s'"
  proof (cases "m s")
    case (Pair r1 s1)
    then show ?thesis
      using m triple_Inl[OF assms(1) P] triple_Inr[OF assms(1) P] assms(2-4)
      by (cases r1) (auto simp: caught_def is_panic_def split: gerror.splits)
  qed
qed

lemma triple_if:
  "(c \<Longrightarrow> triple P m Q E) \<Longrightarrow> (\<not> c \<Longrightarrow> triple P m' Q E) \<Longrightarrow> triple P (if c then m else m') Q E"
  by simp

lemma triple_conseq:
  assumes "triple P m Q E" "\<And>s. P' s \<Longrightarrow> P s" "\<And>a s. Q a s \<Longrightarrow> Q' a s" "\<And>e s. E e s \<Longrightarrow> E' e s"
  shows "triple P' m Q' E'"
  using assms unfolding triple_def by (fastforce split: sum.splits prod.splits)

section \<open>Connections\<close>

text \<open>
  A connection: what can be read from it, the results of the calls of its \<open>Write\<close>, how many there
  were, and the bytes that were sent. When a TLS session is put on it, \<open>cn_clear\<close> keeps the
  bytes that were sent before it; the handshake (\<open>crypto/tls\<close>) is a parameter that gives the
  reader and the writer of the session, or fails.
\<close>

record conn =
  cn_in :: reader
  cn_writer :: writer
  cn_calls :: nat
  cn_sent :: bytes
  cn_clear :: bytes
  cn_tls :: bool

type_synonym handshake = "(reader \<times> writer) result"

definition start_tls :: "reader \<Rightarrow> writer \<Rightarrow> conn \<Rightarrow> conn" where
  "start_tls r w c = c\<lparr>cn_in := r, cn_writer := w, cn_calls := 0, cn_clear := cn_clear c @ cn_sent c,
     cn_sent := [], cn_tls := True\<rparr>"

text \<open>Sending with one of the write functions: the bytes that got out and the error.\<close>

definition send_with ::
    "(writer \<Rightarrow> nat \<Rightarrow> 'm \<Rightarrow> bytes \<times> nat \<times> gerror option) \<Rightarrow> 'm \<Rightarrow> conn \<Rightarrow> gerror option \<times> conn" where
  "send_with write m c = (case write (cn_writer c) (cn_calls c) m of
      (sent, j, err) \<Rightarrow> (err, c\<lparr>cn_calls := j, cn_sent := cn_sent c @ sent\<rparr>))"

definition recv_with :: "(reader \<Rightarrow> ('m \<times> reader) result) \<Rightarrow> conn \<Rightarrow> 'm result \<times> conn" where
  "recv_with read c = (case read (cn_in c) of
      Inl e \<Rightarrow> (Inl e, c)
    | Inr (m, r) \<Rightarrow> (Inr m, c\<lparr>cn_in := r\<rparr>))"

declare send_with_def [eval_simps] recv_with_def [eval_simps] start_tls_def [eval_simps]

section \<open>The decision in an event\<close>

definition selector_name :: "selector \<Rightarrow> string \<Rightarrow> string" where
  "selector_name s old =
     (if s_Probability s \<noteq> None then ''probability''
      else if s_Nth s \<noteq> None then ''nth''
      else if s_Every s \<noteq> None then ''every'' else old)"

definition with_decision :: "decision \<Rightarrow> event \<Rightarrow> event" where
  "with_decision d e = e\<lparr>ev_Type := ''decision'', ev_RuleID := de_RuleID d,
     ev_EligibleSequence := de_EligibleSequence d, ev_Selected := de_Selected d,
     ev_Phase := f_Phase (de_Fault d), ev_Action := f_Action (de_Fault d),
     ev_Probability := s_Probability (de_Selector d), ev_Nth := s_Nth (de_Selector d),
     ev_Every := s_Every (de_Selector d), ev_Selector := selector_name (de_Selector d) (ev_Selector e),
     ev_CommitConfirmed := True\<rparr>"

definition with_applied :: "event \<Rightarrow> event" where
  "with_applied e = e\<lparr>ev_Type := ''fault_applied'', ev_Reached := True, ev_Applied := True\<rparr>"

definition no_metadata :: metadata where
  "no_metadata = \<lparr>md_Method = [], md_Service = [], md_Path = [], md_Headers = []\<rparr>"

end
