(* ===== verification/Mysql_Wire.thy ===== *)
theory Mysql_Wire
  imports Wire
begin

text \<open>
  The packets of the MySQL protocol (\<open>src/internal/proxy/mysql/wire.go\<close>): framing, length-encoded
  integers, the status flags of OK and EOF packets, and the classification of SQL text into
  transaction statements. The framing is shown to be a \<open>codec\<close>.
\<close>

section \<open>Constants\<close>

definition mysql_maxPacket :: nat where
  "mysql_maxPacket = 2 ^ 20"

definition capSSL :: u32 where
  "capSSL = push_bit 11 1"

definition capProtocol41 :: u32 where
  "capProtocol41 = push_bit 9 1"

definition capPluginAuth :: u32 where
  "capPluginAuth = push_bit 19 1"

definition capDeprecateEOF :: u32 where
  "capDeprecateEOF = push_bit 24 1"

definition forbiddenCaps :: u32 where
  "forbiddenCaps = push_bit 5 1 OR push_bit 7 1 OR push_bit 16 1 OR push_bit 17 1 OR push_bit 18 1
     OR push_bit 25 1 OR push_bit 26 1 OR push_bit 27 1 OR push_bit 28 1 OR push_bit 29 1"

lemmas cap_defs = capSSL_def capProtocol41_def capPluginAuth_def capDeprecateEOF_def forbiddenCaps_def

section \<open>Packets\<close>

record packet =
  pk_seq :: byte
  pk_body :: bytes

definition packet_length :: "bytes \<Rightarrow> u64" where
  "packet_length h = ucast (h ! 0) OR push_bit 8 (ucast (h ! 1)) OR push_bit 16 (ucast (h ! 2))"

definition mysql_readPacket :: "reader \<Rightarrow> (packet \<times> reader) result" where
  "mysql_readPacket r =
     (case readFull 4 r of
        Inl err \<Rightarrow> Inl err
      | Inr (h, r') \<Rightarrow>
          let n = unat (packet_length h) in
          if n = 0 \<or> mysql_maxPacket < n then Inl ErrProtocol
          else case readFull n r' of
            Inl err \<Rightarrow> Inl err
          | Inr (body, r'') \<Rightarrow> Inr (\<lparr>pk_seq = h ! 3, pk_body = body\<rparr>, r''))"

text \<open>The buffer of \<open>writePacket\<close>, and the whole function.\<close>

definition packet_bytes :: "packet \<Rightarrow> bytes" where
  "packet_bytes p =
     (let n = (of_nat (length (pk_body p)) :: u64)
      in [ucast n, ucast (drop_bit 8 n), ucast (drop_bit 16 n), pk_seq p] @ pk_body p)"

definition packet_ok :: "packet \<Rightarrow> bool" where
  "packet_ok p \<longleftrightarrow> \<not> (length (pk_body p) = 0 \<or> mysql_maxPacket < length (pk_body p))"

definition mysql_writePacket :: "writer \<Rightarrow> nat \<Rightarrow> packet \<Rightarrow> bytes \<times> nat \<times> gerror option" where
  "mysql_writePacket w i p =
     (if \<not> packet_ok p then ([], i, Some ErrProtocol) else writeAll w i (packet_bytes p))"

definition mysql_reject_packet :: "byte \<Rightarrow> packet" where
  "mysql_reject_packet seq = \<lparr>pk_seq = seq, pk_body = [0xff, 0x15, 0x04] @ map of_char ''#HY000''
     @ map of_char ''Faultline: unsupported or malformed MySQL protocol''\<rparr>"

section \<open>Integers and status flags\<close>

definition lenenc_value :: "bytes \<Rightarrow> u64" where
  "lenenc_value b = foldr (\<lambda>x acc. ucast x OR push_bit 8 acc) b 0"

text \<open>\<open>lenenc\<close>: the value, the number of bytes it takes, and whether there is one.\<close>

definition lenenc :: "bytes \<Rightarrow> u64 \<times> nat \<times> bool" where
  "lenenc b =
     (if b = [] then (0, 0, False)
      else if hd b = 0xfb \<or> hd b = 0xff then (0, 0, False)
      else if hd b = 0xfc \<or> hd b = 0xfd \<or> hd b = 0xfe then
        let n = (if hd b = 0xfc then 3 else if hd b = 0xfd then 4 else 9)
        in if length b < n then (0, 0, False)
           else (lenenc_value (take (n - 1) (tl b)), n, True)
      else (ucast (hd b), 1, True))"

definition okStatus :: "bytes \<Rightarrow> u16 \<times> bool" where
  "okStatus b =
     (if length b < 7 \<or> (hd b \<noteq> 0 \<and> hd b \<noteq> 0xfe) then (0, False)
      else let (_, n, ok) = lenenc (drop 1 b) in
       if \<not> ok then (0, False)
       else let (_, m, ok') = lenenc (drop (1 + n) b) in
        if \<not> ok' \<or> length b < 1 + n + m + 4 then (0, False)
        else (le16 (drop (1 + n + m) b), True))"

definition eofStatus :: "bytes \<Rightarrow> bool \<Rightarrow> u16 \<times> bool" where
  "eofStatus b modern =
     (if b = [] \<or> hd b \<noteq> 0xfe then (0, False)
      else if modern then okStatus b
      else if length b \<noteq> 5 then (0, False)
      else (le16 (drop 3 b), True))"

section \<open>Statements\<close>

datatype statement = ordinary | begin_tx | commit | rollback | unsupported

definition ascii_runes :: "string \<Rightarrow> nat list" where
  "ascii_runes s = map of_char s"

text \<open>
  The text is normalised rune by rune: trimmed, upper-cased, one trailing semicolon removed,
  trimmed again, and its fields joined by single spaces.
\<close>

definition normalize_sql :: "bytes \<Rightarrow> nat list" where
  "normalize_sql sql =
     (let s1 = map upper_rune (trimSpace_runes (runes (map unat sql)));
          s2 = trimSpace_runes (trimSuffix s1 (ascii_runes '';''))
      in join (ascii_runes '' '') (fields_runes s2))"

definition classify :: "bytes \<Rightarrow> statement" where
  "classify sql =
     (let s = normalize_sql sql in
      if s \<in> set (map ascii_runes [''BEGIN'', ''BEGIN WORK'', ''START TRANSACTION'']) then begin_tx
      else if s \<in> set (map ascii_runes [''COMMIT'', ''COMMIT WORK'']) then commit
      else if s \<in> set (map ascii_runes [''ROLLBACK'', ''ROLLBACK WORK'']) then rollback
      else if list_ex (\<lambda>prefix. hasPrefix s (ascii_runes prefix))
                [''CALL '', ''XA '', ''PREPARE '', ''EXECUTE '', ''LOAD DATA '']
      then unsupported else ordinary)"

section \<open>The framing is a codec\<close>

lemma le24_bytes:
  fixes a b c :: byte
  defines "v \<equiv> (ucast a OR push_bit 8 (ucast b) OR push_bit 16 (ucast c) :: u64)"
  shows "ucast v = a" "ucast (drop_bit 8 v) = b" "ucast (drop_bit 16 v) = c"
  unfolding v_def
  by (rule bit_eqI; auto simp: bit_simps dest: bit_imp_le_length)+

lemma le24_join:
  assumes "v < 2 ^ 24"
  shows "ucast (ucast v :: byte) OR push_bit 8 (ucast (ucast (drop_bit 8 v) :: byte))
     OR push_bit 16 (ucast (ucast (drop_bit 16 v) :: byte)) = (v :: u64)"
proof (rule bit_eqI)
  fix n
  show "bit (ucast (ucast v :: byte) OR push_bit 8 (ucast (ucast (drop_bit 8 v) :: byte))
     OR push_bit 16 (ucast (ucast (drop_bit 16 v) :: byte)) :: u64) n = bit v n"
    using word_bit_less[OF assms, of n] by (cases "n < 8"; cases "n < 16"; cases "n < 24") (auto simp: bit_simps)
qed
lemma packet_length_bytes:
  assumes "length body \<le> mysql_maxPacket"
  shows "unat (packet_length (packet_bytes \<lparr>pk_seq = s, pk_body = body\<rparr>)) = length body"
proof -
  have l: "length body < 2 ^ 24" using assms by (simp add: mysql_maxPacket_def)
  then have u: "unat (of_nat (length body) :: u64) = length body" by (simp add: unat_of_nat)
  then have "(of_nat (length body) :: u64) < 2 ^ 24" using l by (simp add: word_less_nat_alt)
  from le24_join[OF this] u show ?thesis by (simp add: packet_length_def packet_bytes_def Let_def)
qed

interpretation packets: codec packet_bytes mysql_readPacket packet_ok
proof unfold_locales
  fix p :: packet and rest e
  assume ok: "packet_ok p"
  let ?b = "packet_bytes p"
  have b: "take 4 ?b @ pk_body p = ?b" "length (take 4 ?b) = 4" "?b ! 3 = pk_seq p"
    by (simp_all add: packet_bytes_def Let_def)
  have n: "unat (packet_length (take 4 ?b)) = length (pk_body p)"
    using packet_length_bytes[of "pk_body p" "pk_seq p"] ok
    by (cases p) (simp add: packet_ok_def packet_length_def packet_bytes_def Let_def)
  show "mysql_readPacket (?b @ rest, e) = Inr (p, rest, e)"
    using ok n by (cases p) (simp add: mysql_readPacket_def readFull_def packet_ok_def packet_bytes_def Let_def)
next
  fix bs e p bs' e'
  assume r: "mysql_readPacket (bs, e) = Inr (p, bs', e')"
  let ?n = "unat (packet_length (take 4 bs))"
  have len: "4 \<le> length bs" "0 < ?n" "?n \<le> mysql_maxPacket" "?n \<le> length (drop 4 bs)"
    and p: "p = \<lparr>pk_seq = bs ! 3, pk_body = take ?n (drop 4 bs)\<rparr>" "bs' = drop ?n (drop 4 bs)" "e' = e"
    using r by (auto simp: mysql_readPacket_def readFull_def Let_def split: if_splits)
  obtain a b c s t where bs: "bs = a # b # c # s # t"
    using len(1) by (auto simp: numeral_eq_Suc Suc_le_length_iff)
  have "length (pk_body p) = ?n" using len by (simp add: p)
  then have "of_nat (length (pk_body p)) = packet_length (take 4 bs)" by simp
  then have "packet_bytes p = [a, b, c, s] @ take ?n t"
    using le24_bytes[of a b c] p by (simp add: packet_bytes_def packet_length_def bs Let_def)
  then show "packet_ok p \<and> bs = packet_bytes p @ bs' \<and> e' = e"
    using len p by (simp add: bs packet_ok_def)
qed

section \<open>Length-encoded integers\<close>

fun le_bytes :: "nat \<Rightarrow> u64 \<Rightarrow> bytes" where
  "le_bytes 0 v = []"
| "le_bytes (Suc k) v = ucast v # le_bytes k (drop_bit 8 v)"

definition put_lenenc :: "u64 \<Rightarrow> bytes" where
  "put_lenenc v = (if v < 251 then [ucast v] else if v < 2 ^ 16 then 0xfc # le_bytes 2 v
     else if v < 2 ^ 24 then 0xfd # le_bytes 3 v else 0xfe # le_bytes 8 v)"

lemma length_le_bytes [simp]: "length (le_bytes k v) = k"
  by (induction k arbitrary: v) auto

lemma lenenc_value_le_bytes: "lenenc_value (le_bytes k v) = take_bit (8 * k) v"
proof (induction k arbitrary: v)
  case (Suc k)
  have "ucast (ucast v :: byte) OR push_bit 8 (take_bit (8 * k) (drop_bit 8 v)) = take_bit (8 + 8 * k) v"
  proof (rule bit_eqI)
    fix n
    show "bit (ucast (ucast v :: byte) OR push_bit 8 (take_bit (8 * k) (drop_bit 8 v))) n
        = bit (take_bit (8 + 8 * k) v) n"
      by (cases "n < 8") (auto simp: bit_simps dest: bit_imp_le_length)
  qed
  then show ?case using Suc[of "drop_bit 8 v"] by (simp add: lenenc_value_def)
qed (simp add: lenenc_value_def)

lemma take_bit_small: 
  fixes v :: "'a::len word"
  assumes "v < 2 ^ n" "n < LENGTH('a)"
  shows "take_bit n v = v"
  by (rule bit_eqI) (use word_bit_less[OF assms] in \<open>auto simp: bit_simps\<close>)

lemma lenenc_put: "lenenc (put_lenenc v @ rest) = (v, length (put_lenenc v), True)"
proof -
  have s: "v < 251 \<Longrightarrow> (ucast v :: byte) \<noteq> 0xfb \<and> (ucast v :: byte) \<noteq> 0xff \<and> (ucast v :: byte) \<noteq> 0xfc
      \<and> (ucast v :: byte) \<noteq> 0xfd \<and> (ucast v :: byte) \<noteq> 0xfe \<and> ucast (ucast v :: byte) = v"
  proof -
    assume "v < 251"
    then have n: "unat v < 251" by (simp add: word_less_nat_alt)
    then have u: "unat (ucast v :: byte) = unat v" by (simp add: unsigned_ucast_eq take_bit_eq_mod)
    then show ?thesis using n by (auto simp: word_unat_eq_iff unsigned_ucast_eq take_bit_eq_mod unat_mod_distrib)
  qed
  have v: "lenenc_value (le_bytes k v) = v" if "v < 2 ^ (8 * k) \<or> k = 8" "k \<le> 8" for k
    using that take_bit_small[of v "8 * k"] take_bit_length_eq[of v]
    by (cases "k = 8") (auto simp: lenenc_value_le_bytes)
  show ?thesis
    using s v[of 2] v[of 3] v[of 8] by (simp add: lenenc_def put_lenenc_def del: le_bytes.simps)
qed

lemma le16_put [simp]: "le16 (put_le16 v @ rest) = v"
proof (rule bit_eqI)
  fix n
  show "bit (le16 (put_le16 v @ rest)) n = bit v n"
    by (cases "n < 8") (auto simp: le16_def put_le16_def bit_simps dest: bit_imp_le_length)
qed

text \<open>An OK packet, as a server builds it: header, affected rows, insert id, status, warnings.\<close>

definition ok_body :: "byte \<Rightarrow> u64 \<Rightarrow> u64 \<Rightarrow> u16 \<Rightarrow> bytes \<Rightarrow> bytes" where
  "ok_body h rows ins status rest = h # put_lenenc rows @ put_lenenc ins @ put_le16 status @ rest"

lemma length_put_lenenc: "0 < length (put_lenenc v)"
  by (simp add: put_lenenc_def)

lemma okStatus_ok_body:
  assumes "h = 0 \<or> h = 0xfe" "2 \<le> length rest"
  shows "okStatus (ok_body h rows ins status rest) = (status, True)"
proof -
  let ?b = "ok_body h rows ins status rest"
  let ?n = "length (put_lenenc rows)" and ?m = "length (put_lenenc ins)"
  have d: "drop 1 ?b = put_lenenc rows @ put_lenenc ins @ put_le16 status @ rest"
    "drop (1 + ?n) ?b = put_lenenc ins @ put_le16 status @ rest"
    "drop (1 + ?n + ?m) ?b = put_le16 status @ rest"
    by (simp_all add: ok_body_def)
  have len: "length ?b = 1 + ?n + ?m + 2 + length rest" by (simp add: ok_body_def put_le16_def)
  have "\<not> length ?b < 7" "\<not> length ?b < 1 + ?n + ?m + 4"
    using len assms(2) length_put_lenenc[of rows] length_put_lenenc[of ins] by linarith+
  moreover have "hd ?b = h" by (simp add: ok_body_def)
  ultimately show ?thesis
    using assms(1) unfolding okStatus_def d(1) lenenc_put prod.case Let_def d(2) d(3) by auto
qed

section \<open>The properties of the packet layer\<close>

text \<open>C22. What \<open>writePacket\<close> puts on a connection without an error, however the connection splits
  the writes, is read back by \<open>readPacket\<close> as the same packet, with the following bytes left in
  place.\<close>

theorem mysql_write_read:
  assumes "mysql_writePacket w i p = (sent, j, None)"
  shows "mysql_readPacket (sent @ rest, e) = Inr (p, rest, e)"
proof -
  have ok: "packet_ok p" "writeAll w i (packet_bytes p) = (sent, j, None)"
    using assms by (auto simp: mysql_writePacket_def split: if_splits)
  then have "sent = packet_bytes p" using writeAll_prefix by fastforce
  then show ?thesis using packets.decode_encode[OF ok(1)] by simp
qed

definition two_bytes_writer :: writer where
  "two_bytes_writer i b = (min 2 (length b), None)"

theorem mysql_write_read_witness:
  "\<exists>sent j. mysql_writePacket two_bytes_writer 0 \<lparr>pk_seq = 3, pk_body = [1, 2, 3]\<rparr> = (sent, j, None)
     \<and> mysql_readPacket (sent @ [9], EOF) = Inr (\<lparr>pk_seq = 3, pk_body = [1, 2, 3]\<rparr>, [9], EOF)"
proof -
  let ?p = "\<lparr>pk_seq = 3, pk_body = [1, 2, 3]\<rparr> :: packet"
  have "writeAll two_bytes_writer 0 (packet_bytes ?p)
      = (packet_bytes ?p, fst (snd (writeAll two_bytes_writer 0 (packet_bytes ?p))), None)"
    using writeAll_complete[of two_bytes_writer 0 "packet_bytes ?p"]
    by (cases "writeAll two_bytes_writer 0 (packet_bytes ?p)") (simp add: two_bytes_writer_def)
  then have "mysql_writePacket two_bytes_writer 0 ?p
      = (packet_bytes ?p, fst (snd (writeAll two_bytes_writer 0 (packet_bytes ?p))), None)"
    by (simp add: mysql_writePacket_def packet_ok_def mysql_maxPacket_def)
  then show ?thesis using mysql_write_read by blast
qed

end
