(* ===== verification/Mysql_Session.thy ===== *)
theory Mysql_Session
  imports Session Mysql_Wire "HOL-Library.AList"
begin

text \<open>
  A session of the MySQL proxy: the connection phase (\<open>src/internal/proxy/mysql/auth.go\<close>) and the
  command phase (\<open>src/internal/proxy/mysql/session.go\<close>). Packets go over connections with
  \<open>readPacket\<close> and \<open>writePacket\<close> of \<open>Mysql_Wire\<close>; decisions are taken on the snapshot a flow holds
  (\<open>Control\<close>); events are the calls of \<open>Record\<close> in their order. Deadlines only show in the results of
  reads and writes, and are not state of their own.
\<close>

section \<open>The connection phase\<close>

definition caching_sha2 :: bytes where
  "caching_sha2 = map of_char ''caching_sha2_password'' @ [0]"

text \<open>The offset of the capabilities in a greeting, and the capabilities there.\<close>

definition caps_offset :: "bytes \<Rightarrow> nat" where
  "caps_offset b = (let end = length (takeWhile (\<lambda>x. x \<noteq> 0) (drop 1 b)) in 1 + end + 1 + 4 + 8 + 1)"

definition caps_of :: "bytes \<Rightarrow> u32" where
  "caps_of b = ucast (le16 (drop (caps_offset b) b)) OR push_bit 16 (ucast (le16 (drop (caps_offset b + 5) b)))"

text \<open>
  \<open>greeting\<close> gives the greeting as it was rewritten and the capabilities that are left; without a
  zero byte after the version the index is -1.
\<close>

definition greeting :: "bytes \<Rightarrow> bool \<Rightarrow> (bytes \<times> u32) option" where
  "greeting b secure =
     (if length b < 1 \<or> hd b \<noteq> 10 then None
      else if 0 \<notin> set (drop 1 b) then None
      else let lo = caps_offset b in
       if length b < lo + 18 then None
       else let flags = caps_of b in
        if flags AND capProtocol41 = 0 \<or> flags AND capPluginAuth = 0 \<or> \<not> hasSuffix b caching_sha2 then None
        else if secure \<and> flags AND capSSL = 0 then None
        else let flags1 = flags AND NOT forbiddenCaps;
                 flags2 = (if \<not> secure then flags1 AND NOT capSSL else flags1);
                 b1 = take lo b @ put_le16 (ucast flags2) @ drop (lo + 2) b;
                 b2 = take (lo + 5) b1 @ put_le16 (ucast (drop_bit 16 flags2)) @ drop (lo + 7) b1
             in Some (b2, flags2))"

record links =
  lk_client :: conn
  lk_upstream :: conn

definition write_client :: "packet \<Rightarrow> (links, unit) eff" where
  "write_client p s = (case send_with mysql_writePacket p (lk_client s) of
      (err, c) \<Rightarrow> (case err of None \<Rightarrow> Inr () | Some e \<Rightarrow> Inl e, s\<lparr>lk_client := c\<rparr>))"

definition write_upstream :: "packet \<Rightarrow> (links, unit) eff" where
  "write_upstream p s = (case send_with mysql_writePacket p (lk_upstream s) of
      (err, c) \<Rightarrow> (case err of None \<Rightarrow> Inr () | Some e \<Rightarrow> Inl e, s\<lparr>lk_upstream := c\<rparr>))"

text \<open>\<open>readPacket\<close> and the check of the sequence number; every failure is \<open>errProtocol\<close>.\<close>

definition expect_client :: "byte \<Rightarrow> (links, packet) eff" where
  "expect_client seq s = (case recv_with mysql_readPacket (lk_client s) of
      (Inl _, c) \<Rightarrow> (Inl ErrProtocol, s\<lparr>lk_client := c\<rparr>)
    | (Inr p, c) \<Rightarrow> (if pk_seq p \<noteq> seq then Inl ErrProtocol else Inr p, s\<lparr>lk_client := c\<rparr>))"

definition expect_upstream :: "byte \<Rightarrow> (links, packet) eff" where
  "expect_upstream seq s = (case recv_with mysql_readPacket (lk_upstream s) of
      (Inl _, c) \<Rightarrow> (Inl ErrProtocol, s\<lparr>lk_upstream := c\<rparr>)
    | (Inr p, c) \<Rightarrow> (if pk_seq p \<noteq> seq then Inl ErrProtocol else Inr p, s\<lparr>lk_upstream := c\<rparr>))"

definition tls_upstream :: "handshake \<Rightarrow> (links, unit) eff" where
  "tls_upstream h s = (case h of
      Inl e \<Rightarrow> (Inl e, s)
    | Inr (r, w) \<Rightarrow> (Inr (), s\<lparr>lk_upstream := start_tls r w (lk_upstream s)\<rparr>))"

definition tls_client :: "handshake \<Rightarrow> (links, unit) eff" where
  "tls_client h s = (case h of
      Inl e \<Rightarrow> (Inl e, s)
    | Inr (r, w) \<Rightarrow> (Inr (), s\<lparr>lk_client := start_tls r w (lk_client s)\<rparr>))"

text \<open>
  The packets of the server that continue the exchange, and whether the client answers them:
  the \<open>switch\<close> of a round without its final cases.
\<close>

definition auth_continue :: "packet \<Rightarrow> bool option" where
  "auth_continue p =
     (let b = pk_body p in
      if hd b = 0xfe then
        (if \<not> hasPrefix (tl b) caching_sha2 then None else Some True)
      else if hd b = 1 then
        (if length b = 2 then
           (if b ! 1 = 3 then Some False else if b ! 1 = 4 then Some True else None)
         else if \<not> hasPrefix (tl b) (map of_char ''-----BEGIN PUBLIC KEY-----'') then None
         else Some True)
      else None)"

fun auth_rounds :: "nat \<Rightarrow> byte \<Rightarrow> u32 \<Rightarrow> (links, u32) eff" where
  "auth_rounds 0 seq flags = fail ErrProtocol"
| "auth_rounds (Suc n) seq flags =
     andThen (expect_upstream seq) (\<lambda>p.
       if hd (pk_body p) = 0 then
         (if \<not> snd (okStatus (pk_body p)) then fail ErrProtocol
          else andThen (write_client p) (\<lambda>_. return flags))
       else if hd (pk_body p) = 0xff then
         andThen (caught (write_client p)) (\<lambda>_. fail ErrProtocol)
       else case auth_continue p of
         None \<Rightarrow> fail ErrProtocol
       | Some needResponse \<Rightarrow>
           andThen (write_client p) (\<lambda>_.
             if needResponse then
               andThen (expect_client (seq + 1)) (\<lambda>r.
               andThen (write_upstream r) (\<lambda>_. auth_rounds n (seq + 2) flags))
             else auth_rounds n (seq + 1) flags))"

text \<open>The capabilities a client may ask for, given what was offered.\<close>

definition flags_refused :: "u32 \<Rightarrow> u32 \<Rightarrow> bool" where
  "flags_refused flags offered \<longleftrightarrow> flags AND forbiddenCaps \<noteq> 0 \<or> flags AND capProtocol41 = 0
     \<or> flags AND capPluginAuth = 0 \<or> flags AND NOT offered \<noteq> 0"

definition authenticate :: "bool \<Rightarrow> handshake \<Rightarrow> handshake \<Rightarrow> (links, u32) eff" where
  "authenticate secure upstreamTLS clientTLS =
     andThen (expect_upstream 0) (\<lambda>hello.
     case greeting (pk_body hello) secure of
       None \<Rightarrow> fail ErrProtocol
     | Some (b, offered) \<Rightarrow>
         andThen (write_client (hello\<lparr>pk_body := b\<rparr>)) (\<lambda>_.
         andThen (expect_client 1) (\<lambda>response.
           if length (pk_body response) < 32 then fail ErrProtocol
           else let flags = le32 (pk_body response) in
             if flags_refused flags offered then fail ErrProtocol
             else if secure then
               (if flags AND capSSL = 0 \<or> length (pk_body response) \<noteq> 32 then fail ErrProtocol
                else andThen (write_upstream response) (\<lambda>_.
                  andThen (tls_upstream upstreamTLS) (\<lambda>_.
                  andThen (tls_client clientTLS) (\<lambda>_.
                  andThen (expect_client 2) (\<lambda>response2.
                    if length (pk_body response2) \<le> 32 \<or> le32 (pk_body response2) \<noteq> flags then fail ErrProtocol
                    else andThen (write_upstream response2) (\<lambda>_. auth_rounds 12 3 flags))))))
             else if flags AND capSSL \<noteq> 0 then fail ErrProtocol
             else andThen (write_upstream response) (\<lambda>_. auth_rounds 12 2 flags))))"

section \<open>The command phase\<close>

text \<open>
  The state of \<open>exchange\<close>: the two connections; the results the calls of \<open>receive\<close> on the channel of
  the upstream will have (the packets its \<open>pump\<close> read, and the error of a cancelled context; a
  call beyond the list finds the context cancelled); the control service; the events handed to
  \<open>Record\<close>; the local variables of the session and of the cycle.
\<close>

record ('h, 'p) my_session =
  ms_client :: conn
  ms_upstream :: conn
  ms_back :: "packet result list"
  ms_service :: "('h, 'p) service"
  ms_events :: "event list"
  ms_statements :: "(u32 \<times> statement) list"
  ms_transaction :: bool
  ms_seq :: byte
  ms_event :: event
  ms_outcome :: string

text \<open>
  What one turn of the loop meets outside of the session: the result of \<open>receive\<close> on the channel of
  the client, what others did to the service before the snapshot is acquired and before the
  decision, the identifier and the times of the event, and whether the context ends before the
  timer of the fault.
\<close>

record ('h, 'p) turn =
  tn_packet :: "packet result"
  tn_before :: "('h, 'p) service \<Rightarrow> ('h, 'p) service"
  tn_during :: "('h, 'p) service \<Rightarrow> ('h, 'p) service"
  tn_flow :: string
  tn_started :: instant
  tn_finished :: instant
  tn_done :: bool

definition to_client :: "packet \<Rightarrow> (('h, 'p) my_session, unit) eff" where
  "to_client p s = (case send_with mysql_writePacket p (ms_client s) of
      (err, c) \<Rightarrow> (case err of None \<Rightarrow> Inr () | Some e \<Rightarrow> Inl e, s\<lparr>ms_client := c\<rparr>))"

definition to_upstream :: "packet \<Rightarrow> (('h, 'p) my_session, unit) eff" where
  "to_upstream p s = (case send_with mysql_writePacket p (ms_upstream s) of
      (err, c) \<Rightarrow> (case err of None \<Rightarrow> Inr () | Some e \<Rightarrow> Inl e, s\<lparr>ms_upstream := c\<rparr>))"

definition mysql_reject :: "byte \<Rightarrow> (('h, 'p) my_session, unit) eff" where
  "mysql_reject seq = andThen (caught (to_client (mysql_reject_packet seq))) (\<lambda>_. return ())"

definition mysql_record :: "event \<Rightarrow> (('h, 'p) my_session, unit) eff" where
  "mysql_record e = modify (\<lambda>s. s\<lparr>ms_events := ms_events s @ [e]\<rparr>)"

definition mysql_receive :: "(('h, 'p) my_session, packet) eff" where
  "mysql_receive s = (case ms_back s of
      [] \<Rightarrow> (Inl Canceled, s)
    | r # rs \<Rightarrow> (r, s\<lparr>ms_back := rs\<rparr>))"

definition byte_at :: "nat \<Rightarrow> bytes \<Rightarrow> ('s, byte) eff" where
  "byte_at i b = (if i < length b then return (b ! i) else fail (Panic ''index out of range''))"

text \<open>\<open>pump\<close>: the packets that are read from a connection until a read fails.\<close>

function mysql_pump :: "reader \<Rightarrow> packet list" where
  "mysql_pump r = (case mysql_readPacket r of
      Inl _ \<Rightarrow> []
    | Inr (p, r') \<Rightarrow> p # mysql_pump r')"
  by pat_completeness auto
termination
proof (relation "measure (\<lambda>r. length (fst r))")
  fix r p r' and x :: "packet \<times> reader"
  assume "mysql_readPacket r = Inr x" "(p, r') = x"
  then have "fst r = packet_bytes p @ fst r'"
    using packets.decode_sound[of "fst r" "snd r" p "fst r'" "snd r'"] by auto
  moreover have "packet_bytes p \<noteq> []" by (simp add: packet_bytes_def Let_def)
  ultimately show "(r', r) \<in> measure (\<lambda>r. length (fst r))" by simp
qed simp

declare mysql_pump.simps [simp del]

subsection \<open>The answer to a command\<close>

definition cycle_read :: "(('h, 'p) my_session, packet) eff" where
  "cycle_read = andThen mysql_receive (\<lambda>p s.
     if pk_seq p \<noteq> ms_seq s then (Inl ErrProtocol, s)
     else (Inr p, s\<lparr>ms_seq := ms_seq s + 1\<rparr>))"

fun definitions_loop :: "nat \<Rightarrow> (('h, 'p) my_session, unit) eff" where
  "definitions_loop 0 = return ()"
| "definitions_loop (Suc n) =
     andThen cycle_read (\<lambda>p.
     andThen (byte_at 0 (pk_body p)) (\<lambda>b0.
       if b0 = 0xff then fail ErrProtocol
       else andThen (to_client p) (\<lambda>_. definitions_loop n)))"

definition definitions :: "bool \<Rightarrow> nat \<Rightarrow> (('h, 'p) my_session, unit) eff" where
  "definitions modern n =
     (if 4096 < n then fail ErrProtocol
      else andThen (definitions_loop n) (\<lambda>_.
        if 0 < n \<and> \<not> modern then
          andThen cycle_read (\<lambda>p.
            if \<not> snd (eofStatus (pk_body p) False) then fail ErrProtocol else to_client p)
        else return ()))"

text \<open>
  The loop over the rows: the status flags of the end and whether there is one. An error of the
  last \<open>forward\<close> comes with these values, so the error is part of the value; only a panic is not.
\<close>

definition valued :: "u16 \<Rightarrow> bool \<Rightarrow> ('s, unit) eff \<Rightarrow> ('s, u16 \<times> bool \<times> gerror option) eff" where
  "valued flags ok m = andThen (caught m) (\<lambda>err. return (flags, ok, err))"

lemma to_client_back [simp]: "ms_back (snd (to_client p s)) = ms_back s"
  by (simp add: to_client_def split: prod.splits)

lemma to_client_keeps: "to_client p s = (r, s') \<Longrightarrow> ms_back s' = ms_back s"
  using to_client_back[of p s] by simp

lemma cycle_read_back: "cycle_read s = (Inr p, s') \<Longrightarrow> length (ms_back s') < length (ms_back s)"
  by (auto simp: cycle_read_def andThen_def mysql_receive_def split: list.splits sum.splits if_splits)

function result_rows :: "bool \<Rightarrow> ('h, 'p) my_session
    \<Rightarrow> (u16 \<times> bool \<times> gerror option) result \<times> ('h, 'p) my_session" where
  "result_rows modern s =
     (case cycle_read s of
        (Inl e, s1) \<Rightarrow> valued 0 False (fail e) s1
      | (Inr p, s1) \<Rightarrow>
          if pk_body p = [] then fail (Panic ''index out of range'') s1
          else if hd (pk_body p) = 0xff then valued 0 False (to_client p) s1
          else let (flags, ok) = eofStatus (pk_body p) modern in
            if ok then
              (if flags AND 8 \<noteq> 0 then valued 0 False (fail ErrProtocol) s1
               else valued flags True (to_client p) s1)
            else case to_client p s1 of
              (Inl e, s2) \<Rightarrow> valued 0 False (fail e) s2
            | (Inr _, s2) \<Rightarrow> result_rows modern s2)"
  by pat_completeness auto
termination
  by (relation "measure (\<lambda>(modern, s). length (ms_back s))")
    (auto dest!: cycle_read_back[OF sym] to_client_keeps[OF sym])

declare result_rows.simps [simp del]

definition cycle_result :: "bool \<Rightarrow> packet \<Rightarrow> (('h, 'p) my_session, u16 \<times> bool \<times> gerror option) eff" where
  "cycle_result modern first =
     (let (n, _, ok) = lenenc (pk_body first) in
      if \<not> ok \<or> n = 0 \<or> 4096 < n then return (0, False, Some ErrProtocol)
      else andThen (caught (to_client first)) (\<lambda>err.
        if err \<noteq> None then return (0, False, err)
        else andThen (caught (definitions modern (unat n))) (\<lambda>err.
          if err \<noteq> None then return (0, False, err)
          else result_rows modern)))"

subsection \<open>The fault after a confirmed commit\<close>

text \<open>\<open>apply\<close>: whether the acknowledgement is delivered after the fault.\<close>

definition mysql_apply :: "bool \<Rightarrow> fault \<Rightarrow> bool result" where
  "mysql_apply ctx_done f =
     (if f_Action f = ''close_connection'' then Inr False
      else case (if f_Action f = ''hold_response'' then f_MaxDuration f else f_Duration f) of
        None \<Rightarrow> Inl (Panic ''nil pointer dereference'')
      | Some _ \<Rightarrow> if ctx_done then Inr False else Inr (f_Action f = ''delay''))"

definition mysql_commit ::
    "('h, 'p) turn \<Rightarrow> snapshot \<Rightarrow> string \<Rightarrow> (('h, 'p) my_session, bool) eff" where
  "mysql_commit t snap proxyID s =
     (case snapshot_Decide snap proxyID no_metadata (tn_during t (ms_service s)) of
        Inl e \<Rightarrow> (Inl e, s)
      | Inr (sv, d, _) \<Rightarrow>
          let e1 = with_decision d (ms_event s);
              s1 = s\<lparr>ms_service := sv, ms_event := e1, ms_events := ms_events s @ [e1]\<rparr>
          in if \<not> de_Selected d then (Inr True, s1)
             else let e2 = with_applied e1;
                      s2 = s1\<lparr>ms_event := e2, ms_events := ms_events s1 @ [e2]\<rparr>
                  in (mysql_apply (tn_done t) (de_Fault d), s2))"

subsection \<open>A turn of the loop\<close>

text \<open>What the session does with a packet of the client before anything is sent.\<close>

datatype verdict = Quit | Refuse | Proceed statement

definition check_command :: "packet \<Rightarrow> (u32 \<times> statement) list \<Rightarrow> verdict" where
  "check_command p statements =
     (let b = pk_body p; command = hd b in
      if command = 1 then Quit
      else if command = 3 \<or> command = 0x16 then
        let kind = classify (tl b) in
        if kind = unsupported then Refuse
        else if command = 0x16 \<and> 128 \<le> length statements then Refuse
        else Proceed kind
      else if command = 0x17 then
        if length b < 10 \<or> b ! 5 \<noteq> 0 \<or> le32 (drop 6 b) \<noteq> 1 then Refuse
        else (case map_of statements (le32 (drop 1 b)) of
            None \<Rightarrow> Refuse
          | Some kind \<Rightarrow> Proceed kind)
      else if command = 0x19 \<or> command = 0x1a then
        if length b \<noteq> 5 then Refuse else Proceed ordinary
      else if command = 2 \<or> command = 0x0e \<or> command = 0x1f then Proceed ordinary
      else Refuse)"

text \<open>The answer to a prepared statement: the statement, its parameters, its columns.\<close>

definition answer_prepare :: "bool \<Rightarrow> statement \<Rightarrow> packet \<Rightarrow> (('h, 'p) my_session, unit) eff" where
  "answer_prepare modern kind first =
     (if length (pk_body first) \<noteq> 12 \<or> hd (pk_body first) \<noteq> 0 then fail ErrProtocol
      else let id = le32 (drop 1 (pk_body first)) in
       andThen (gets ms_statements) (\<lambda>statements.
         if map_of statements id \<noteq> None then fail ErrProtocol
         else andThen (to_client first) (\<lambda>_.
           andThen (definitions modern (unat (le16 (drop 7 (pk_body first))))) (\<lambda>_.
           andThen (definitions modern (unat (le16 (drop 5 (pk_body first))))) (\<lambda>_.
           modify (\<lambda>s. s\<lparr>ms_statements := AList.update id kind (ms_statements s)\<rparr>))))))"

text \<open>The variables of the session after an OK packet with these status flags.\<close>

definition after_ok :: "byte \<Rightarrow> statement \<Rightarrow> u16 \<Rightarrow> ('h, 'p) my_session \<Rightarrow> ('h, 'p) my_session" where
  "after_ok command kind status s =
     (let t1 = (if status AND 1 = 0 \<or> kind = rollback then False else ms_transaction s);
          t2 = (if kind = begin_tx then status AND 1 \<noteq> 0 else t1)
      in if command = 0x1f then s\<lparr>ms_transaction := False, ms_statements := []\<rparr>
         else s\<lparr>ms_transaction := t2\<rparr>)"

definition answer_ok ::
    "('h, 'p) turn \<Rightarrow> snapshot \<Rightarrow> string \<Rightarrow> byte \<Rightarrow> statement \<Rightarrow> packet \<Rightarrow> (('h, 'p) my_session, unit) eff" where
  "answer_ok t snap proxyID command kind first =
     (let (status, ok) = okStatus (pk_body first) in
      if \<not> ok \<or> status AND 8 \<noteq> 0 then fail ErrProtocol
      else andThen (gets (\<lambda>s. kind = commit \<and> ms_transaction s \<and> status AND 1 = 0)) (\<lambda>confirmed.
        andThen (modify (after_ok command kind status)) (\<lambda>_.
        andThen (if confirmed then mysql_commit t snap proxyID else return True) (\<lambda>deliver.
          if \<not> deliver then
            andThen (modify (\<lambda>s. s\<lparr>ms_outcome := ''commit_ack_lost''\<rparr>)) (\<lambda>_. fail ErrProtocol)
          else to_client first))))"

definition answer_result :: "bool \<Rightarrow> packet \<Rightarrow> (('h, 'p) my_session, unit) eff" where
  "answer_result modern first =
     andThen (cycle_result modern first) (\<lambda>(status, ok, err).
       andThen (modify (\<lambda>s. if \<not> ok \<or> status AND 1 = 0 then s\<lparr>ms_transaction := False\<rparr> else s)) (\<lambda>_.
         case err of None \<Rightarrow> return () | Some e \<Rightarrow> fail e))"

text \<open>The function literal of \<open>exchange\<close>: one command, and its answer.\<close>

definition cycle_answer ::
    "('h, 'p) turn \<Rightarrow> snapshot \<Rightarrow> string \<Rightarrow> bool \<Rightarrow> byte \<Rightarrow> statement \<Rightarrow> (('h, 'p) my_session, unit) eff" where
  "cycle_answer t snap proxyID modern command kind =
     andThen (modify (\<lambda>s. s\<lparr>ms_seq := 1\<rparr>)) (\<lambda>_.
     andThen cycle_read (\<lambda>first.
     andThen (byte_at 0 (pk_body first)) (\<lambda>b0.
       if b0 = 0xff then
         andThen (modify (\<lambda>s. s\<lparr>ms_transaction := False, ms_outcome := ''upstream_error''\<rparr>))
           (\<lambda>_. to_client first)
       else if command = 0x16 then answer_prepare modern kind first
       else if b0 = 0xfb then fail ErrProtocol
       else if b0 = 0 then answer_ok t snap proxyID command kind first
       else answer_result modern first)))"

definition mysql_cycle ::
    "('h, 'p) turn \<Rightarrow> snapshot \<Rightarrow> string \<Rightarrow> bool \<Rightarrow> packet \<Rightarrow> statement \<Rightarrow> (('h, 'p) my_session, unit) eff" where
  "mysql_cycle t snap proxyID modern p kind =
     (let command = hd (pk_body p) in
      andThen (to_upstream p) (\<lambda>_.
        if command = 0x19 then
          modify (\<lambda>s. s\<lparr>ms_statements := AList.delete (le32 (drop 1 (pk_body p))) (ms_statements s)\<rparr>)
        else cycle_answer t snap proxyID modern command kind))"

definition start_event :: "('h, 'p) turn \<Rightarrow> snapshot \<Rightarrow> string \<Rightarrow> event" where
  "start_event t snap proxyID = (new_event (sn_info snap) ''flow_started'')\<lparr>ev_FlowID := tn_flow t,
     ev_ProxyID := proxyID, ev_Protocol := ''mysql'', ev_StartedAt := tn_started t\<rparr>"

definition finish_event :: "('h, 'p) turn \<Rightarrow> gerror option \<Rightarrow> ('h, 'p) my_session \<Rightarrow> ('h, 'p) my_session" where
  "finish_event t err s =
     (let outcome = (if err \<noteq> None \<and> ms_outcome s = ''forwarded'' then ''connection_closed'' else ms_outcome s);
          e = (ms_event s)\<lparr>ev_Type := ''flow_finished'', ev_Outcome := outcome, ev_FinishedAt := tn_finished t\<rparr>
      in s\<lparr>ms_outcome := outcome, ms_event := e, ms_events := ms_events s @ [e]\<rparr>)"

text \<open>One turn of the loop; the value says whether there is a next one.\<close>

definition exchange_turn :: "string \<Rightarrow> u32 \<Rightarrow> ('h, 'p) turn \<Rightarrow> (('h, 'p) my_session, bool) eff" where
  "exchange_turn proxyID flags t = (case tn_packet t of
      Inl _ \<Rightarrow> return False
    | Inr p \<Rightarrow>
        if pk_seq p \<noteq> 0 then andThen (mysql_reject 1) (\<lambda>_. return False)
        else if pk_body p = [] then fail (Panic ''index out of range'')
        else andThen (gets ms_statements) (\<lambda>statements.
          case check_command p statements of
            Quit \<Rightarrow> return False
          | Refuse \<Rightarrow> andThen (mysql_reject 1) (\<lambda>_. return False)
          | Proceed kind \<Rightarrow>
              andThen (modify (\<lambda>s. s\<lparr>ms_service := tn_before t (ms_service s)\<rparr>)) (\<lambda>_.
              andThen (gets (\<lambda>s. Acquire (ms_service s))) (\<lambda>snap.
              let e = start_event t snap proxyID in
              andThen (modify (\<lambda>s. s\<lparr>ms_event := e, ms_outcome := ''forwarded'', ms_events := ms_events s @ [e]\<rparr>)) (\<lambda>_.
              andThen (caught (mysql_cycle t snap proxyID (flags AND capDeprecateEOF \<noteq> 0) p kind)) (\<lambda>err.
              andThen (modify (finish_event t err)) (\<lambda>_. return (err = None))))))))"

text \<open>The loop over the turns that have happened so far: whether the session goes on.\<close>

fun mysql_exchange :: "string \<Rightarrow> u32 \<Rightarrow> ('h, 'p) turn list \<Rightarrow> (('h, 'p) my_session, bool) eff" where
  "mysql_exchange proxyID flags [] = return True"
| "mysql_exchange proxyID flags (t # ts) =
     andThen (exchange_turn proxyID flags t) (\<lambda>next.
       if next then mysql_exchange proxyID flags ts else return False)"

end
