(* ===== verification/Engine_Correct.thy ===== *)
theory Engine_Correct
  imports Engine Validate_Correct
begin

text \<open>
  Correctness of the engine: the meaning of a path pattern, the rule a request falls under, a
  closed form of a rule state after \<open>k\<close> attempts, and what a whole sequence of requests makes of
  an engine that was built from a validated document.
\<close>

section \<open>Path patterns\<close>

definition segment_matches :: "string \<Rightarrow> string \<Rightarrow> bool" where
  "segment_matches want got = (if hasPrefix want '':'' then got \<noteq> [] else want = got)"

lemma split_cut:
  "split c s = (let (a, rest, more) = cut c s in if more then a # split c rest else [a])"
proof (induction s)
  case (Cons x xs)
  have ne: "split c xs \<noteq> []" for xs :: "'a list" by (induction xs) (auto split: list.splits)
  show ?case
    using Cons ne[of xs] by (auto simp: cut_def split: list.splits if_splits)
qed (simp add: cut_def)

lemma matchesPathPattern_iff:
  "matchesPathPattern pattern path
     \<longleftrightarrow> list_all2 segment_matches (split (CHR ''/'') pattern) (split (CHR ''/'') path)"
proof (induction pattern path rule: matchesPathPattern.induct)
  case (1 pattern path)
  obtain a r m where c: "cut (CHR ''/'') pattern = (a, r, m)" by (cases "cut (CHR ''/'') pattern") auto
  obtain b q n where d: "cut (CHR ''/'') path = (b, q, n)" by (cases "cut (CHR ''/'') path") auto
  have ne: "split x s \<noteq> []" for x :: char and s by (subst split_cut) (auto simp: Let_def split: prod.splits)
  have L: "matchesPathPattern pattern path \<longleftrightarrow>
      segment_matches a b \<and> m = n \<and> (m \<longrightarrow> matchesPathPattern r q)"
    by (subst matchesPathPattern.simps) (auto simp: c d segment_matches_def[of a b])
  have IH: "segment_matches a b \<Longrightarrow> m \<Longrightarrow> n \<Longrightarrow> matchesPathPattern r q
      \<longleftrightarrow> list_all2 segment_matches (split (CHR ''/'') r) (split (CHR ''/'') q)"
    using 1[of "(a, r, m)" a "(r, m)" r m "(b, q, n)" b "(q, n)" q n] c d
    by (auto simp: segment_matches_def[of a b] split: if_splits)
  have S: "split (CHR ''/'') pattern = (if m then a # split (CHR ''/'') r else [a])"
    "split (CHR ''/'') path = (if n then b # split (CHR ''/'') q else [b])"
    using split_cut[of "CHR ''/''" pattern] split_cut[of "CHR ''/''" path] c d by simp_all
  show ?case
    using L IH by (cases m; cases n) (auto simp: S ne)
qed

lemma matches_query:
  "matches m (md\<lparr>md_Path := p @ ''?'' @ q\<rparr>) = matches m (md\<lparr>md_Path := p\<rparr>)"
proof -
  have "takeWhile (\<lambda>c. c \<noteq> CHR ''?'') (p @ CHR ''?'' # q) = takeWhile (\<lambda>c. c \<noteq> CHR ''?'') p"
    by (induction p) auto
  moreover have "header_found (md\<lparr>md_Path := s\<rparr>) = header_found md" for s
    by (simp add: fun_eq_iff header_found_def)
  ultimately show ?thesis by (simp add: matches_def cut_def Let_def)
qed

section \<open>Attempts\<close>

fun attempts :: "nat \<Rightarrow> rule_state \<Rightarrow> rule_state result" where
  "attempts 0 s = Inr s"
| "attempts (Suc n) s = (case attempts n s of
      Inl err \<Rightarrow> Inl err
    | Inr s' \<Rightarrow> (case attempt s' of Inl err \<Rightarrow> Inl err | Inr (s'', _) \<Rightarrow> Inr s''))"

lemma attempts_Suc_front:
  "attempts (Suc n) s = (case attempt s of Inl err \<Rightarrow> Inl err | Inr (s', _) \<Rightarrow> attempts n s')"
  by (induction n) (auto split: sum.splits)

lemma attempt_rule [simp]: "attempt s = Inr (s', k, b) \<Longrightarrow> rs_rule s' = rs_rule s"
  by (auto simp: attempt_def Let_def split: sum.splits)

lemma attempts_rule: "attempts n s = Inr s' \<Longrightarrow> rs_rule s' = rs_rule s"
  by (induction n arbitrary: s') (auto split: sum.splits)

text \<open>A rule whose selector was validated can always be attempted.\<close>

definition state_ok :: "rule_state \<Rightarrow> bool" where
  "state_ok s \<longleftrightarrow> (\<exists>x. selection_ok x \<and> r_Select (rs_rule s) = selection_selector x)"

lemma attempt_ok:
  assumes "state_ok s"
  shows "\<exists>s' k b. attempt s = Inr (s', k, b) \<and> state_ok s'"
proof -
  from assms obtain x where x: "selection_ok x" "r_Select (rs_rule s) = selection_selector x"
    by (auto simp: state_ok_def)
  then have "\<exists>b q. selectAttempt s k = Inr (b, q)" for k
    by (cases x) (auto simp: zero_selector_def selectAttempt_def Let_def split: prod.splits)
  then obtain b q where "selectAttempt s (cn_Eligible (rs_counters s) + 1) = Inr (b, q)" by blast
  with assms show ?thesis by (auto simp: attempt_def Let_def state_ok_def)
qed

text \<open>The outcome of attempt number \<open>k\<close>, where the generator has been advanced \<open>k - 1\<close> times.\<close>

definition attempt_outcome :: "selection \<Rightarrow> pcg \<Rightarrow> nat \<Rightarrow> bool" where
  "attempt_outcome x g k = (case x of
      Nth n \<Rightarrow> k = unat n
    | Every n \<Rightarrow> unat n dvd k
    | Probability p \<Rightarrow> p \<noteq> 0 \<and> (p = 1 \<or> fl_less (fst (pcg_Float64 ((pcg_next ^^ (k - 1)) g))) (Fin p)))"

definition draws :: "selection \<Rightarrow> bool" where
  "draws x = (case x of Probability p \<Rightarrow> p \<noteq> 0 \<and> p \<noteq> 1 | _ \<Rightarrow> False)"

lemma snd_pcg_Float64 [simp]: "snd (pcg_Float64 g) = pcg_next g"
  by (simp add: pcg_Float64_def pcg_Uint64_def Let_def)

lemma attempts_closed_form:
  assumes x: "selection_ok x" "r_Select (rs_rule s) = selection_selector x"
    and z: "rs_counters s = zero_counters" and k: "k < 2 ^ 64"
  shows "attempts k s = Inr (s\<lparr>rs_counters := \<lparr>cn_Eligible = of_nat k,
      cn_Selected = of_nat (card {i \<in> {1..k}. attempt_outcome x (rs_random s) i})\<rparr>,
      rs_random := (if draws x then (pcg_next ^^ k) (rs_random s) else rs_random s)\<rparr>)"
  using k
proof (induction k)
  case 0
  with z show ?case by (simp add: zero_counters_def)
next
  case (Suc k)
  have un: "unat (of_nat (Suc k) :: u64) = Suc k" using Suc.prems by (simp add: unat_of_nat del: of_nat_Suc)
  have sel: "selectAttempt (s\<lparr>rs_counters := c, rs_random := (if draws x then (pcg_next ^^ k) (rs_random s)
        else rs_random s)\<rparr>) (of_nat (Suc k))
      = Inr (attempt_outcome x (rs_random s) (Suc k),
          if draws x then (pcg_next ^^ Suc k) (rs_random s) else rs_random s)" for c
  proof (cases x)
    case (Nth n)
    have "(of_nat (Suc k) :: u64) = n \<longleftrightarrow> Suc k = unat n"
      by (simp only: word_unat_eq_iff un)
    then show ?thesis using x Nth
      by (simp add: zero_selector_def selectAttempt_def attempt_outcome_def draws_def del: of_nat_Suc)
  next
    case (Every n)
    have "(of_nat (Suc k) :: u64) mod n = 0 \<longleftrightarrow> unat n dvd Suc k"
      by (metis un unat_mod_distrib dvd_eq_mod_eq_0 unat_eq_zero)
    then show ?thesis using x Every
      by (simp add: zero_selector_def selectAttempt_def attempt_outcome_def draws_def del: of_nat_Suc)
  next
    case (Probability p)
    then show ?thesis using x
      by (auto simp: zero_selector_def selectAttempt_def attempt_outcome_def draws_def fl_eq0_def split: prod.splits)
        (metis snd_conv snd_pcg_Float64)+
  qed
  let ?N = "\<lambda>k. card {i \<in> {1..k}. attempt_outcome x (rs_random s) i}"
  have "{i \<in> {1..Suc k}. attempt_outcome x g i} = (if attempt_outcome x g (Suc k)
      then insert (Suc k) {i \<in> {1..k}. attempt_outcome x g i} else {i \<in> {1..k}. attempt_outcome x g i})" for g
    by (auto simp: le_Suc_eq)
  then have N: "?N (Suc k) = (if attempt_outcome x (rs_random s) (Suc k) then Suc (?N k) else ?N k)"
    by simp
  let ?s = "\<lambda>k. s\<lparr>rs_counters := \<lparr>cn_Eligible = of_nat k, cn_Selected = of_nat (?N k)\<rparr>,
      rs_random := (if draws x then (pcg_next ^^ k) (rs_random s) else rs_random s)\<rparr>"
  have "selectAttempt (?s k) (of_nat (Suc k)) = Inr (attempt_outcome x (rs_random s) (Suc k),
      if draws x then (pcg_next ^^ Suc k) (rs_random s) else rs_random s)"
    by (rule sel)
  then have "attempt (?s k) = Inr (?s (Suc k), of_nat (Suc k), attempt_outcome x (rs_random s) (Suc k))"
    unfolding attempt_def N by (simp add: Let_def add.commute del: funpow.simps)
  moreover have "attempts k s = Inr (?s k)" using Suc by simp
  ultimately show ?case by (simp only: attempts.simps sum.case prod.case)
qed

section \<open>Requests\<close>

text \<open>The rule a request falls under, as a position; it depends on the rules alone.\<close>

fun first_match :: "metadata \<Rightarrow> rule list \<Rightarrow> nat option" where
  "first_match md [] = None"
| "first_match md (r # rs) =
     (if r_Enabled r \<and> matches (r_Match r) md then Some 0 else map_option Suc (first_match md rs))"

lemma first_match_Some:
  "first_match md rs = Some i \<longleftrightarrow> i < length rs \<and> r_Enabled (rs ! i) \<and> matches (r_Match (rs ! i)) md
     \<and> (\<forall>j < i. \<not> (r_Enabled (rs ! j) \<and> matches (r_Match (rs ! j)) md))"
proof (induction rs arbitrary: i)
  case (Cons r rs)
  show ?case by (cases i) (auto simp: Cons All_less_Suc2)
qed simp

lemma first_match_None:
  "first_match md rs = None \<longleftrightarrow> list_all (\<lambda>r. \<not> (r_Enabled r \<and> matches (r_Match r) md)) rs"
  by (induction rs) auto

lemma decide_rules_eq:
  "decide_rules md ss = (case first_match md (map rs_rule ss) of
      None \<Rightarrow> Inr (ss, None)
    | Some i \<Rightarrow> (case attempt (ss ! i) of
        Inl err \<Rightarrow> Inl err
      | Inr (s', k, b) \<Rightarrow> Inr (ss[i := s'], Some (s', k, b))))"
  by (induction ss) (auto split: option.splits sum.splits)

lemma Decide_eq:
  assumes "e pid = Some ss"
  shows "Decide e pid md True = (case first_match md (map rs_rule ss) of
      None \<Rightarrow> Inr (e, zero_decision pid, None)
    | Some i \<Rightarrow> (case attempt (ss ! i) of
        Inl err \<Rightarrow> Inl err
      | Inr (s', k, b) \<Rightarrow> Inr (e(pid \<mapsto> ss[i := s']),
          \<lparr>de_ProxyID = pid, de_RuleID = r_ID (rs_rule (ss ! i)), de_EligibleSequence = k,
           de_Selected = b, de_Selector = r_Select (rs_rule (ss ! i)),
           de_Fault = r_Fault (rs_rule (ss ! i))\<rparr>, None)))"
  using assms by (auto simp: Decide_def decide_rules_eq fun_upd_idem split: option.splits sum.splits)

type_synonym request = "string \<times> metadata \<times> bool"

definition decide_step :: "request \<Rightarrow> engine \<Rightarrow> engine result" where
  "decide_step rq e = (case rq of (pid, md, enabled) \<Rightarrow>
     (case Decide e pid md enabled of Inl err \<Rightarrow> Inl err | Inr (e', _) \<Rightarrow> Inr e'))"

definition engine_ok :: "engine \<Rightarrow> bool" where
  "engine_ok e \<longleftrightarrow> (\<forall>pid ss. e pid = Some ss \<longrightarrow> list_all state_ok ss)"

interpretation decisions: machine decide_step engine_ok
proof unfold_locales
  fix rq :: request and e assume ok: "engine_ok e"
  obtain pid md en where rq: "rq = (pid, md, en)" by (cases rq) auto
  show "\<exists>e'. decide_step rq e = Inr e' \<and> engine_ok e'"
  proof (cases "e pid")
    case (Some ss)
    have ss: "list_all state_ok ss" using ok Some by (auto simp: engine_ok_def)
    show ?thesis
    proof (cases "en \<and> first_match md (map rs_rule ss) \<noteq> None")
      case True
      then obtain i where en: en and i: "first_match md (map rs_rule ss) = Some i" by auto
      then have "i < length ss" by (simp add: first_match_Some)
      with ss have "state_ok (ss ! i)" by (simp add: list_all_length)
      then obtain s' k b where "attempt (ss ! i) = Inr (s', k, b)" "state_ok s'"
        using attempt_ok by blast
      moreover have "list_all state_ok (ss[i := s'])"
        using ss \<open>state_ok s'\<close> by (auto simp: list_all_iff dest: set_update_subset_insert[THEN subsetD])
      ultimately show ?thesis
        using ok en i Some by (auto simp: decide_step_def rq Decide_eq engine_ok_def)
    next
      case False
      then show ?thesis
        using ok Some by (auto simp: decide_step_def rq Decide_def decide_rules_eq fun_upd_idem)
    qed
  qed (use ok in \<open>simp add: decide_step_def rq Decide_def\<close>)
qed

text \<open>How many of the requests fall under the rule at position \<open>i\<close> of a proxy.\<close>

definition hits :: "string \<Rightarrow> rule list \<Rightarrow> nat \<Rightarrow> request list \<Rightarrow> nat" where
  "hits pid rs i rqs =
     length (filter (\<lambda>(p, md, enabled). p = pid \<and> enabled \<and> first_match md rs = Some i) rqs)"

lemma decide_step_states:
  assumes "decide_step (p, md, en) e = Inr e'" "e pid = Some ss"
  shows "\<exists>ss'. e' pid = Some ss' \<and> map rs_rule ss' = map rs_rule ss
     \<and> (\<forall>i < length ss. attempts (hits pid (map rs_rule ss) i [(p, md, en)]) (ss ! i) = Inr (ss' ! i))"
proof (cases "p = pid \<and> en \<and> first_match md (map rs_rule ss) \<noteq> None")
  case True
  then obtain i where i: "p = pid" en "first_match md (map rs_rule ss) = Some i" by auto
  then obtain s' k b where a: "attempt (ss ! i) = Inr (s', k, b)" "e' = e(pid \<mapsto> ss[i := s'])"
    using assms by (auto simp: decide_step_def Decide_eq split: sum.splits)
  have "i < length ss" using i by (simp add: first_match_Some)
  then have "map rs_rule (ss[i := s']) = map rs_rule ss"
    using a(1) by (simp add: map_update list_update_same_conv)
  then show ?thesis
    using a i \<open>i < length ss\<close> by (auto simp: hits_def nth_list_update)
next
  case False
  then have "e' pid = Some ss"
    using assms by (cases en)
      (auto simp: decide_step_def Decide_def decide_rules_eq split: option.splits sum.splits)
  then show ?thesis using False by (auto simp: hits_def)
qed

lemma attempts_add: "attempts m s = Inr s1 \<Longrightarrow> attempts n s1 = Inr s2 \<Longrightarrow> attempts (m + n) s = Inr s2"
  by (induction n arbitrary: s2) (auto split: sum.splits)

lemma run_states:
  assumes "run_ops decide_step rqs e = Inr e'" "e pid = Some ss"
  shows "\<exists>ss'. e' pid = Some ss' \<and> map rs_rule ss' = map rs_rule ss
     \<and> (\<forall>i < length ss. attempts (hits pid (map rs_rule ss) i rqs) (ss ! i) = Inr (ss' ! i))"
  using assms
proof (induction rqs arbitrary: e ss)
  case Nil
  then show ?case by (simp add: hits_def)
next
  case (Cons rq rqs)
  then obtain e1 where e1: "decide_step rq e = Inr e1" "run_ops decide_step rqs e1 = Inr e'"
    by (auto split: sum.splits)
  obtain p md en where rq: "rq = (p, md, en)" by (cases rq) auto
  obtain ss1 where s1: "e1 pid = Some ss1" "map rs_rule ss1 = map rs_rule ss"
    "\<And>i. i < length ss \<Longrightarrow> attempts (hits pid (map rs_rule ss) i [rq]) (ss ! i) = Inr (ss1 ! i)"
    using decide_step_states[OF e1(1)[unfolded rq] Cons.prems(2)] rq by auto
  obtain ss2 where s2: "e' pid = Some ss2" "map rs_rule ss2 = map rs_rule ss1"
    "\<And>i. i < length ss1 \<Longrightarrow> attempts (hits pid (map rs_rule ss1) i rqs) (ss1 ! i) = Inr (ss2 ! i)"
    using Cons.IH[OF e1(2) s1(1)] by auto
  have len: "length ss1 = length ss" using s1(2) map_eq_imp_length_eq by blast
  have "hits pid rs i (rq # rqs) = hits pid rs i [rq] + hits pid rs i rqs" for rs i
    by (simp add: hits_def)
  then show ?case using s1 s2 attempts_add by (auto simp: len)
qed

section \<open>Engines made from documents\<close>

lemma fold_upd_lookup:
  assumes "distinct (map f ps)" "p \<in> set ps"
  shows "fold (\<lambda>p e. e(f p \<mapsto> g p)) ps e0 (f p) = Some (g p)"
  using assms
proof (induction ps arbitrary: e0)
  case (Cons q ps)
  have other: "fold (\<lambda>p e. e(f p \<mapsto> g p)) ps e k = e k" if "k \<notin> f ` set ps" for e k
    using that by (induction ps arbitrary: e) auto
  show ?case
  proof (cases "p = q")
    case True
    with Cons.prems other[of "f q" "e0(f q \<mapsto> g q)"] show ?thesis by (simp del: fun_upd_apply) simp
  next
    case False
    with Cons show ?thesis by simp
  qed
qed simp

lemma New_lookup:
  assumes "New sha256 (Some doc) = Inr e" "distinct (map p_ID (c_Proxies (d_config doc)))"
    "p \<in> set (c_Proxies (d_config doc))"
  shows "e (p_ID p) = Some (map (new_state sha256 (c_Seed (d_config doc)) (p_ID p)) (p_Rules p))"
  using assms fold_upd_lookup[of p_ID "c_Proxies (d_config doc)" p]
  by (auto simp: New_def Let_def split: if_splits)

lemma new_state_fields [simp]:
  "rs_rule (new_state sha256 seed pid r) = r" "rs_counters (new_state sha256 seed pid r) = zero_counters"
  by (simp_all add: new_state_def Let_def)

lemma New_engine_ok:
  assumes "New sha256 (Some doc) = Inr e" "config_ok (d_config doc)"
  shows "engine_ok e"
proof -
  let ?c = "d_config doc"
  let ?f = "\<lambda>p e. e(p_ID p \<mapsto> map (new_state sha256 (c_Seed ?c) (p_ID p)) (p_Rules p))"
  have rule: "state_ok (new_state sha256 seed pid r)"
    if "p \<in> set (c_Proxies ?c)" "r \<in> set (p_Rules p)" for p r seed pid
  proof -
    have ok: "rule_ok (p_Protocol p) r" "norm_rule_of (p_Protocol p) r = r"
      using assms(2) that by (auto simp: config_ok_def proxy_ok_def list_all_iff)
    have "r_Select (norm_rule_of (p_Protocol p) r) = norm_selector (r_Select r)"
      by (simp add: norm_rule_of_def norm_rule_def norm_commit_rule_def norm_tcp_rule_def)
    with ok show ?thesis by (simp add: state_ok_def rule_ok_def selector_ok_def)
  qed
  have "engine_ok (fold ?f ps e0)" if "engine_ok e0" "set ps \<subseteq> set (c_Proxies ?c)" for ps e0
    using that
  proof (induction ps arbitrary: e0)
    case (Cons p ps)
    then have "engine_ok (?f p e0)" using rule by (auto simp: engine_ok_def list_all_iff)
    moreover have "set ps \<subseteq> set (c_Proxies ?c)" using Cons.prems(2) by simp
    ultimately have "engine_ok (fold ?f ps (?f p e0))" by (rule Cons.IH)
    then show ?case by (simp only: fold_simps(2))
  qed simp
  from this[of Map.empty "c_Proxies ?c"] assms(1) show ?thesis
    by (auto simp: New_def Let_def engine_ok_def split: if_splits)
qed

lemma card_nth: "0 < (n :: nat) \<Longrightarrow> card {i \<in> {1..k}. i = n} = (if n \<le> k then 1 else 0 :: nat)"
proof -
  assume "0 < n"
  then have "{i \<in> {1..k}. i = n} = (if n \<le> k then {n} else {})" by auto
  then show ?thesis by simp
qed

lemma card_every: "0 < n \<Longrightarrow> card {i \<in> {1..k}. n dvd i} = k div (n :: nat)"
proof (induction k)
  case (Suc k)
  have "{i \<in> {1..Suc k}. n dvd i}
      = (if n dvd Suc k then insert (Suc k) {i \<in> {1..k}. n dvd i} else {i \<in> {1..k}. n dvd i})"
    by (auto simp: le_Suc_eq)
  then show ?case using Suc by (simp add: div_Suc dvd_eq_mod_eq_0)
qed simp

text \<open>The number of the first \<open>k\<close> eligible requests that are selected.\<close>

definition selected_count :: "selection \<Rightarrow> pcg \<Rightarrow> nat \<Rightarrow> nat" where
  "selected_count x g k = (case x of
      Nth n \<Rightarrow> (if unat n \<le> k then 1 else 0)
    | Every n \<Rightarrow> k div unat n
    | Probability p \<Rightarrow> card {i \<in> {1..k}. attempt_outcome (Probability p) g i})"

lemma selected_count_card:
  "selection_ok x \<Longrightarrow> card {i \<in> {1..k}. attempt_outcome x g i} = selected_count x g k"
  using card_nth[of "unat n" k for n] card_every[of "unat n" k for n]
  by (cases x) (simp_all only: selected_count_def attempt_outcome_def selection.case selection_ok.simps unat_gt_0)

lemma find_nth_distinct:
  assumes "distinct (map f xs)" "i < length xs"
  shows "find (\<lambda>x. f x = f (xs ! i)) xs = Some (xs ! i)"
  using assms
proof (induction xs arbitrary: i)
  case (Cons x xs)
  then show ?case by (cases i) (auto simp: image_iff dest: nth_mem)
qed simp

lemma engine_run_state:
  assumes "New sha256 (Some doc) = Inr e" "distinct (map p_ID (c_Proxies (d_config doc)))"
    "p \<in> set (c_Proxies (d_config doc))" "i < length (p_Rules p)"
    "run_ops decide_step rqs e = Inr e'"
  shows "\<exists>ss. e' (p_ID p) = Some ss \<and> map rs_rule ss = p_Rules p
    \<and> attempts (hits (p_ID p) (p_Rules p) i rqs)
        (new_state sha256 (c_Seed (d_config doc)) (p_ID p) (p_Rules p ! i)) = Inr (ss ! i)"
  using run_states[OF assms(5) New_lookup[OF assms(1-3)]] assms(4) by (fastforce simp: comp_def)

lemma engine_run_counters:
  assumes n: "New sha256 (Some doc) = Inr e" "distinct (map p_ID (c_Proxies (d_config doc)))"
    "p \<in> set (c_Proxies (d_config doc))" "i < length (p_Rules p)"
    and run: "run_ops decide_step rqs e = Inr e'"
    and ids: "distinct (map r_ID (p_Rules p))"
    and x: "selection_ok x" "r_Select (p_Rules p ! i) = selection_selector x"
    and k: "hits (p_ID p) (p_Rules p) i rqs < 2 ^ 64"
  shows "Counters e' (p_ID p) (r_ID (p_Rules p ! i)) =
     (\<lparr>cn_Eligible = of_nat (hits (p_ID p) (p_Rules p) i rqs),
       cn_Selected = of_nat (selected_count x
         (rs_random (new_state sha256 (c_Seed (d_config doc)) (p_ID p) (p_Rules p ! i)))
         (hits (p_ID p) (p_Rules p) i rqs))\<rparr>, True)"
proof -
  let ?s = "new_state sha256 (c_Seed (d_config doc)) (p_ID p) (p_Rules p ! i)"
  let ?k = "hits (p_ID p) (p_Rules p) i rqs"
  obtain ss where ss: "e' (p_ID p) = Some ss" "map rs_rule ss = p_Rules p"
    "attempts ?k ?s = Inr (ss ! i)"
    using engine_run_state[OF n run] by blast
  have len: "length ss = length (p_Rules p)" using ss(2) by (metis length_map)
  have rule: "rs_rule (ss ! i) = p_Rules p ! i" using ss(2) n(4) len by (metis nth_map)
  have "distinct (map (\<lambda>s. r_ID (rs_rule s)) ss)"
    using ids ss(2) by (metis (no_types, lifting) comp_def map_eq_conv map_map)
  from find_nth_distinct[OF this, of i] n(4) len rule
  have "find (\<lambda>s. r_ID (rs_rule s) = r_ID (p_Rules p ! i)) ss = Some (ss ! i)" by simp
  then show ?thesis
    using ss(1,3) attempts_closed_form[OF x(1), of ?s ?k] x k
    by (simp add: Counters_def selected_count_card[symmetric])
qed

section \<open>A sample engine\<close>

definition demo_sha256 :: "bytes \<Rightarrow> bytes" where
  "demo_sha256 d = take 32 (d @ replicate 32 0)"

definition demo_document :: "(config \<times> digests) document" where
  "demo_document = \<lparr>d_config = checked_config, d_valid = True,
     d_fingerprint = (canonical checked_config, demo_digests),
     d_restartFingerprint = (strip_rules (canonical checked_config), demo_digests)\<rparr>"

definition demo_engine :: engine where
  "demo_engine = [''api'' \<mapsto> map (new_state demo_sha256 1 ''api'') (p_Rules checked_proxy)]"

definition demo_request :: request where
  "demo_request = (''api'', \<lparr>md_Method = ''GET'', md_Service = [], md_Path = ''/pay?id=1'', md_Headers = []\<rparr>, True)"

lemma demo_New: "New demo_sha256 (Some demo_document) = Inr demo_engine"
  by (simp add: New_def Valid_def demo_document_def checked_config_def demo_config_def checked_proxy_def
      demo_proxy_def demo_engine_def)

lemma demo_ids:
  "distinct (map p_ID (c_Proxies (d_config demo_document)))" "checked_proxy \<in> set (c_Proxies (d_config demo_document))"
  by (simp_all add: demo_document_def checked_config_def)

lemma demo_engine_ok: "engine_ok demo_engine"
  using New_engine_ok[OF demo_New] validate_config_ok[OF demo_validates] by (simp add: demo_document_def)

lemma demo_hits: "hits (p_ID checked_proxy) (p_Rules checked_proxy) 0 [demo_request, demo_request, demo_request] = 3"
  by (simp add: hits_def demo_request_def checked_proxy_def demo_proxy_def demo_rule_def matches_def cut_def
      zero_matcher_def headers_of_def)

text \<open>C11. A request on a proxy that is switched on falls under the first rule that is enabled and
  matches; that rule alone is attempted, every other rule keeps its state, and the decision
  reports that rule. When no rule matches nothing changes.\<close>

theorem Decide_exact:
  assumes "e pid = Some ss"
  shows "Decide e pid md True = (case first_match md (map rs_rule ss) of
      None \<Rightarrow> Inr (e, zero_decision pid, None)
    | Some i \<Rightarrow> (case attempt (ss ! i) of
        Inl err \<Rightarrow> Inl err
      | Inr (s', k, b) \<Rightarrow> Inr (e(pid \<mapsto> ss[i := s']),
          \<lparr>de_ProxyID = pid, de_RuleID = r_ID (rs_rule (ss ! i)), de_EligibleSequence = k,
           de_Selected = b, de_Selector = r_Select (rs_rule (ss ! i)),
           de_Fault = r_Fault (rs_rule (ss ! i))\<rparr>, None)))"
  using assms by (rule Decide_eq)

theorem Decide_exact_witness:
  "\<exists>e' d. Decide demo_engine ''api'' (fst (snd demo_request)) True = Inr (e', d, None)
     \<and> de_RuleID d = ''slow'' \<and> de_EligibleSequence d = 1 \<and> \<not> de_Selected d"
proof -
  have "demo_engine ''api'' = Some (map (new_state demo_sha256 1 ''api'') (p_Rules checked_proxy))"
    by (simp add: demo_engine_def)
  from Decide_exact[of demo_engine "''api''" _ "fst (snd demo_request)", OF this] show ?thesis
    by (simp add: demo_request_def checked_proxy_def demo_proxy_def demo_rule_def matches_def cut_def
        zero_matcher_def headers_of_def attempt_def selectAttempt_def zero_selector_def zero_counters_def)
qed

text \<open>C8. An engine made from a document whose configuration was validated never panics: every
  sequence of decisions, for any proxies and requests, runs to its end.\<close>

theorem engine_never_panics:
  assumes "validate env c base = Inr (c', dg)" "newDocument hash c' dg = Inr doc"
  shows "\<exists>e. New sha256 (Some doc) = Inr e \<and> (\<forall>rqs. \<exists>e'. run_ops decide_step rqs e = Inr e')"
proof -
  have doc: "d_config doc = c'" "d_valid doc" using assms(2) by (simp_all add: newDocument_Inr)
  then obtain e where e: "New sha256 (Some doc) = Inr e" by (auto simp: New_def Valid_def Let_def)
  have "engine_ok e" using New_engine_ok[OF e] validate_config_ok[OF assms(1)] doc by simp
  then show ?thesis using e decisions.run_total by blast
qed

theorem engine_never_panics_witness:
  "\<exists>e. New demo_sha256 (Some demo_document) = Inr e
     \<and> (\<forall>rqs. \<exists>e'. run_ops decide_step rqs e = Inr e')"
  by (rule engine_never_panics[OF demo_validates, of "\<lambda>c d. Inr (c, d)"])
    (simp add: newDocument_def demo_document_def)

text \<open>C10. Replay: after any sequence of requests, the state of a rule is what as many attempts as
  there were requests that fell under it make of its initial state, which is a function of the
  seed, the proxy name and the rule. Other rules, other proxies and requests that did not fall
  under the rule have no influence.\<close>

theorem engine_replay:
  assumes "New sha256 (Some doc) = Inr e" "distinct (map p_ID (c_Proxies (d_config doc)))"
    "p \<in> set (c_Proxies (d_config doc))" "i < length (p_Rules p)"
    "run_ops decide_step rqs e = Inr e'"
  shows "\<exists>ss. e' (p_ID p) = Some ss \<and> map rs_rule ss = p_Rules p
    \<and> attempts (hits (p_ID p) (p_Rules p) i rqs)
        (new_state sha256 (c_Seed (d_config doc)) (p_ID p) (p_Rules p ! i)) = Inr (ss ! i)"
  using assms by (rule engine_run_state)

theorem engine_replay_witness:
  "\<exists>e' ss. run_ops decide_step [demo_request, demo_request, demo_request] demo_engine = Inr e'
    \<and> e' ''api'' = Some ss
    \<and> attempts 3 (new_state demo_sha256 1 ''api'' (p_Rules checked_proxy ! 0)) = Inr (ss ! 0)"
proof -
  obtain e' where run: "run_ops decide_step [demo_request, demo_request, demo_request] demo_engine = Inr e'"
    using decisions.run_total[OF demo_engine_ok] by blast
  have len: "0 < length (p_Rules checked_proxy)" by (simp add: checked_proxy_def)
  have f: "p_ID checked_proxy = ''api''" "c_Seed (d_config demo_document) = 1"
    by (simp_all add: checked_proxy_def demo_proxy_def demo_document_def checked_config_def demo_config_def)
  show ?thesis
    using engine_replay[OF demo_New demo_ids len run, unfolded demo_hits, unfolded f] run by blast
qed

text \<open>C9. The counters of a rule after any sequence of requests: as many eligible requests as fell
  under it, and as many selected as its selector promises: for \<open>nth n\<close> one as soon as there were
  \<open>n\<close>, for \<open>every n\<close> each \<open>n\<close>-th, for a probability those whose draw from the rule's own generator
  was below it (none for 0, all for 1).\<close>

theorem engine_counters:
  assumes "New sha256 (Some doc) = Inr e" "distinct (map p_ID (c_Proxies (d_config doc)))"
    "p \<in> set (c_Proxies (d_config doc))" "i < length (p_Rules p)"
    "run_ops decide_step rqs e = Inr e'" "distinct (map r_ID (p_Rules p))"
    "selection_ok x" "r_Select (p_Rules p ! i) = selection_selector x"
    "hits (p_ID p) (p_Rules p) i rqs < 2 ^ 64"
  shows "Counters e' (p_ID p) (r_ID (p_Rules p ! i)) =
     (\<lparr>cn_Eligible = of_nat (hits (p_ID p) (p_Rules p) i rqs),
       cn_Selected = of_nat (selected_count x
         (rs_random (new_state sha256 (c_Seed (d_config doc)) (p_ID p) (p_Rules p ! i)))
         (hits (p_ID p) (p_Rules p) i rqs))\<rparr>, True)"
  using assms by (rule engine_run_counters)

theorem engine_counters_witness:
  "\<exists>e'. run_ops decide_step [demo_request, demo_request, demo_request] demo_engine = Inr e'
    \<and> Counters e' ''api'' ''slow'' = (\<lparr>cn_Eligible = 3, cn_Selected = 1\<rparr>, True)"
proof -
  obtain e' where run: "run_ops decide_step [demo_request, demo_request, demo_request] demo_engine = Inr e'"
    using decisions.run_total[OF demo_engine_ok] by blast
  have r: "p_Rules checked_proxy ! 0 = demo_rule\<lparr>r_Match := zero_matcher\<lparr>m_Headers := Some []\<rparr>\<rparr>"
    "0 < length (p_Rules checked_proxy)" "distinct (map r_ID (p_Rules checked_proxy))"
    by (simp_all add: checked_proxy_def)
  have x: "selection_ok (Nth 2)" "r_Select (p_Rules checked_proxy ! 0) = selection_selector (Nth 2)"
    by (simp_all add: r demo_rule_def)
  have "Counters e' ''api'' ''slow'' = (\<lparr>cn_Eligible = 3, cn_Selected = 1\<rparr>, True)"
    using engine_counters[OF demo_New demo_ids r(2) run r(3) x] demo_hits
    by (simp add: r selected_count_def demo_rule_def) (simp add: checked_proxy_def demo_proxy_def)
  with run show ?thesis by blast
qed

end
