(* ===== verification/Control_Correct.thy ===== *)
theory Control_Correct
  imports Control Engine_Correct
begin

text \<open>
  Correctness of the control service: the exact outcome of a publication, what a sequence of
  operations does to the counters and to the revisions that older snapshots point to, and the
  interface \<open>persistence\<close> under which a managed service keeps its durable state in step with the
  active revision.
\<close>

section \<open>One publication\<close>

text \<open>The outcome of \<open>apply\<close>, case by case.\<close>

lemma run_persist_frame:
  assumes "run_persist doc r sv = (err, sv')"
  shows "sv' = sv\<lparr>sv_store := sv_store sv'\<rparr>"
  using assms by (auto simp: run_persist_def split: option.splits prod.splits)

lemma apply_document_Inl:
  assumes "apply_document sha256 now d expected sv = (sv', Inl err)"
  shows "sv' = sv\<lparr>sv_store := sv_store sv'\<rparr>"
  using assms
  by (auto simp: apply_document_def Let_def dest!: run_persist_frame
      split: if_splits option.splits sum.splits prod.splits)

lemma apply_document_Inr:
  assumes "apply_document sha256 now d expected sv = (sv', Inr r)"
  obtains (same) doc rv where "d = Some doc" "sv_heap sv (sn_revision (sv_active sv)) = Some rv"
      "Equal (Some (rv_document rv)) (Some doc)" "r = \<lparr>re_Changed = False, re_Info = sn_info (sv_active sv)\<rparr>"
      "run_persist doc r sv = (None, sv')" "expected = None \<or> expected = Some (in_Revision (sn_info (sv_active sv)))"
  | (published) doc rv e i' store where "d = Some doc" "sv_heap sv (sn_revision (sv_active sv)) = Some rv"
      "RestartCompatible (Some (rv_document rv)) (Some doc)" "\<not> Equal (Some (rv_document rv)) (Some doc)"
      "New sha256 (Some doc) = Inr e"
      "i' = (sn_info (sv_active sv))\<lparr>in_Revision := in_Revision (sn_info (sv_active sv)) + 1,
         in_ControlSequence := in_ControlSequence (sn_info (sv_active sv)) + 1, in_AppliedAt := now\<rparr>"
      "r = \<lparr>re_Changed = True, re_Info = i'\<rparr>"
      "run_persist doc r sv = (None, sv\<lparr>sv_store := store\<rparr>)"
      "sv' = sv\<lparr>sv_store := store, sv_heap := (sv_heap sv)(sv_next sv \<mapsto> \<lparr>rv_document = doc, rv_engine = e\<rparr>),
         sv_active := \<lparr>sn_info = i', sn_revision = sv_next sv\<rparr>, sv_next := sv_next sv + 1\<rparr>"
      "expected = None \<or> expected = Some (in_Revision (sn_info (sv_active sv)))"
proof -
  have v: "Valid d" using assms by (auto simp: apply_document_def split: if_splits)
  then obtain doc where d: "d = Some doc" by (cases d) (auto simp: Valid_def)
  have ex: "expected = None \<or> expected = Some (in_Revision (sn_info (sv_active sv)))"
    using assms v by (cases expected) (auto simp: apply_document_def Let_def split: if_splits)
  obtain rv where rv: "sv_heap sv (sn_revision (sv_active sv)) = Some rv"
    using assms v ex by (auto simp: apply_document_def Let_def split: if_splits option.splits)
  have rc: "RestartCompatible (Some (rv_document rv)) (Some doc)"
    using assms v ex rv d by (auto simp: apply_document_def Let_def split: if_splits)
  show thesis
  proof (cases "Equal (Some (rv_document rv)) (Some doc)")
    case True
    then show thesis
      using assms v ex rv d rc same by (auto simp: apply_document_def Let_def split: prod.splits option.splits)
  next
    case False
    then obtain e where e: "New sha256 (Some doc) = Inr e"
      using assms v ex rv d rc by (auto simp: apply_document_def Let_def split: sum.splits)
    define i' where "i' = (sn_info (sv_active sv))\<lparr>in_Revision := in_Revision (sn_info (sv_active sv)) + 1,
         in_ControlSequence := in_ControlSequence (sn_info (sv_active sv)) + 1, in_AppliedAt := now\<rparr>"
    obtain perr svp where p: "run_persist doc \<lparr>re_Changed = True, re_Info = i'\<rparr> sv = (perr, svp)"
      by (cases "run_persist doc \<lparr>re_Changed = True, re_Info = i'\<rparr> sv")
    then obtain store where store: "svp = sv\<lparr>sv_store := store\<rparr>" using run_persist_frame by blast
    have "apply_document sha256 now d expected sv = (case perr of Some err \<Rightarrow> (svp, Inl err)
        | None \<Rightarrow> (svp\<lparr>sv_heap := (sv_heap svp)(sv_next svp \<mapsto> \<lparr>rv_document = doc, rv_engine = e\<rparr>),
            sv_active := \<lparr>sn_info = i', sn_revision = sv_next svp\<rparr>, sv_next := sv_next svp + 1\<rparr>,
            Inr \<lparr>re_Changed = True, re_Info = i'\<rparr>))"
      using v ex rv d rc False e p by (auto simp: apply_document_def Let_def simp flip: i'_def)
    with assms have "perr = None" "r = \<lparr>re_Changed = True, re_Info = i'\<rparr>"
      "sv' = sv\<lparr>sv_store := store, sv_heap := (sv_heap sv)(sv_next sv \<mapsto> \<lparr>rv_document = doc, rv_engine = e\<rparr>),
         sv_active := \<lparr>sn_info = i', sn_revision = sv_next sv\<rparr>, sv_next := sv_next sv + 1\<rparr>"
      by (auto simp: store split: option.splits)
    with p store d rv rc False e ex i'_def show thesis by (intro published) auto
  qed
qed

section \<open>Sequences of operations\<close>

datatype ('h) ctl_op =
    OpSetEnabled bool instant
  | OpApply "'h document option" "u64 option" instant
  | OpDecide snapshot string metadata

fun ctl_step :: "(bytes \<Rightarrow> bytes) \<Rightarrow> 'h ctl_op \<Rightarrow> ('h, 'p) service \<Rightarrow> ('h, 'p) service \<times> bool" where
  "ctl_step sha256 (OpSetEnabled b now) sv = (case SetEnabled b now sv of (sv', r) \<Rightarrow> (sv', re_Changed r))"
| "ctl_step sha256 (OpApply d expected now) sv =
     (case (case expected of None \<Rightarrow> Apply sha256 now d sv | Some n \<Rightarrow> ApplyRevision sha256 now d n sv) of
        (sv', Inl err) \<Rightarrow> (sv', False) | (sv', Inr r) \<Rightarrow> (sv', re_Changed r))"
| "ctl_step sha256 (OpDecide s pid md) sv =
     (case snapshot_Decide s pid md sv of Inl err \<Rightarrow> (sv, False) | Inr (sv', _) \<Rightarrow> (sv', False))"

definition service_ok :: "('h, 'p) service \<Rightarrow> bool" where
  "service_ok sv \<longleftrightarrow> sv_heap sv (sn_revision (sv_active sv)) \<noteq> None \<and> (\<forall>a \<ge> sv_next sv. sv_heap sv a = None)"

fun ctl_run :: "(bytes \<Rightarrow> bytes) \<Rightarrow> 'h ctl_op list \<Rightarrow> ('h, 'p) service
    \<Rightarrow> ('h, 'p) service \<times> ('h ctl_op \<times> bool) list" where
  "ctl_run sha256 [] sv = (sv, [])"
| "ctl_run sha256 (op # ops) sv =
     (let (sv1, changed) = ctl_step sha256 op sv; (sv2, lg) = ctl_run sha256 ops sv1
      in (sv2, (op, changed) # lg))"

definition is_publication :: "'h ctl_op \<times> bool \<Rightarrow> bool" where
  "is_publication x \<longleftrightarrow> snd x \<and> (case fst x of OpApply _ _ _ \<Rightarrow> True | _ \<Rightarrow> False)"

abbreviation active_info :: "('h, 'p) service \<Rightarrow> info" where
  "active_info sv \<equiv> sn_info (sv_active sv)"

lemma apply_step:
  assumes "ctl_step sha256 (OpApply d expected now) sv = (sv', changed)"
  obtains r where "apply_document sha256 now d expected sv = (sv', r)"
      "changed = (case r of Inl _ \<Rightarrow> False | Inr x \<Rightarrow> re_Changed x)"
    | "sv' = sv" "changed = False"
  using assms
  by (cases expected) (auto simp: Apply_def ApplyRevision_def split: if_splits prod.splits sum.splits)

lemma ctl_step_info:
  assumes "ctl_step sha256 op sv = (sv', changed)"
  shows "in_ControlSequence (active_info sv') = in_ControlSequence (active_info sv) + (if changed then 1 else 0)
    \<and> in_Revision (active_info sv') = in_Revision (active_info sv) + (if is_publication (op, changed) then 1 else 0)
    \<and> in_RunID (active_info sv') = in_RunID (active_info sv)"
proof (cases op)
  case (OpSetEnabled b now)
  with assms show ?thesis
    by (auto simp: SetEnabled_def Let_def is_publication_def split: if_splits)
next
  case (OpDecide s pid md)
  with assms show ?thesis
    by (auto simp: snapshot_Decide_def is_publication_def split: option.splits sum.splits prod.splits)
next
  case (OpApply d expected now)
  from assms[unfolded OpApply] show ?thesis
  proof (cases rule: apply_step)
    case (1 r)
    show ?thesis
    proof (cases r)
      case (Inl err)
      with apply_document_Inl[of sha256 now d expected sv sv' err] 1
      have "sv_active sv' = sv_active sv" by (metis (no_types, lifting) service.select_convs(1) service.surjective service.update_convs(5))
      with 1 Inl show ?thesis by (simp add: is_publication_def)
    next
      case (Inr x)
      with 1 have "apply_document sha256 now d expected sv = (sv', Inr x)" by simp
      then show ?thesis
      proof (cases rule: apply_document_Inr)
        case (same doc rv)
        then obtain store where "sv' = sv\<lparr>sv_store := store\<rparr>" using run_persist_frame by blast
        with same 1 Inr show ?thesis by (simp add: is_publication_def)
      next
        case (published doc rv e i' store)
        with 1 Inr OpApply show ?thesis by (simp add: is_publication_def)
      qed
    qed
  next
    case 2
    then show ?thesis by (simp add: is_publication_def)
  qed
qed

lemma ctl_run_info:
  assumes "ctl_run sha256 ops sv = (sv', lg)"
  shows "in_ControlSequence (active_info sv') = in_ControlSequence (active_info sv) + of_nat (length (filter snd lg))
    \<and> in_Revision (active_info sv') = in_Revision (active_info sv) + of_nat (length (filter is_publication lg))
    \<and> in_RunID (active_info sv') = in_RunID (active_info sv)"
  using assms
proof (induction ops arbitrary: sv lg)
  case (Cons op ops)
  obtain sv1 c where s: "ctl_step sha256 op sv = (sv1, c)" by (cases "ctl_step sha256 op sv")
  obtain l where r: "ctl_run sha256 ops sv1 = (sv', l)" and l: "lg = (op, c) # l"
    using Cons.prems s by (auto split: prod.splits)
  from ctl_step_info[OF s] Cons.IH[OF r] show ?case by (simp add: l)
qed simp

section \<open>Isolation of snapshots\<close>

text \<open>The decisions of a run that go to the revision at address \<open>a\<close>.\<close>

definition decisions_on :: "nat \<Rightarrow> 'h ctl_op list \<Rightarrow> request list" where
  "decisions_on a ops = concat (map (\<lambda>op. case op of
      OpDecide s pid md \<Rightarrow> (if sn_revision s = a then [(pid, md, in_Enabled (sn_info s))] else [])
    | _ \<Rightarrow> []) ops)"

lemma heap_below:
  assumes "service_ok sv" "sv_heap sv a = Some rv"
  shows "a \<noteq> sv_next sv"
  using assms by (auto simp: service_ok_def)

lemma apply_document_frame:
  assumes "apply_document sha256 now d expected sv = (sv', r)" "service_ok sv"
  shows "service_ok sv' \<and> (\<forall>a rv. sv_heap sv a = Some rv \<longrightarrow> sv_heap sv' a = Some rv)"
proof (cases r)
  case (Inl err)
  with assms(1) have "sv' = sv\<lparr>sv_store := sv_store sv'\<rparr>" by (auto dest: apply_document_Inl)
  then obtain store where "sv' = sv\<lparr>sv_store := store\<rparr>" by blast
  with assms(2) show ?thesis by (simp add: service_ok_def)
next
  case (Inr x)
  with assms(1) have "apply_document sha256 now d expected sv = (sv', Inr x)" by simp
  then show ?thesis
  proof (cases rule: apply_document_Inr)
    case (same doc rv)
    then obtain store where "sv' = sv\<lparr>sv_store := store\<rparr>" using run_persist_frame by blast
    with assms(2) show ?thesis by (simp add: service_ok_def)
  next
    case (published doc rv e i' store)
    with assms(2) show ?thesis by (auto simp: service_ok_def dest: heap_below[OF assms(2)])
  qed
qed

lemma ctl_step_frame:
  assumes "ctl_step sha256 op sv = (sv', changed)" "service_ok sv" "sv_heap sv a = Some rv"
    "engine_ok (rv_engine rv)"
  shows "service_ok sv' \<and> (\<exists>e. sv_heap sv' a = Some (rv\<lparr>rv_engine := e\<rparr>)
     \<and> run_ops decide_step (decisions_on a [op]) (rv_engine rv) = Inr e \<and> engine_ok e)"
proof (cases op)
  case (OpSetEnabled b now)
  with assms show ?thesis
    by (auto simp: SetEnabled_def Let_def service_ok_def decisions_on_def split: if_splits)
next
  case (OpApply d expected now)
  from assms(1)[unfolded OpApply] show ?thesis
  proof (cases rule: apply_step)
    case (1 r)
    from apply_document_frame[OF 1(1) assms(2)] assms(3,4) OpApply show ?thesis
      by (auto simp: decisions_on_def)
  next
    case 2
    with assms OpApply show ?thesis by (auto simp: decisions_on_def)
  qed
next
  case (OpDecide s pid md)
  let ?rq = "(pid, md, in_Enabled (sn_info s))"
  show ?thesis
  proof (cases "sn_revision s = a")
    case True
    obtain e where e: "decide_step ?rq (rv_engine rv) = Inr e" "engine_ok e"
      using decisions.step_inv[OF assms(4), of ?rq] by blast
    then obtain dd err where d: "Decide (rv_engine rv) pid md (in_Enabled (sn_info s)) = Inr (e, dd, err)"
      by (auto simp: decide_step_def split: sum.splits prod.splits)
    have "sv' = sv\<lparr>sv_heap := (sv_heap sv)(a \<mapsto> rv\<lparr>rv_engine := e\<rparr>)\<rparr>"
      using assms(1,3) OpDecide True d by (simp add: snapshot_Decide_def)
    with assms(2,3) e OpDecide True show ?thesis by (auto simp: service_ok_def decisions_on_def)
  next
    case False
    then have "service_ok sv' \<and> sv_heap sv' a = sv_heap sv a"
      using assms(1,2) OpDecide
      by (auto simp: snapshot_Decide_def service_ok_def split: option.splits sum.splits prod.splits)
    with assms(3,4) OpDecide False show ?thesis by (auto simp: decisions_on_def)
  qed
qed

lemma ctl_run_isolated:
  assumes "ctl_run sha256 ops sv = (sv', lg)" "service_ok sv" "sv_heap sv a = Some rv"
    "engine_ok (rv_engine rv)"
  shows "service_ok sv' \<and> (\<exists>e. sv_heap sv' a = Some (rv\<lparr>rv_engine := e\<rparr>)
     \<and> run_ops decide_step (decisions_on a ops) (rv_engine rv) = Inr e)"
  using assms
proof (induction ops arbitrary: sv lg rv)
  case (Cons op ops)
  obtain sv1 c where s: "ctl_step sha256 op sv = (sv1, c)" by (cases "ctl_step sha256 op sv")
  obtain l where r: "ctl_run sha256 ops sv1 = (sv', l)"
    using Cons.prems(1) s by (auto split: prod.splits)
  from ctl_step_frame[OF s Cons.prems(2-4)] obtain e where e: "service_ok sv1"
    "sv_heap sv1 a = Some (rv\<lparr>rv_engine := e\<rparr>)" "run_ops decide_step (decisions_on a [op]) (rv_engine rv) = Inr e"
    "engine_ok e" by blast
  from Cons.IH[OF r e(1,2)] e(4) obtain e' where "service_ok sv'"
    "sv_heap sv' a = Some (rv\<lparr>rv_engine := e'\<rparr>)" "run_ops decide_step (decisions_on a ops) e = Inr e'"
    by auto
  moreover have "decisions_on a (op # ops) = decisions_on a [op] @ decisions_on a ops"
    by (simp add: decisions_on_def)
  ultimately show ?case using e(3) by (auto simp: run_ops_append)
qed (auto simp: decisions_on_def)

section \<open>The contract of the persistence hook\<close>

text \<open>
  The durable state is the active revision, with a configuration equal to the active one; or, when
  the last write is uncertain, its revision is the active one or the next.
\<close>

definition managed_ok ::
    "('h, 'p) persist \<Rightarrow> ('p \<Rightarrow> u64 \<Rightarrow> string \<Rightarrow> bool) \<Rightarrow> ('p \<Rightarrow> bool) \<Rightarrow> (config \<Rightarrow> string)
      \<Rightarrow> ('h, 'p) service \<Rightarrow> bool" where
  "managed_ok persist durable uncertain enc sv \<longleftrightarrow> sv_persist sv = Some persist \<and>
     (\<exists>rv. sv_heap sv (sn_revision (sv_active sv)) = Some rv \<and> d_valid (rv_document rv)
        \<and> (if uncertain (sv_store sv)
           then \<exists>n text. durable (sv_store sv) n text
             \<and> n \<in> {in_Revision (active_info sv), in_Revision (active_info sv) + 1}
           else \<exists>doc. durable (sv_store sv) (in_Revision (active_info sv)) (enc (d_config doc))
             \<and> Equal (Some (rv_document rv)) (Some doc)))"

text \<open>
  What the service relies on, where \<open>durable p n text\<close> says that the durable state holds revision
  \<open>n\<close> with the configuration \<open>text\<close>: a hook that returns no error has made the revision of the result and
  the encoded configuration durable; one that returns an error has either left the durable state
  alone, or it is uncertain, has written what it was asked to write, and refuses everything from
  then on.
\<close>

locale persistence =
  fixes persist :: "('h, 'p) persist" and durable :: "'p \<Rightarrow> u64 \<Rightarrow> string \<Rightarrow> bool"
    and uncertain :: "'p \<Rightarrow> bool" and enc :: "config \<Rightarrow> string"
  assumes persist_ok: "persist doc r p = (None, p') \<Longrightarrow> \<not> uncertain p \<and> \<not> uncertain p'
      \<and> durable p' (in_Revision (re_Info r)) (enc (d_config doc))"
    and persist_err: "persist doc r p = (Some err, p') \<Longrightarrow> \<not> uncertain p \<Longrightarrow>
      (\<not> uncertain p' \<and> durable p' = durable p)
      \<or> (uncertain p' \<and> durable p' (in_Revision (re_Info r)) (enc (d_config doc)))"
    and persist_uncertain: "uncertain p \<Longrightarrow> persist doc r p = (res, p') \<Longrightarrow> uncertain p' \<and> durable p' = durable p"
begin

abbreviation managed :: "('h, 'p) service \<Rightarrow> bool" where
  "managed \<equiv> managed_ok persist durable uncertain enc"

lemma run_persist_managed:
  assumes "sv_persist sv = Some persist" "run_persist doc r sv = (err, sv')"
  shows "persist doc r (sv_store sv) = (err, sv_store sv') \<and> sv' = sv\<lparr>sv_store := sv_store sv'\<rparr>"
  using assms by (auto simp: run_persist_def split: prod.splits)

lemma apply_managed_ok:
  assumes "managed sv" "apply_document sha256 now (Some doc) expected sv = (sv', r)" "d_valid doc"
  shows "managed sv'"
proof -
  let ?i = "active_info sv"
  from assms(1) obtain rv where p: "sv_persist sv = Some persist"
    and rv: "sv_heap sv (sn_revision (sv_active sv)) = Some rv" "d_valid (rv_document rv)"
    by (auto simp: managed_ok_def)
  have fail: "managed (sv\<lparr>sv_store := p'\<rparr>)"
    if "persist doc x (sv_store sv) = (Some e, p')" "Equal (Some (rv_document rv)) (Some doc)
        \<and> in_Revision (re_Info x) = in_Revision ?i \<or> in_Revision (re_Info x) = in_Revision ?i + 1" for x e p'
  proof (cases "uncertain (sv_store sv)")
    case True
    with persist_uncertain[OF this that(1)] assms(1) show ?thesis by (auto simp: managed_ok_def)
  next
    case False
    from persist_err[OF that(1) this] that(2) assms(1) False p rv show ?thesis
      by (auto simp: managed_ok_def)
  qed
  show ?thesis
  proof (cases r)
    case (Inr x)
    from assms(2)[unfolded Inr] show ?thesis
    proof (cases rule: apply_document_Inr)
      case (same doc' rv')
      then obtain p' where "persist doc x (sv_store sv) = (None, p')" "sv' = sv\<lparr>sv_store := p'\<rparr>"
        using run_persist_managed[OF p, of doc x None sv'] by auto
      with same persist_ok rv p show ?thesis by (fastforce simp: managed_ok_def)
    next
      case (published doc' rv' e i' store)
      then have p': "persist doc x (sv_store sv) = (None, store)"
        using run_persist_managed[OF p, of doc x None "sv\<lparr>sv_store := store\<rparr>"] by auto
      have "Equal (Some doc) (Some doc)" using assms(3) by (simp add: Equal_def)
      with published persist_ok[OF p'] p assms(3) show ?thesis
        by (auto simp: managed_ok_def)
    qed
  next
    case (Inl err)
    show ?thesis
    proof (cases "sv' = sv")
      case False
      have v: "Valid (Some doc)" using assms(3) by (simp add: Valid_def)
      have "\<exists>x p'. persist doc x (sv_store sv) = (Some err, p') \<and> sv' = sv\<lparr>sv_store := p'\<rparr>
          \<and> (Equal (Some (rv_document rv)) (Some doc) \<and> in_Revision (re_Info x) = in_Revision ?i
             \<or> in_Revision (re_Info x) = in_Revision ?i + 1)"
        using assms(2) Inl False rv(1) p v
        by (force simp: apply_document_def Let_def run_persist_def split: if_splits sum.splits prod.splits option.splits)
      then show ?thesis using fail by blast
    qed (use assms(1) in simp)
  qed
qed

lemma acknowledged_durable:
  assumes "managed sv" "ApplyRevision sha256 now (Some doc) n sv = (sv', Inr r)"
  shows "durable (sv_store sv') (in_Revision (re_Info r)) (enc (d_config doc)) \<and> \<not> uncertain (sv_store sv')"
proof -
  have p: "sv_persist sv = Some persist" using assms(1) by (simp add: managed_ok_def)
  from assms(2)[unfolded ApplyRevision_def] show ?thesis
  proof (cases rule: apply_document_Inr)
    case (same doc' rv')
    with run_persist_managed[OF p, of doc r None sv'] persist_ok show ?thesis by fastforce
  next
    case (published doc' rv' e i' store)
    with run_persist_managed[OF p, of doc r None "sv\<lparr>sv_store := store\<rparr>"] persist_ok show ?thesis
      by fastforce
  qed
qed

lemma ctl_step_managed_ok:
  assumes "managed sv" "\<And>d expected now. op = OpApply d expected now \<Longrightarrow> Valid d"
  shows "managed (fst (ctl_step sha256 op sv))"
proof (cases op)
  case (OpSetEnabled b now)
  with assms show ?thesis by (auto simp: managed_ok_def SetEnabled_def Let_def)
next
  case (OpDecide s pid md)
  with assms show ?thesis
    by (auto simp: managed_ok_def snapshot_Decide_def split: option.splits sum.splits prod.splits)
next
  case (OpApply d expected now)
  then obtain doc where d: "d = Some doc" "d_valid doc"
    using assms(2) by (cases d) (auto simp: Valid_def)
  obtain sv1 c where s: "ctl_step sha256 (OpApply d expected now) sv = (sv1, c)"
    by (cases "ctl_step sha256 (OpApply d expected now) sv")
  from s show ?thesis
    by (cases rule: apply_step) (use apply_managed_ok[OF assms(1)] d assms(1) s OpApply in auto)
qed

lemma ctl_run_managed_ok:
  assumes "managed sv" "\<forall>d expected now. OpApply d expected now \<in> set ops \<longrightarrow> Valid d"
  shows "managed (fst (ctl_run sha256 ops sv))"
  using assms
proof (induction ops arbitrary: sv)
  case (Cons op ops)
  have "managed (fst (ctl_step sha256 op sv))" using Cons.prems by (intro ctl_step_managed_ok) auto
  moreover have "\<forall>d expected now. OpApply d expected now \<in> set ops \<longrightarrow> Valid d"
    using Cons.prems(2) by simp
  ultimately have "managed (fst (ctl_run sha256 ops (fst (ctl_step sha256 op sv))))" by (rule Cons.IH)
  then show ?case by (simp add: case_prod_unfold Let_def)
qed simp

end

section \<open>A sample service\<close>

definition demo_service :: "(config \<times> digests, unit) service" where
  "demo_service = \<lparr>sv_active = \<lparr>sn_info = \<lparr>in_RunID = ''run'', in_Revision = 1, in_Enabled = False,
       in_ControlSequence = 0, in_AppliedAt = 5, in_StateChangedAt = 5\<rparr>, sn_revision = 0\<rparr>,
     sv_persist = None, sv_heap = [0 \<mapsto> \<lparr>rv_document = demo_document, rv_engine = demo_engine\<rparr>],
     sv_next = 1, sv_store = ()\<rparr>"

definition demo_document2 :: "(config \<times> digests) document" where
  "demo_document2 = (let c = checked_config\<lparr>c_Seed := 2\<rparr>
     in \<lparr>d_config = c, d_valid = True, d_fingerprint = (canonical c, demo_digests),
         d_restartFingerprint = (strip_rules (canonical c), demo_digests)\<rparr>)"

lemma demo_control_New: "control_New demo_sha256 ''run'' 5 () (Some demo_document) = Inr demo_service"
  by (simp add: control_New_def demo_New demo_service_def)

lemma demo_compare:
  "\<not> Equal (Some demo_document) (Some demo_document2)"
  "RestartCompatible (Some demo_document) (Some demo_document2)"
  by (simp_all add: Equal_def RestartCompatible_def demo_document_def demo_document2_def Let_def
      canonical_def strip_rules_def checked_config_def demo_config_def)

lemma demo_publish:
  "\<exists>sv' r. apply_document demo_sha256 now (Some demo_document2) (Some 1) demo_service = (sv', Inr r) \<and> re_Changed r"
proof -
  have v: "Valid (Some demo_document2)" by (simp add: Valid_def demo_document2_def Let_def)
  then obtain e where e: "New demo_sha256 (Some demo_document2) = Inr e" by (auto simp: New_def Let_def)
  show ?thesis
    using demo_compare v e by (simp add: apply_document_def demo_service_def run_persist_def Let_def)
qed

lemma demo_service_ok: "service_ok demo_service"
  by (simp add: service_ok_def demo_service_def)

section \<open>The properties of the control service\<close>

text \<open>Over any sequence of operations the control sequence counts the operations that changed
  something, and the revision counts the publications; both as 64-bit counters.\<close>

lemma control_counts:
  "in_ControlSequence (active_info (fst (ctl_run sha256 ops sv)))
     = in_ControlSequence (active_info sv) + of_nat (length (filter snd (snd (ctl_run sha256 ops sv))))
   \<and> in_Revision (active_info (fst (ctl_run sha256 ops sv)))
     = in_Revision (active_info sv) + of_nat (length (filter is_publication (snd (ctl_run sha256 ops sv))))"
  using ctl_run_info[of sha256 ops sv] by (cases "ctl_run sha256 ops sv") simp

text \<open>C12. Snapshots are isolated: whatever is switched, published or decided on other revisions,
  the revision a snapshot points to keeps its document, and its engine is the result of exactly the
  decisions made on snapshots of that revision, in their order.\<close>

theorem snapshot_isolated:
  assumes "service_ok sv" "sv_heap sv a = Some rv" "engine_ok (rv_engine rv)"
  shows "\<exists>e. sv_heap (fst (ctl_run sha256 ops sv)) a = Some (rv\<lparr>rv_engine := e\<rparr>)
     \<and> run_ops decide_step (decisions_on a ops) (rv_engine rv) = Inr e"
  using ctl_run_isolated[OF _ assms] by (metis surjective_pairing)

theorem snapshot_isolated_witness:
  "\<exists>e. sv_heap (fst (ctl_run demo_sha256 [OpSetEnabled True 6, OpApply (Some demo_document2) (Some 1) 7]
       demo_service)) 0 = Some \<lparr>rv_document = demo_document, rv_engine = e\<rparr>
     \<and> run_ops decide_step [] demo_engine = Inr e"
  using snapshot_isolated[OF demo_service_ok, of 0 "\<lparr>rv_document = demo_document, rv_engine = demo_engine\<rparr>"
      demo_sha256 "[OpSetEnabled True 6, OpApply (Some demo_document2) (Some 1) 7]"] demo_engine_ok
  by (simp add: demo_service_def decisions_on_def del: ctl_run.simps)

text \<open>C14. An application that fails publishes nothing: the active snapshot and all revisions stay as
  they were, and only the state of the persistence can differ (which is not touched without a
  persistence hook).\<close>

theorem apply_failure_atomic:
  assumes "apply_document sha256 now d expected sv = (sv', Inl err)"
  shows "sv_active sv' = sv_active sv \<and> sv_heap sv' = sv_heap sv \<and> sv_next sv' = sv_next sv
    \<and> (sv_persist sv = None \<longrightarrow> sv' = sv)"
proof -
  have *: "sv' = sv\<lparr>sv_store := sv_store sv'\<rparr>" using assms by (rule apply_document_Inl)
  then obtain store where s: "sv' = sv\<lparr>sv_store := store\<rparr>" by blast
  have "sv' = sv" if "sv_persist sv = None"
    using assms that by (auto simp: apply_document_def run_persist_def Let_def
        split: if_splits option.splits sum.splits)
  with s show ?thesis by simp
qed

theorem apply_failure_atomic_witness:
  "\<exists>sv'. apply_document demo_sha256 0 (Some demo_document2) (Some 9) demo_service = (sv', Inl ErrConflict)
    \<and> sv_active sv' = sv_active demo_service \<and> sv_heap sv' = sv_heap demo_service"
proof -
  have "apply_document demo_sha256 0 (Some demo_document2) (Some 9) demo_service = (demo_service, Inl ErrConflict)"
    by (simp add: apply_document_def Valid_def demo_document2_def demo_service_def Let_def)
  with apply_failure_atomic[OF this] show ?thesis by blast
qed

text \<open>C13. A publication installs the new document with a fresh engine under the next revision
  number, keeps the injection switch, and leaves every older revision in place. A second
  application that expects the same revision is then refused with a conflict.\<close>

theorem publication_exact:
  assumes "service_ok sv" "ApplyRevision sha256 now (Some doc) n sv = (sv', Inr r)" "re_Changed r"
  shows "(\<exists>e. New sha256 (Some doc) = Inr e
        \<and> sv_heap sv' (sn_revision (Acquire sv')) = Some \<lparr>rv_document = doc, rv_engine = e\<rparr>)
    \<and> re_Info r = active_info sv' \<and> in_Revision (active_info sv') = n + 1
    \<and> in_Enabled (active_info sv') = in_Enabled (active_info sv)
    \<and> (\<forall>a rv. sv_heap sv a = Some rv \<longrightarrow> sv_heap sv' a = Some rv)
    \<and> (\<forall>d' now'. Valid d' \<longrightarrow> ApplyRevision sha256 now' d' n sv' = (sv', Inl ErrConflict))"
proof -
  have a: "apply_document sha256 now (Some doc) (Some n) sv = (sv', Inr r)"
    using assms(2) by (simp add: ApplyRevision_def)
  from a have e: "\<exists>e. New sha256 (Some doc) = Inr e
      \<and> sv_heap sv' (sn_revision (Acquire sv')) = Some \<lparr>rv_document = doc, rv_engine = e\<rparr>"
    using assms(3) by (cases rule: apply_document_Inr) (auto simp: Acquire_def)
  from a have i: "re_Info r = active_info sv' \<and> in_Revision (active_info sv') = n + 1
      \<and> in_Enabled (active_info sv') = in_Enabled (active_info sv)"
    using assms(3) by (cases rule: apply_document_Inr) auto
  then have "\<forall>d' now'. Valid d' \<longrightarrow> ApplyRevision sha256 now' d' n sv' = (sv', Inl ErrConflict)"
    by (simp add: ApplyRevision_def apply_document_def Let_def)
  with e i apply_document_frame[OF a assms(1)] show ?thesis by blast
qed

theorem publication_exact_witness:
  "\<exists>sv' r. ApplyRevision demo_sha256 7 (Some demo_document2) 1 demo_service = (sv', Inr r)
    \<and> in_Revision (active_info sv') = 2
    \<and> ApplyRevision demo_sha256 8 (Some demo_document) 1 sv' = (sv', Inl ErrConflict)"
proof -
  obtain sv' r where p: "ApplyRevision demo_sha256 7 (Some demo_document2) 1 demo_service = (sv', Inr r)" "re_Changed r"
    using demo_publish[of 7] by (auto simp: ApplyRevision_def)
  have "Valid (Some demo_document)" by (simp add: Valid_def demo_document_def)
  with publication_exact[OF demo_service_ok p] p show ?thesis by auto
qed

end
