(* ===== verification/Session_Correct.thy ===== *)
theory Session_Correct
  imports Session Control_Correct
begin

text \<open>
  What the sessions of the database proxies rely on: that decisions on a validated configuration do
  not panic and select faults that can be performed, whatever the other users of the control service
  do in between; and that writers which follow the contract of \<open>io.Writer\<close> do not make the write
  loop panic.
\<close>
section \<open>Engines for one kind of proxy\<close>

text \<open>The faults of the rules of the proxy with this identifier are of a kind \<open>F\<close>.\<close>

definition kind_engine :: "(fault \<Rightarrow> bool) \<Rightarrow> string \<Rightarrow> engine \<Rightarrow> bool" where
  "kind_engine F pid e \<longleftrightarrow> engine_ok e
     \<and> (\<forall>ss. e pid = Some ss \<longrightarrow> list_all (\<lambda>s. F (r_Fault (rs_rule s))) ss)"

definition kind_service :: "(fault \<Rightarrow> bool) \<Rightarrow> string \<Rightarrow> ('h, 'p) service \<Rightarrow> bool" where
  "kind_service F pid sv \<longleftrightarrow> service_ok sv \<and> (\<forall>a rv. sv_heap sv a = Some rv \<longrightarrow> kind_engine F pid (rv_engine rv))"

text \<open>A document under which the proxy has a protocol of a kind \<open>K\<close>: validated, with distinct identifiers.\<close>

definition kind_document :: "(string \<Rightarrow> bool) \<Rightarrow> string \<Rightarrow> 'h document \<Rightarrow> bool" where
  "kind_document K pid doc \<longleftrightarrow> config_ok (d_config doc) \<and> distinct (map p_ID (c_Proxies (d_config doc)))
     \<and> list_all (\<lambda>p. p_ID p = pid \<longrightarrow> K (p_Protocol p)) (c_Proxies (d_config doc))"

definition kind_op :: "(string \<Rightarrow> bool) \<Rightarrow> string \<Rightarrow> 'h ctl_op \<Rightarrow> bool" where
  "kind_op K pid op = (case op of OpApply (Some doc) _ _ \<Rightarrow> kind_document K pid doc | _ \<Rightarrow> True)"

text \<open>What the other users of the service do: any sequence of operations with such documents.\<close>

definition kind_env :: "(string \<Rightarrow> bool) \<Rightarrow> (bytes \<Rightarrow> bytes) \<Rightarrow> string \<Rightarrow> (('h, 'p) service \<Rightarrow> ('h, 'p) service) \<Rightarrow> bool" where
  "kind_env K sha256 pid f \<longleftrightarrow> (\<exists>ops. list_all (kind_op K pid) ops \<and> f = (\<lambda>sv. fst (ctl_run sha256 ops sv)))"

lemma decide_rules_of:
  assumes "Decide e p md en = Inr (e', d, x)"
  shows "map_option (map rs_rule) (e' q) = map_option (map rs_rule) (e q)"
    and "de_Selected d \<Longrightarrow> \<exists>ss s. e p = Some ss \<and> s \<in> set ss \<and> de_Fault d = r_Fault (rs_rule s)"
proof -
  consider "e' = e" "\<not> de_Selected d"
    | ss i s' k b where "e p = Some ss" "first_match md (map rs_rule ss) = Some i" "attempt (ss ! i) = Inr (s', k, b)"
      "e' = e(p \<mapsto> ss[i := s'])" "de_Fault d = r_Fault (rs_rule (ss ! i))"
  proof (cases "e p")
    case None
    then show ?thesis using assms that(1) by (auto simp: Decide_def zero_decision_def split: if_splits)
  next
    case (Some ss)
    show ?thesis
    proof (cases en)
      case True
      then show ?thesis
        using assms that Some
        by (auto simp: Decide_eq zero_decision_def split: option.splits sum.splits prod.splits)
    next
      case False
      then show ?thesis using assms that(1) Some by (auto simp: Decide_def zero_decision_def split: if_splits)
    qed
  qed
  then have "map_option (map rs_rule) (e' q) = map_option (map rs_rule) (e q)
    \<and> (de_Selected d \<longrightarrow> (\<exists>ss s. e p = Some ss \<and> s \<in> set ss \<and> de_Fault d = r_Fault (rs_rule s)))"
  proof cases
    case (2 ss i s' k b)
    have i: "i < length ss" using 2(2) by (simp add: first_match_Some)
    have "map rs_rule (ss[i := s']) = map rs_rule ss"
      using attempt_rule[OF 2(3)] i by (simp add: map_update list_update_same_conv)
    then show ?thesis using 2(1,4,5) nth_mem[OF i] by (auto simp del: map_update)
  qed simp
  then show "map_option (map rs_rule) (e' q) = map_option (map rs_rule) (e q)"
    and "de_Selected d \<Longrightarrow> \<exists>ss s. e p = Some ss \<and> s \<in> set ss \<and> de_Fault d = r_Fault (rs_rule s)"
    by blast+
qed

lemma New_dom: "New sha256 (Some doc) = Inr e \<Longrightarrow> e pid \<noteq> None \<Longrightarrow> pid \<in> p_ID ` set (c_Proxies (d_config doc))"
proof -
  have "fold (\<lambda>p e. e(f p \<mapsto> g p)) ps e0 pid \<noteq> None \<Longrightarrow> e0 pid \<noteq> None \<or> pid \<in> f ` set ps"
    for f :: "proxy \<Rightarrow> string" and g :: "proxy \<Rightarrow> rule_state list" and ps e0
    by (induction ps arbitrary: e0) (fastforce split: if_splits)+
  then show "New sha256 (Some doc) = Inr e \<Longrightarrow> e pid \<noteq> None \<Longrightarrow> pid \<in> p_ID ` set (c_Proxies (d_config doc))"
    by (fastforce simp: New_def Let_def split: if_splits)
qed

lemma kind_service_active: "kind_service F pid sv \<Longrightarrow> sv_heap sv (sn_revision (Acquire sv)) \<noteq> None"
  by (simp add: kind_service_def service_ok_def Acquire_def)

text \<open>
  The interface between validation and a proxy: what the rules that are accepted for its protocols say of
  their faults. Then a decision for the proxy does not panic, and selects a fault of the kind, whatever the
  other users of the service do.
\<close>

locale proxy_kind =
  fixes K :: "string \<Rightarrow> bool" and F :: "fault \<Rightarrow> bool"
  assumes rule_kind: "K protocol \<Longrightarrow> rule_ok protocol r \<Longrightarrow> F (r_Fault r)"
begin

lemma engine_rules:
  assumes "kind_engine F pid e" "engine_ok e'" "map_option (map rs_rule) (e' pid) = map_option (map rs_rule) (e pid)"
  shows "kind_engine F pid e'"
proof -
  have "list_all (\<lambda>s. F (r_Fault (rs_rule s))) ss" if ss: "e' pid = Some ss" for ss
  proof -
    obtain ss0 where ss0: "e pid = Some ss0" "map rs_rule ss = map rs_rule ss0" using assms(3) ss by (cases "e pid") auto
    have "list_all (\<lambda>r. F (r_Fault r)) (map rs_rule ss0)"
      using assms(1) ss0(1) by (simp add: kind_engine_def list_all_iff)
    then show ?thesis unfolding ss0(2)[symmetric] by (simp add: list_all_iff)
  qed
  then show ?thesis using assms(2) by (simp add: kind_engine_def)
qed

lemma engine_decide:
  assumes "kind_engine F pid e"
  obtains e' d x where "Decide e p md en = Inr (e', d, x)" "kind_engine F pid e'"
    "p = pid \<and> de_Selected d \<longrightarrow> F (de_Fault d)"
proof -
  obtain e' where "decide_step (p, md, en) e = Inr e'" "engine_ok e'"
    using decisions.step_inv[of e "(p, md, en)"] assms by (auto simp: kind_engine_def)
  then obtain d x where D: "Decide e p md en = Inr (e', d, x)" and "engine_ok e'"
    by (auto simp: decide_step_def split: sum.splits prod.splits)
  moreover have "kind_engine F pid e'"
    using engine_rules[OF assms \<open>engine_ok e'\<close> decide_rules_of(1)[OF D]] .
  moreover have "F (de_Fault d)" if "p = pid" "de_Selected d"
    using decide_rules_of(2)[OF D that(2)] assms that(1) by (auto simp: kind_engine_def list_all_iff)
  ultimately show thesis using that by blast
qed

lemma New_kind_engine:
  assumes "New sha256 (Some doc) = Inr e" "kind_document K pid doc"
  shows "kind_engine F pid e"
proof -
  have ok: "config_ok (d_config doc)" "distinct (map p_ID (c_Proxies (d_config doc)))"
    using assms(2) by (auto simp: kind_document_def)
  have "list_all (\<lambda>s. F (r_Fault (rs_rule s))) ss" if ss: "e pid = Some ss" for ss
  proof -
    obtain p where p: "p \<in> set (c_Proxies (d_config doc))" "p_ID p = pid" using New_dom[OF assms(1)] ss by auto
    have "ss = map (new_state sha256 (c_Seed (d_config doc)) (p_ID p)) (p_Rules p)"
      using New_lookup[OF assms(1) ok(2) p(1)] ss p(2) by simp
    moreover have "K (p_Protocol p)" "list_all (rule_ok (p_Protocol p)) (p_Rules p)"
      using assms(2) p ok(1) by (auto simp: kind_document_def config_ok_def proxy_ok_def list_all_iff)
    ultimately show ?thesis using rule_kind by (auto simp: list_all_iff)
  qed
  then show ?thesis using New_engine_ok[OF assms(1) ok(1)] by (simp add: kind_engine_def)
qed

lemma snapshot_Decide_kind:
  assumes "kind_service F pid sv" "sv_heap sv (sn_revision s) \<noteq> None"
  obtains sv' d x where "snapshot_Decide s p md sv = Inr (sv', d, x)" "kind_service F pid sv'"
    "dom (sv_heap sv) \<subseteq> dom (sv_heap sv')" "p = pid \<and> de_Selected d \<longrightarrow> F (de_Fault d)"
proof -
  obtain rv where rv: "sv_heap sv (sn_revision s) = Some rv" using assms(2) by auto
  then have "kind_engine F pid (rv_engine rv)" using assms(1) by (simp add: kind_service_def)
  then obtain e' d x where D: "Decide (rv_engine rv) p md (in_Enabled (sn_info s)) = Inr (e', d, x)"
    "kind_engine F pid e'" "p = pid \<and> de_Selected d \<longrightarrow> F (de_Fault d)"
    using engine_decide by blast
  show thesis
    by (rule that[of "sv\<lparr>sv_heap := (sv_heap sv)(sn_revision s \<mapsto> rv\<lparr>rv_engine := e'\<rparr>)\<rparr>" d x])
      (use D rv assms(1) in \<open>auto simp: snapshot_Decide_def kind_service_def service_ok_def\<close>)
qed

lemma ctl_step_kind:
  assumes "kind_service F pid sv" "kind_op K pid op"
  shows "kind_service F pid (fst (ctl_step sha256 op sv)) \<and> dom (sv_heap sv) \<subseteq> dom (sv_heap (fst (ctl_step sha256 op sv)))"
proof (cases op)
  case (OpSetEnabled b now)
  with assms show ?thesis
    by (auto simp: SetEnabled_def Let_def kind_service_def service_ok_def)
next
  case (OpDecide s p md)
  show ?thesis
  proof (cases "sv_heap sv (sn_revision s)")
    case None
    then show ?thesis using assms OpDecide by (simp add: snapshot_Decide_def)
  next
    case (Some rv)
    then obtain sv' d x where "snapshot_Decide s p md sv = Inr (sv', d, x)" "kind_service F pid sv'"
      "dom (sv_heap sv) \<subseteq> dom (sv_heap sv')"
      using snapshot_Decide_kind[OF assms(1), of s p md] by (metis option.distinct(1))
    then show ?thesis using OpDecide by simp
  qed
next
  case (OpApply d expected now)
  obtain sv' c where st: "ctl_step sha256 op sv = (sv', c)" by fastforce
  have same: "kind_service F pid sv' \<and> dom (sv_heap sv) \<subseteq> dom (sv_heap sv')" if "sv' = sv\<lparr>sv_store := st\<rparr>" for st
    using that assms(1) by (simp add: kind_service_def service_ok_def)
  from st[unfolded OpApply] have "kind_service F pid sv' \<and> dom (sv_heap sv) \<subseteq> dom (sv_heap sv')"
  proof (cases rule: apply_step)
    case (1 r)
    show ?thesis
    proof (cases r)
      case (Inl err)
      then show ?thesis using 1(1) apply_document_Inl same by blast
    next
      case (Inr x)
      with 1 have "apply_document sha256 now d expected sv = (sv', Inr x)" by simp
      then show ?thesis
      proof (cases rule: apply_document_Inr)
        case (same doc rv)
        then show ?thesis using run_persist_frame \<open>\<And>st. sv' = sv\<lparr>sv_store := st\<rparr> \<Longrightarrow> _\<close> by blast
      next
        case (published doc rv e i' store)
        have "kind_engine F pid e"
          using New_kind_engine[OF published(5)] assms(2) OpApply published(1) by (simp add: kind_op_def)
        moreover have "service_ok sv'" using apply_document_frame[OF 1(1)] assms(1) by (simp add: kind_service_def)
        ultimately show ?thesis using published(9) assms(1) by (auto simp: kind_service_def)
      qed
    qed
  next
    case 2
    then show ?thesis using assms(1) by simp
  qed
  then show ?thesis by (simp add: st)
qed

lemma ctl_run_kind:
  assumes "kind_service F pid sv" "list_all (kind_op K pid) ops"
  shows "kind_service F pid (fst (ctl_run sha256 ops sv)) \<and> dom (sv_heap sv) \<subseteq> dom (sv_heap (fst (ctl_run sha256 ops sv)))"
  using assms
proof (induction ops arbitrary: sv)
  case (Cons op ops)
  obtain sv1 c where st: "ctl_step sha256 op sv = (sv1, c)" by fastforce
  have "kind_service F pid sv1" "dom (sv_heap sv) \<subseteq> dom (sv_heap sv1)"
    using ctl_step_kind[OF Cons.prems(1), of op sha256] Cons.prems(2) st by auto
  moreover have "fst (ctl_run sha256 (op # ops) sv) = fst (ctl_run sha256 ops sv1)"
    by (simp add: st split: prod.splits)
  ultimately show ?case using Cons.IH[of sv1] Cons.prems(2) by (metis list.pred_inject(2) subset_trans)
qed simp

lemma env_keeps:
  assumes "kind_env K sha256 pid f" "kind_service F pid sv"
  shows "kind_service F pid (f sv)" "dom (sv_heap sv) \<subseteq> dom (sv_heap (f sv))"
  using assms(1) ctl_run_kind[OF assms(2)] unfolding kind_env_def by blast+

end

text \<open>The database proxies: one of the three faults after a commit.\<close>

definition commit_kind :: "fault \<Rightarrow> bool" where
  "commit_kind f \<longleftrightarrow> (\<exists>a. f = commit_fault a)"

interpretation commits: proxy_kind is_database commit_kind
  by standard (auto simp: rule_ok_def commit_kind_def)

abbreviation commit_engine :: "string \<Rightarrow> engine \<Rightarrow> bool" where
  "commit_engine \<equiv> kind_engine commit_kind"

abbreviation commit_service :: "string \<Rightarrow> ('h, 'p) service \<Rightarrow> bool" where
  "commit_service \<equiv> kind_service commit_kind"

abbreviation commit_document :: "string \<Rightarrow> 'h document \<Rightarrow> bool" where
  "commit_document \<equiv> kind_document is_database"

abbreviation commit_env :: "(bytes \<Rightarrow> bytes) \<Rightarrow> string \<Rightarrow> (('h, 'p) service \<Rightarrow> ('h, 'p) service) \<Rightarrow> bool" where
  "commit_env \<equiv> kind_env is_database"

section \<open>Writers that behave\<close>

text \<open>The contract of \<open>io.Writer\<close>: at most what was given is written, and errors are values.\<close>

definition writer_ok :: "writer \<Rightarrow> bool" where
  "writer_ok w \<longleftrightarrow> (\<forall>i b. fst (w i b) \<le> length b \<and> (\<forall>e. snd (w i b) = Some e \<longrightarrow> \<not> is_panic e))"

lemma writeAll_no_panic:
  assumes "writer_ok w" "writeAll w i b = (sent, j, Some e)"
  shows "\<not> is_panic e"
  using assms
proof (induction w i b arbitrary: sent j rule: writeAll.induct)
  case (1 w i b)
  show ?case
  proof (cases "b = []")
    case True
    with 1(3) show ?thesis by (simp add: writeAll.simps)
  next
    case False
    obtain n err where w: "w i b = (n, err)" by (cases "w i b")
    have n: "n \<le> length b" "\<forall>x. err = Some x \<longrightarrow> \<not> is_panic x" using 1(2) w unfolding writer_ok_def by (metis fst_conv snd_conv)+
    show ?thesis
    proof (cases "err = None \<and> n \<noteq> 0")
      case True
      obtain s1 j1 e1 where r: "writeAll w (Suc i) (drop n b) = (s1, j1, e1)"
        by (cases "writeAll w (Suc i) (drop n b)") auto
      have "e1 = Some e" using 1(3) False w True n r by (simp add: writeAll.simps[of w i b])
      with 1(1)[OF False w[symmetric] refl _ _ _ 1(2), of s1 j1] True n r show ?thesis by simp
    next
      case wrong: False
      then show ?thesis using 1(3) False w n by (auto simp: writeAll.simps[of w i b] split: if_splits)
    qed
  qed
qed

text \<open>What was sent to the upstream before TLS.\<close>

definition in_clear :: "conn \<Rightarrow> bytes" where
  "in_clear c = (if cn_tls c then cn_clear c else cn_sent c)"

lemma send_tls [simp]:
  "send_with write m c = (err, c') \<Longrightarrow> cn_tls c' = cn_tls c \<and> cn_clear c' = cn_clear c"
  by (auto simp: send_with_def split: prod.splits)

section \<open>Flows\<close>

text \<open>
  The events of one complete flow of a database session: the start, possibly a decision, and the fault
  if the decision selected the flow, and the end.
\<close>

definition same_flow :: "event \<Rightarrow> event \<Rightarrow> bool" where
  "same_flow e f \<longleftrightarrow> ev_Info f = ev_Info e \<and> ev_FlowID f = ev_FlowID e \<and> ev_ProxyID f = ev_ProxyID e
     \<and> ev_Protocol f = ev_Protocol e \<and> ev_StartedAt f = ev_StartedAt e \<and> ev_Time f = ev_Time e"

definition flow_trace :: "event list \<Rightarrow> bool" where
  "flow_trace es \<longleftrightarrow> (\<exists>e mid f. es = e # mid @ [f]
     \<and> ev_Type e = ''flow_started'' \<and> ev_Time e = 0 \<and> ev_Type f = ''flow_finished''
     \<and> list_all (same_flow e) (mid @ [f])
     \<and> (mid = [] \<and> \<not> ev_Applied f
        \<or> (\<exists>d. mid = [d] \<and> ev_Type d = ''decision'' \<and> \<not> ev_Selected d \<and> \<not> ev_Applied f)
        \<or> (\<exists>d a. mid = [d, a] \<and> ev_Type d = ''decision'' \<and> ev_Selected d \<and> ev_Type a = ''fault_applied'' \<and> ev_Applied f))
     \<and> (ev_Outcome f = ''commit_ack_lost'' \<longrightarrow> ev_Applied f \<and> ev_CommitConfirmed f))"

lemma new_event_fields [simp]:
  "ev_Type (new_event i typ) = typ" "ev_Info (new_event i typ) = i" "ev_Time (new_event i typ) = 0"
  "\<not> ev_Applied (new_event i typ)" "\<not> ev_Selected (new_event i typ)"
  by (simp_all add: new_event_def)

section \<open>A sample database service\<close>

text \<open>One proxy, whose rule closes the connection after every commit; the service is switched on.\<close>

definition db_rule :: rule where
  "db_rule = \<lparr>r_ID = ''lose'', r_Enabled = True, r_Match = zero_matcher\<lparr>m_Headers := Some []\<rparr>,
     r_Select = zero_selector\<lparr>s_Every := Some 1\<rparr>, r_Fault = commit_fault CClose\<rparr>"

definition db_state :: rule_state where
  "db_state = \<lparr>rs_rule = db_rule, rs_counters = zero_counters, rs_random = \<lparr>pcg_hi = 1, pcg_lo = 2\<rparr>\<rparr>"

definition db_service :: "(config \<times> digests, unit) service" where
  "db_service = demo_service\<lparr>sv_active := \<lparr>sn_info = (sn_info (sv_active demo_service))\<lparr>in_Enabled := True\<rparr>, sn_revision = 0\<rparr>,
     sv_heap := [0 \<mapsto> \<lparr>rv_document = demo_document, rv_engine = [''db'' \<mapsto> [db_state]]\<rparr>]\<rparr>"

lemma db_service_ok: "commit_service ''db'' db_service"
proof -
  have "state_ok db_state"
    unfolding state_ok_def by (rule exI[of _ "Every 1"]) (simp add: db_state_def db_rule_def)
  moreover have "r_Fault (rs_rule db_state) = commit_fault CClose" by (simp add: db_state_def db_rule_def)
  ultimately show ?thesis
    by (auto simp: kind_service_def service_ok_def db_service_def demo_service_def kind_engine_def commit_kind_def
        engine_ok_def simp del: commit_fault.simps split: if_splits)
qed

definition db_decision :: decision where
  "db_decision = \<lparr>de_ProxyID = ''db'', de_RuleID = ''lose'', de_EligibleSequence = 1, de_Selected = True,
     de_Selector = zero_selector\<lparr>s_Every := Some 1\<rparr>, de_Fault = commit_fault CClose\<rparr>"

lemma db_decides:
  "snapshot_Decide (Acquire db_service) ''db'' no_metadata db_service
     = Inr (db_service\<lparr>sv_heap := [0 \<mapsto> \<lparr>rv_document = demo_document, rv_engine = [''db'' \<mapsto>
         [db_state\<lparr>rs_counters := \<lparr>cn_Eligible = 1, cn_Selected = 1\<rparr>\<rparr>]]\<rparr>]\<rparr>, db_decision, None)"
  by (simp add: snapshot_Decide_def Acquire_def db_service_def demo_service_def Decide_eq no_metadata_def
      db_state_def db_rule_def db_decision_def attempt_def selectAttempt_def zero_selector_def zero_matcher_def
      zero_counters_def matches_def cut_def headers_of_def)

definition full_writer :: writer where
  "full_writer i b = (length b, None)"

lemma full_writer_ok [simp]: "writer_ok full_writer"
  by (simp add: writer_ok_def full_writer_def)

lemma writeAll_full: "b \<noteq> [] \<Longrightarrow> writeAll full_writer i b = (b, Suc i, None)"
  by (simp add: writeAll.simps[of full_writer i b] full_writer_def writeAll.simps[of _ _ "[]"])

definition demo_conn :: conn where
  "demo_conn = \<lparr>cn_in = ([], EOF), cn_writer = full_writer, cn_calls = 0, cn_sent = [], cn_clear = [], cn_tls = False\<rparr>"

lemma commit_env_id [simp]: "commit_env sha256 pid (\<lambda>sv. sv)"
  unfolding kind_env_def by (rule exI[of _ "[]"]) simp

end
