(* ===== verification/Mysql_Session_Correct.thy ===== *)
theory Mysql_Session_Correct
  imports Mysql_Session Session_Correct
begin

text \<open>
  The session of the MySQL proxy is a relay: what it received from one side it sends to the other,
  unchanged and in order, until it stops. The events of a command form one flow; the
  acknowledgement of a commit is withheld only after a confirmed commit and by a selected fault;
  and no session panics.
\<close>
section \<open>Writing packets\<close>

lemma mysql_writePacket_prefix:
  assumes "mysql_writePacket w i p = (sent, j, err)"
  shows "\<exists>rest. packet_bytes p = sent @ rest \<and> (err = None \<longrightarrow> rest = [])"
  using assms writeAll_prefix[of w i "packet_bytes p"]
  by (auto simp: mysql_writePacket_def split: if_splits)

lemma send_packet:
  assumes "send_with mysql_writePacket p c = (err, c')"
  shows "\<exists>sent rest. cn_sent c' = cn_sent c @ sent \<and> packet_bytes p = sent @ rest \<and> (err = None \<longrightarrow> rest = [])"
  using assms mysql_writePacket_prefix
  by (fastforce simp: send_with_def split: prod.splits)

section \<open>The relay\<close>

text \<open>
  Relative to a state \<open>s0\<close>, all the packets that were received from the upstream have been sent to
  the client, in their order and unchanged, except for those in \<open>kept\<close>; the connection to the
  upstream is \<open>u\<close>.
\<close>

definition relay :: "('h, 'p) my_session \<Rightarrow> conn \<Rightarrow> packet list \<Rightarrow> ('h, 'p) my_session \<Rightarrow> bool" where
  "relay s0 u kept s \<longleftrightarrow> ms_upstream s = u \<and> (\<exists>ps.
     ms_back s0 = map Inr ps @ map Inr kept @ ms_back s
     \<and> cn_sent (ms_client s) = cn_sent (ms_client s0) @ concat (map packet_bytes ps))"

text \<open>
  When the session stops, at most one result of \<open>receive\<close> was not passed on, and what was sent after
  the complete packets is the beginning of that packet or of the rejection.
\<close>

definition stopped :: "('h, 'p) my_session \<Rightarrow> conn \<Rightarrow> ('h, 'p) my_session \<Rightarrow> bool" where
  "stopped s0 u s \<longleftrightarrow> ms_upstream s = u \<and> (\<exists>ps more tail last rest.
     ms_back s0 = map Inr ps @ more @ ms_back s \<and> length more \<le> 1
     \<and> cn_sent (ms_client s) = cn_sent (ms_client s0) @ concat (map packet_bytes ps) @ tail
     \<and> (last = mysql_reject_packet 1 \<or> more = [Inr last]) \<and> packet_bytes last = tail @ rest)"

lemma relay_stopped: "relay s0 u [] s \<Longrightarrow> stopped s0 u s"
  unfolding relay_def stopped_def by (metis append_Nil append_Nil2 le0 list.map(1) list.size(3))

lemma held_stopped: "relay s0 u [p] s \<Longrightarrow> stopped s0 u s"
  unfolding relay_def stopped_def
  by (metis append_Nil append_Nil2 le_refl length_Cons list.map list.size(3) One_nat_def)

lemma relay_upd [simp]:
  "relay s0 u kept (s\<lparr>ms_seq := a\<rparr>) = relay s0 u kept s"
  "relay s0 u kept (s\<lparr>ms_statements := b\<rparr>) = relay s0 u kept s"
  "relay s0 u kept (s\<lparr>ms_transaction := c\<rparr>) = relay s0 u kept s"
  "relay s0 u kept (s\<lparr>ms_outcome := d\<rparr>) = relay s0 u kept s"
  "relay s0 u kept (s\<lparr>ms_event := e\<rparr>) = relay s0 u kept s"
  "relay s0 u kept (s\<lparr>ms_events := f\<rparr>) = relay s0 u kept s"
  "relay s0 u kept (s\<lparr>ms_service := g\<rparr>) = relay s0 u kept s"
  by (simp_all add: relay_def)

lemma stopped_upd [simp]:
  "stopped s0 u (s\<lparr>ms_transaction := c\<rparr>) = stopped s0 u s"
  "stopped s0 u (s\<lparr>ms_outcome := d\<rparr>) = stopped s0 u s"
  "stopped s0 u (s\<lparr>ms_event := e\<rparr>) = stopped s0 u s"
  "stopped s0 u (s\<lparr>ms_events := f\<rparr>) = stopped s0 u s"
  by (simp_all add: stopped_def)

lemma to_client_result:
  assumes "to_client p s = (r, s')"
  obtains c sent rest where "s' = s\<lparr>ms_client := c\<rparr>" "cn_sent c = cn_sent (ms_client s) @ sent"
    "packet_bytes p = sent @ rest" "r = Inr () \<longrightarrow> rest = []"
  using assms send_packet[of p "ms_client s"]
  by (fastforce simp: to_client_def split: prod.splits option.splits)

lemma to_client_relay:
  "triple (relay s0 u [p]) (to_client p) (\<lambda>_. relay s0 u []) (\<lambda>_. stopped s0 u)"
proof (rule tripleI)
  fix s r s' assume P: "relay s0 u [p] s" and m: "to_client p s = (r, s')"
  obtain c sent rest where c: "s' = s\<lparr>ms_client := c\<rparr>" "cn_sent c = cn_sent (ms_client s) @ sent"
    "packet_bytes p = sent @ rest" "r = Inr () \<longrightarrow> rest = []"
    by (rule to_client_result[OF m])
  obtain ps where ps: "ms_upstream s = u" "ms_back s0 = map Inr ps @ [Inr p] @ ms_back s"
    "cn_sent (ms_client s) = cn_sent (ms_client s0) @ concat (map packet_bytes ps)"
    using P by (auto simp: relay_def)
  show "case r of Inr a \<Rightarrow> relay s0 u [] s' | Inl e \<Rightarrow> stopped s0 u s'"
  proof (cases r)
    case (Inr x)
    then have "relay s0 u [] s'"
      using ps c unfolding relay_def by (intro conjI exI[of _ "ps @ [p]"]) auto
    with Inr show ?thesis by simp
  next
    case (Inl e)
    have "stopped s0 u s'"
      unfolding stopped_def
      using ps c by (intro conjI exI[of _ ps] exI[of _ "[Inr p]"] exI[of _ sent] exI[of _ p] exI[of _ rest]) auto
    with Inl show ?thesis by simp
  qed
qed

lemma reject_relay:
  "triple (relay s0 u []) (mysql_reject 1) (\<lambda>_. stopped s0 u) (\<lambda>_. stopped s0 u)"
proof (rule tripleI)
  fix s r s' assume P: "relay s0 u [] s" and m: "(mysql_reject 1 :: (('a, 'b) my_session, unit) eff) s = (r, s')"
  obtain r1 s1 where t: "to_client (mysql_reject_packet 1) s = (r1, s1)" by fastforce
  obtain c sent rest where c: "s1 = s\<lparr>ms_client := c\<rparr>" "cn_sent c = cn_sent (ms_client s) @ sent"
    "packet_bytes (mysql_reject_packet 1) = sent @ rest"
    by (rule to_client_result[OF t])
  obtain ps where ps: "ms_upstream s = u" "ms_back s0 = map Inr ps @ ms_back s"
    "cn_sent (ms_client s) = cn_sent (ms_client s0) @ concat (map packet_bytes ps)"
    using P by (auto simp: relay_def)
  have "stopped s0 u s1"
    unfolding stopped_def
    using ps c by (intro conjI exI[of _ ps] exI[of _ "[]"] exI[of _ sent] exI[of _ "mysql_reject_packet 1"]
        exI[of _ rest]) auto
  moreover have "s' = s1"
    using m t by (auto simp: mysql_reject_def andThen_def caught_def return_def split: sum.splits gerror.splits)
  ultimately show "case r of Inr a \<Rightarrow> stopped s0 u s' | Inl e \<Rightarrow> stopped s0 u s'" by (simp split: sum.splits)
qed

lemma receive_relay:
  "triple (relay s0 u []) mysql_receive (\<lambda>p. relay s0 u [p]) (\<lambda>_. stopped s0 u)"
proof (rule tripleI)
  fix s r s' assume P: "relay s0 u [] s" and m: "mysql_receive s = (r, s')"
  obtain ps where ps: "ms_upstream s = u" "ms_back s0 = map Inr ps @ ms_back s"
    "cn_sent (ms_client s) = cn_sent (ms_client s0) @ concat (map packet_bytes ps)"
    using P by (auto simp: relay_def)
  show "case r of Inr p \<Rightarrow> relay s0 u [p] s' | Inl e \<Rightarrow> stopped s0 u s'"
  proof (cases "ms_back s")
    case Nil
    then show ?thesis using m relay_stopped[OF P] by (auto simp: mysql_receive_def)
  next
    case (Cons x xs)
    then have s': "s' = s\<lparr>ms_back := xs\<rparr>" "r = x" using m by (simp_all add: mysql_receive_def)
    have "stopped s0 u s'"
      unfolding stopped_def
      using ps Cons s' by (intro conjI exI[of _ ps] exI[of _ "[x]"] exI[of _ "[]"]
          exI[of _ "mysql_reject_packet 1"] exI[of _ "packet_bytes (mysql_reject_packet 1)"]) auto
    moreover have "\<And>p. x = Inr p \<Longrightarrow> relay s0 u [p] s'"
      unfolding relay_def using ps Cons s' by (intro conjI exI[of _ ps]) auto
    ultimately show ?thesis using s'(2) by (cases x) auto
  qed
qed

lemma cycle_read_relay:
  "triple (relay s0 u []) cycle_read (\<lambda>p. relay s0 u [p]) (\<lambda>_. stopped s0 u)"
  unfolding cycle_read_def
  by (rule triple_andThen[OF receive_relay])
    (auto intro!: tripleI simp: held_stopped split: if_splits)

lemma byte_at_keeps: "(\<And>s. P s \<Longrightarrow> E (Panic ''index out of range'') s) \<Longrightarrow> triple P (byte_at i b) (\<lambda>_. P) E"
  by (auto simp: byte_at_def intro: triple_return triple_fail)

lemmas relay_intros = triple_return triple_fail triple_modify triple_gets triple_if to_client_relay
  relay_stopped held_stopped byte_at_keeps

lemma definitions_loop_relay:
  "triple (relay s0 u []) (definitions_loop n) (\<lambda>_. relay s0 u []) (\<lambda>_. stopped s0 u)"
proof (induction n)
  case 0
  show ?case by (simp add: triple_return)
next
  case (Suc n)
  show ?case
    unfolding definitions_loop.simps
    by (rule triple_andThen[OF cycle_read_relay] triple_andThen[OF byte_at_keeps] triple_if
        triple_andThen[OF to_client_relay] Suc triple_fail held_stopped | assumption)+
qed

lemma definitions_relay:
  "triple (relay s0 u []) (definitions modern n) (\<lambda>_. relay s0 u []) (\<lambda>_. stopped s0 u)"
  unfolding definitions_def
  by (rule triple_if triple_andThen[OF cycle_read_relay] triple_andThen[OF definitions_loop_relay]
      to_client_relay triple_return triple_fail held_stopped relay_stopped | assumption)+

text \<open>An effect with its error as a value.\<close>

definition settled :: "('h, 'p) my_session \<Rightarrow> conn \<Rightarrow> gerror option \<Rightarrow> ('h, 'p) my_session \<Rightarrow> bool" where
  "settled s0 u err = (if err = None then relay s0 u [] else stopped s0 u)"

definition ended :: "('h, 'p) my_session \<Rightarrow> conn \<Rightarrow> u16 \<times> bool \<times> gerror option \<Rightarrow> ('h, 'p) my_session \<Rightarrow> bool" where
  "ended s0 u v = settled s0 u (snd (snd v))"

lemma settled_simps [simp]:
  "settled s0 u None = relay s0 u []" "settled s0 u (Some e) = stopped s0 u"
  "ended s0 u (flags, ok, err) = settled s0 u err"
  "settled s0 u err (s\<lparr>ms_transaction := c\<rparr>) = settled s0 u err s"
  by (simp_all add: settled_def ended_def)

lemma caught_relay:
  assumes "triple P m (\<lambda>_. relay s0 u []) (\<lambda>_. stopped s0 u)"
  shows "triple P (caught m) (settled s0 u) (\<lambda>_. stopped s0 u)"
  by (rule triple_caught[OF assms]) auto

lemma valued_relay:
  assumes "triple P m (\<lambda>_. relay s0 u []) (\<lambda>_. stopped s0 u)"
  shows "triple P (valued flags ok m) (ended s0 u) (\<lambda>_. stopped s0 u)"
  unfolding valued_def by (rule triple_andThen[OF caught_relay[OF assms] triple_return]) simp

lemma valued_case:
  assumes "triple P m (\<lambda>_. relay s0 u []) (\<lambda>_. stopped s0 u)" "P s" "valued flags ok m s = (r, s')"
  shows "case r of Inr v \<Rightarrow> ended s0 u v s' | Inl e \<Rightarrow> stopped s0 u s'"
  using triple_Inr[OF valued_relay[OF assms(1)] assms(2)] triple_Inl[OF valued_relay[OF assms(1)] assms(2)] assms(3)
  by (cases r) auto

lemma valued_fail_case:
  assumes "stopped s0 u s" "valued flags ok (fail e) s = (r, s')"
  shows "case r of Inr v \<Rightarrow> ended s0 u v s' | Inl e \<Rightarrow> stopped s0 u s'"
  by (rule valued_case[where P = "stopped s0 u" and m = "fail e", OF _ assms]) (simp add: triple_fail)

lemma result_rows_relay:
  "triple (relay s0 u []) (result_rows modern) (ended s0 u) (\<lambda>_. stopped s0 u)"
proof (rule tripleI)
  fix s r s'
  show "relay s0 u [] s \<Longrightarrow> result_rows modern s = (r, s')
      \<Longrightarrow> case r of Inr v \<Rightarrow> ended s0 u v s' | Inl e \<Rightarrow> stopped s0 u s'"
  proof (induction modern s arbitrary: r s' rule: result_rows.induct)
    case (1 modern s)
    obtain r1 s1 where rd: "cycle_read s = (r1, s1)" by fastforce
    show ?case
    proof (cases r1)
      case (Inl e)
      have "stopped s0 u s1" using triple_Inl[OF cycle_read_relay 1(2)] rd Inl by simp
      then show ?thesis
        using 1(3) rd Inl by (intro valued_fail_case[of s0 u s1]) (simp_all add: result_rows.simps[of modern s])
    next
      case (Inr p)
      have held: "relay s0 u [p] s1" using triple_Inr[OF cycle_read_relay 1(2)] rd Inr by simp
      obtain flags ok where eof: "eofStatus (pk_body p) modern = (flags, ok)" by fastforce
      consider "pk_body p = []" | "pk_body p \<noteq> []" "hd (pk_body p) = 0xff"
        | "pk_body p \<noteq> []" "hd (pk_body p) \<noteq> 0xff" "ok" "flags AND 8 \<noteq> 0"
        | "pk_body p \<noteq> []" "hd (pk_body p) \<noteq> 0xff" "ok" "flags AND 8 = 0"
        | "pk_body p \<noteq> []" "hd (pk_body p) \<noteq> 0xff" "\<not> ok" by blast
      then show ?thesis
      proof cases
        case 1
        then show ?thesis
          using \<open>result_rows modern s = (r, s')\<close> rd Inr held_stopped[OF held]
          by (auto simp: result_rows.simps[of modern s] fail_def)
      next
        case 2
        then show ?thesis
          using \<open>result_rows modern s = (r, s')\<close> rd Inr
          by (intro valued_case[OF to_client_relay held, of 0 False]) (simp_all add: result_rows.simps[of modern s])
      next
        case 3
        then show ?thesis
          using \<open>result_rows modern s = (r, s')\<close> rd Inr eof
          by (intro valued_fail_case[OF held_stopped[OF held], of 0 False ErrProtocol])
            (simp_all add: result_rows.simps[of modern s])
      next
        case 4
        then show ?thesis
          using \<open>result_rows modern s = (r, s')\<close> rd Inr eof
          by (intro valued_case[OF to_client_relay held, of flags True]) (simp_all add: result_rows.simps[of modern s])
      next
        case 5
        obtain r2 s2 where c: "to_client p s1 = (r2, s2)" by fastforce
        show ?thesis
        proof (cases r2)
          case (Inl e)
          have "stopped s0 u s2" using triple_Inl[OF to_client_relay held] c Inl by simp
          then show ?thesis
            using \<open>result_rows modern s = (r, s')\<close> rd \<open>r1 = Inr p\<close> eof 5 c Inl
            by (intro valued_fail_case[of s0 u s2 0 False e]) (simp_all add: result_rows.simps[of modern s])
        next
          case (Inr x)
          have "relay s0 u [] s2" using triple_Inr[OF to_client_relay held] c Inr by simp
          moreover have "result_rows modern s2 = (r, s')"
            using \<open>result_rows modern s = (r, s')\<close> rd \<open>r1 = Inr p\<close> eof 5 c Inr
            by (simp add: result_rows.simps[of modern s])
          ultimately show ?thesis
            using 1(1)[OF rd[symmetric] \<open>r1 = Inr p\<close> 5(1,2) _ _ 5(3) c[symmetric] Inr] eof by simp
        qed
      qed
    qed
  qed
qed

lemma cycle_result_relay:
  "triple (relay s0 u [first]) (cycle_result modern first) (ended s0 u) (\<lambda>_. stopped s0 u)"
proof -
  have or_else: "triple (settled s0 u err) (if err \<noteq> None then return (0, False, err) else m) (ended s0 u) (\<lambda>_. stopped s0 u)"
    if "triple (relay s0 u []) m (ended s0 u) (\<lambda>_. stopped s0 u)" for m err
    using that by (cases err) (auto intro: triple_return)
  have "triple (relay s0 u [first]) (andThen (caught (to_client first)) (\<lambda>err.
      if err \<noteq> None then return (0, False, err)
      else andThen (caught (definitions modern n)) (\<lambda>err.
        if err \<noteq> None then return (0, False, err) else result_rows modern))) (ended s0 u) (\<lambda>_. stopped s0 u)" for n
    by (rule triple_andThen[OF caught_relay[OF to_client_relay]] or_else
        triple_andThen[OF caught_relay[OF definitions_relay]] result_rows_relay)+
  moreover have "triple (relay s0 u [first]) (return (0, False, Some ErrProtocol)) (ended s0 u) (\<lambda>_. stopped s0 u)"
    by (rule triple_return) (simp add: held_stopped)
  ultimately show ?thesis by (simp add: cycle_result_def split: prod.splits)
qed

lemma commit_relay:
  "triple (relay s0 u kept) (mysql_commit t snap proxyID) (\<lambda>_. relay s0 u kept) (\<lambda>_. relay s0 u kept)"
  by (rule tripleI) (auto simp: mysql_commit_def Let_def split: sum.splits prod.splits if_splits)

lemma after_ok_relay [simp]: "relay s0 u kept (after_ok command kind status s) = relay s0 u kept s"
  by (simp add: after_ok_def Let_def relay_def)

lemma answer_prepare_relay:
  "triple (relay s0 u [first]) (answer_prepare modern kind first) (\<lambda>_. relay s0 u []) (\<lambda>_. stopped s0 u)"
  unfolding answer_prepare_def Let_def
  by (rule triple_if triple_fail triple_andThen[OF triple_gets[where Q = "\<lambda>_. relay s0 u [first]"]]
      triple_andThen[OF to_client_relay] triple_andThen[OF definitions_relay] triple_modify held_stopped
      | assumption | simp)+

lemma answer_ok_relay:
  "triple (relay s0 u [first]) (answer_ok t snap proxyID command kind first) (\<lambda>_. relay s0 u []) (\<lambda>_. stopped s0 u)"
proof -
  have com: "triple (relay s0 u [first]) (if confirmed then mysql_commit t snap proxyID else return True)
      (\<lambda>_. relay s0 u [first]) (\<lambda>_. stopped s0 u)" for confirmed
    by (auto intro: triple_return triple_conseq[OF commit_relay] held_stopped)
  have lost: "triple (relay s0 u [first]) (andThen (modify (\<lambda>s. s\<lparr>ms_outcome := x\<rparr>)) (\<lambda>_. fail e))
      (\<lambda>_. relay s0 u []) (\<lambda>_. stopped s0 u)" for x e
    by (rule triple_andThen[where Q' = "\<lambda>_. relay s0 u [first]"])
      (auto intro!: triple_modify triple_fail simp: held_stopped)
  show ?thesis
    unfolding answer_ok_def
    by (auto split: prod.splits intro!: triple_fail held_stopped
        triple_andThen[OF triple_gets[where Q = "\<lambda>_. relay s0 u [first]"]]
        triple_andThen[OF triple_modify[where Q = "\<lambda>_. relay s0 u [first]"]]
        triple_andThen[OF com] lost to_client_relay simp: Let_def)
qed

lemma answer_result_relay:
  "triple (relay s0 u [first]) (answer_result modern first) (\<lambda>_. relay s0 u []) (\<lambda>_. stopped s0 u)"
proof -
  have "triple (ended s0 u (status, ok, err)) (andThen
      (modify (\<lambda>s. if \<not> ok \<or> status AND 1 = 0 then s\<lparr>ms_transaction := False\<rparr> else s)) (\<lambda>_.
         case err of None \<Rightarrow> return () | Some e \<Rightarrow> fail e)) (\<lambda>_. relay s0 u []) (\<lambda>_. stopped s0 u)" for status ok err
    by (rule triple_andThen[where Q' = "\<lambda>_. ended s0 u (status, ok, err)"])
      (auto intro!: triple_modify triple_return triple_fail split: option.splits)
  then show ?thesis
    unfolding answer_result_def by (intro triple_andThen[OF cycle_result_relay]) (auto split: prod.splits)
qed

lemma cycle_answer_relay:
  "triple (relay s0 u []) (cycle_answer t snap proxyID modern command kind) (\<lambda>_. relay s0 u []) (\<lambda>_. stopped s0 u)"
  unfolding cycle_answer_def
  by (rule triple_andThen[OF triple_modify[where Q = "\<lambda>_. relay s0 u []"]] triple_andThen[OF cycle_read_relay]
      triple_andThen[OF byte_at_keeps] triple_if answer_prepare_relay triple_fail answer_ok_relay answer_result_relay
      triple_andThen[OF triple_modify[where Q = "\<lambda>_. relay s0 u [_]"]] to_client_relay held_stopped
    | assumption | simp)+

text \<open>
  A command: what was sent to the upstream grows by the packet of the client, or by its beginning
  when the write fails, and then nothing is received.
\<close>

lemma mysql_cycle_relay:
  assumes P: "relay s0 u [] s" and m: "mysql_cycle t snap proxyID modern p kind s = (r, s')"
  shows "\<exists>u' sent rest. cn_sent u' = cn_sent u @ sent \<and> packet_bytes p = sent @ rest
    \<and> (case r of Inr _ \<Rightarrow> rest = [] \<and> relay s0 u' [] s' | Inl _ \<Rightarrow> stopped s0 u' s')"
proof -
  obtain r1 s1 where t: "to_upstream p s = (r1, s1)" by fastforce
  obtain err u' where u: "send_with mysql_writePacket p (ms_upstream s) = (err, u')" by fastforce
  have s1: "s1 = s\<lparr>ms_upstream := u'\<rparr>" "r1 = (case err of None \<Rightarrow> Inr () | Some e \<Rightarrow> Inl e)"
    using t u by (auto simp: to_upstream_def)
  obtain sent rest where b: "cn_sent u' = cn_sent u @ sent" "packet_bytes p = sent @ rest" "err = None \<longrightarrow> rest = []"
    using send_packet[OF u] P by (auto simp: relay_def)
  have R: "relay s0 u' [] s1" using P by (auto simp: relay_def s1)
  show ?thesis
  proof (cases err)
    case (Some e)
    then have "r = Inl e" "s' = s1" using m t s1(2) by (auto simp: mysql_cycle_def Let_def andThen_def)
    then show ?thesis using b relay_stopped[OF R] by auto
  next
    case None
    then have "rest = []" using b(3) by simp
    moreover have "case r of Inr _ \<Rightarrow> relay s0 u' [] s' | Inl _ \<Rightarrow> stopped s0 u' s'"
    proof (cases "hd (pk_body p) = 0x19")
      case True
      then have "r = Inr ()" "relay s0 u' [] s'"
        using m t s1(2) None R by (auto simp: mysql_cycle_def Let_def andThen_def modify_def)
      then show ?thesis by simp
    next
      case False
      then have "cycle_answer t snap proxyID modern (hd (pk_body p)) kind s1 = (r, s')"
        using m t s1(2) None by (simp add: mysql_cycle_def Let_def andThen_def)
      with triple_Inr[OF cycle_answer_relay R] triple_Inl[OF cycle_answer_relay R]
      show ?thesis by (cases r) auto
    qed
    ultimately show ?thesis using b by (intro exI[of _ u'] exI[of _ sent] exI[of _ rest]) (auto split: sum.splits)
  qed
qed

lemma exchange_turn_relay:
  assumes P: "relay s0 u [] s" and m: "exchange_turn proxyID flags t s = (r, s')"
  shows "\<exists>u' sent. cn_sent u' = cn_sent u @ sent
    \<and> (case r of
         Inr True \<Rightarrow> (\<exists>p. tn_packet t = Inr p \<and> sent = packet_bytes p) \<and> relay s0 u' [] s'
       | _ \<Rightarrow> (sent = [] \<or> (\<exists>p rest. tn_packet t = Inr p \<and> packet_bytes p = sent @ rest)) \<and> stopped s0 u' s')"
proof -
  have idle: ?thesis if "r = Inr False \<or> (\<exists>e. r = Inl e)" "stopped s0 u s'"
    using that by (intro exI[of _ u] exI[of _ "[]"]) auto
  have rej: ?thesis if "andThen (mysql_reject 1) (\<lambda>_. return False) s = (r, s')"
    using that triple_Inr[OF reject_relay P] triple_Inl[OF reject_relay P]
    by (intro idle) (auto simp: andThen_def return_def split: prod.splits sum.splits)
  show ?thesis
  proof (cases "tn_packet t")
    case (Inl e)
    then show ?thesis using m relay_stopped[OF P] by (intro idle) (auto simp: exchange_turn_def return_def)
  next
    case (Inr p)
    consider "pk_seq p \<noteq> 0" | "pk_seq p = 0" "pk_body p = []"
      | "pk_seq p = 0" "pk_body p \<noteq> []" "check_command p (ms_statements s) = Quit"
      | "pk_seq p = 0" "pk_body p \<noteq> []" "check_command p (ms_statements s) = Refuse"
      | kind where "pk_seq p = 0" "pk_body p \<noteq> []" "check_command p (ms_statements s) = Proceed kind"
      by (cases "check_command p (ms_statements s)") blast+
    then show ?thesis
    proof cases
      case 1
      then show ?thesis using m Inr by (intro rej) (simp add: exchange_turn_def)
    next
      case 2
      then show ?thesis
        using m Inr relay_stopped[OF P] by (intro idle) (auto simp: exchange_turn_def fail_def)
    next
      case 3
      then show ?thesis
        using m Inr relay_stopped[OF P] by (intro idle) (auto simp: exchange_turn_def andThen_def gets_def return_def)
    next
      case 4
      then show ?thesis
        using m Inr by (intro rej) (simp add: exchange_turn_def andThen_def[of "gets ms_statements"] gets_def)
    next
      case 5
      let ?snap = "Acquire (tn_before t (ms_service s))"
      let ?e = "start_event t ?snap proxyID"
      let ?s = "s\<lparr>ms_service := tn_before t (ms_service s), ms_event := ?e, ms_outcome := ''forwarded'',
        ms_events := ms_events s @ [?e]\<rparr>"
      obtain r1 s1 where c: "mysql_cycle t ?snap proxyID (flags AND capDeprecateEOF \<noteq> 0) p kind ?s = (r1, s1)" by fastforce
      have "relay s0 u [] ?s" using P by simp
      from mysql_cycle_relay[OF this c]
      obtain u' sent rest where u: "cn_sent u' = cn_sent u @ sent" "packet_bytes p = sent @ rest"
        "case r1 of Inr _ \<Rightarrow> rest = [] \<and> relay s0 u' [] s1 | Inl _ \<Rightarrow> stopped s0 u' s1" by blast
      have f: "relay s0 u' [] (finish_event t err s1) = relay s0 u' [] s1"
        "stopped s0 u' (finish_event t err s1) = stopped s0 u' s1" for err
        by (simp_all add: finish_event_def Let_def)
      have "r = (case r1 of Inr _ \<Rightarrow> Inr True | Inl e \<Rightarrow> if is_panic e then Inl e else Inr False)"
        "s' = (case r1 of Inr _ \<Rightarrow> finish_event t None s1
           | Inl e \<Rightarrow> if is_panic e then s1 else finish_event t (Some e) s1)"
        using m c 5 Inr by (auto simp: exchange_turn_def eff_defs Let_def is_panic_def split: sum.splits gerror.splits)
      then show ?thesis
        using u f Inr by (intro exI[of _ u'] exI[of _ sent]) (auto split: sum.splits if_splits)
    qed
  qed
qed

lemma mysql_exchange_relay:
  assumes P: "relay s0 u [] s" and m: "mysql_exchange proxyID flags ts s = (r, s')"
  shows "\<exists>u' sent ps rest. cn_sent u' = cn_sent u @ concat (map packet_bytes ps) @ sent \<and> stopped s0 u' s'
    \<and> map Inr ps = take (length ps) (map tn_packet ts)
    \<and> (sent = [] \<or> (\<exists>p. length ps < length ts \<and> tn_packet (ts ! length ps) = Inr p \<and> packet_bytes p = sent @ rest))"
  using assms
proof (induction ts arbitrary: s u)
  case Nil
  then show ?case
    by (intro exI[of _ u] exI[of _ "[]"]) (auto simp: return_def relay_stopped)
next
  case (Cons t ts)
  obtain r1 s1 where t: "exchange_turn proxyID flags t s = (r1, s1)" by fastforce
  obtain u1 sent where u: "cn_sent u1 = cn_sent u @ sent"
    "case r1 of Inr True \<Rightarrow> (\<exists>p. tn_packet t = Inr p \<and> sent = packet_bytes p) \<and> relay s0 u1 [] s1
       | _ \<Rightarrow> (sent = [] \<or> (\<exists>p rest. tn_packet t = Inr p \<and> packet_bytes p = sent @ rest)) \<and> stopped s0 u1 s1"
    using exchange_turn_relay[OF Cons.prems(1) t] by blast
  show ?case
  proof (cases "r1 = Inr True")
    case True
    then obtain p where p: "tn_packet t = Inr p" "sent = packet_bytes p" and R: "relay s0 u1 [] s1" using u(2) by auto
    have "mysql_exchange proxyID flags ts s1 = (r, s')" using Cons.prems(2) t True by (simp add: andThen_def)
    from Cons.IH[OF R this] obtain u' sent' ps rest where
      "cn_sent u' = cn_sent u1 @ concat (map packet_bytes ps) @ sent'" "stopped s0 u' s'"
      "map Inr ps = take (length ps) (map tn_packet ts)"
      "sent' = [] \<or> (\<exists>p. length ps < length ts \<and> tn_packet (ts ! length ps) = Inr p \<and> packet_bytes p = sent' @ rest)"
      by blast
    then show ?thesis
      using p u(1) by (intro exI[of _ u'] exI[of _ sent'] exI[of _ "p # ps"] exI[of _ rest]) auto
  next
    case False
    then have "s' = s1" "stopped s0 u1 s1"
      "sent = [] \<or> (\<exists>p rest. tn_packet t = Inr p \<and> packet_bytes p = sent @ rest)"
      using Cons.prems(2) t u(2) by (auto simp: andThen_def return_def split: sum.splits bool.splits)
    then show ?thesis
      using u(1) by (fastforce intro: exI[of _ u1] exI[of _ sent] exI[of _ "[]"])
  qed
qed

section \<open>What the answers leave alone\<close>

text \<open>
  The interface between the steps that relay an answer and the invariants of a session: \<open>inv\<close> is kept
  by sending to the client, by receiving (which gives acceptable packets), by the sequence number and
  by the transaction flag; \<open>err\<close> holds when a step fails. Every answer then keeps \<open>inv\<close>.
\<close>

definition settles :: "('s \<Rightarrow> bool) \<Rightarrow> (gerror \<Rightarrow> 's \<Rightarrow> bool) \<Rightarrow> gerror option \<Rightarrow> 's \<Rightarrow> bool" where
  "settles I E er s \<longleftrightarrow> I s \<and> (\<forall>e. er = Some e \<longrightarrow> E e s)"

locale relay_invariant =
  fixes inv :: "('h, 'p) my_session \<Rightarrow> bool" and err :: "gerror \<Rightarrow> ('h, 'p) my_session \<Rightarrow> bool"
    and acceptable :: "packet \<Rightarrow> bool"
  assumes send: "triple inv (to_client p) (\<lambda>_. inv) err"
    and receive: "triple inv mysql_receive (\<lambda>p s. inv s \<and> acceptable p) err"
    and seq: "inv s \<Longrightarrow> inv (s\<lparr>ms_seq := n\<rparr>)"
    and transaction: "inv s \<Longrightarrow> inv (s\<lparr>ms_transaction := b\<rparr>)"
    and protocol: "inv s \<Longrightarrow> err ErrProtocol s"
    and empty: "inv s \<Longrightarrow> acceptable p \<Longrightarrow> pk_body p = [] \<Longrightarrow> err (Panic ''index out of range'') s"
    and handled: "err e s \<Longrightarrow> \<not> is_panic e \<Longrightarrow> inv s"
    and repeated: "err e s \<Longrightarrow> err e (s\<lparr>ms_transaction := b\<rparr>)"
begin

lemma read: "triple inv cycle_read (\<lambda>p s. inv s \<and> acceptable p) err"
  unfolding cycle_read_def
  by (rule triple_andThen[OF receive]) (auto intro!: tripleI simp: seq protocol split: if_splits)

lemma first_byte: "triple (\<lambda>s. inv s \<and> acceptable p) (byte_at 0 (pk_body p)) (\<lambda>_. inv) err"
  by (auto simp: byte_at_def intro!: triple_return triple_fail empty)

lemma loop: "triple inv (definitions_loop n) (\<lambda>_. inv) err"
proof (induction n)
  case 0
  show ?case by (simp add: triple_return)
next
  case (Suc n)
  show ?case
    unfolding definitions_loop.simps
    by (rule triple_andThen[OF read] triple_andThen[OF first_byte] triple_if triple_andThen[OF send] Suc
        triple_fail protocol | assumption)+
qed

lemma forget: "triple inv m Q e \<Longrightarrow> triple (\<lambda>s. inv s \<and> a) m Q e"
  by (erule triple_conseq) auto

lemma defs: "triple inv (definitions modern n) (\<lambda>_. inv) err"
  unfolding definitions_def
  by (rule triple_if triple_andThen[OF read] triple_andThen[OF loop] forget send triple_return triple_fail protocol
      | assumption)+

lemma caught_inv: "triple P m (\<lambda>_. inv) err \<Longrightarrow> triple P (caught m) (settles inv err) err"
  by (erule triple_caught) (auto dest: handled simp: settles_def)

lemma valued_inv:
  "triple P m (\<lambda>_. inv) err \<Longrightarrow> triple P (valued flags ok m) (\<lambda>v. settles inv err (snd (snd v))) err"
  unfolding valued_def by (rule triple_andThen[OF caught_inv triple_return]) simp_all

lemma valued_fail_inv:
  "err e s \<Longrightarrow> valued flags ok (fail e) s = (r, s')
    \<Longrightarrow> case r of Inr v \<Rightarrow> settles inv err (snd (snd v)) s' | Inl e \<Rightarrow> err e s'"
proof -
  have "triple (err e) (valued flags ok (fail e)) (\<lambda>v. settles inv err (snd (snd v))) err"
    by (rule valued_inv, rule triple_fail)
  then show "err e s \<Longrightarrow> valued flags ok (fail e) s = (r, s')
    \<Longrightarrow> case r of Inr v \<Rightarrow> settles inv err (snd (snd v)) s' | Inl e \<Rightarrow> err e s'"
    using triple_Inr triple_Inl by (cases r) fastforce+
qed

lemma rows: "triple inv (result_rows modern) (\<lambda>v. settles inv err (snd (snd v))) err"
proof (rule tripleI)
  fix s r s'
  show "inv s \<Longrightarrow> result_rows modern s = (r, s') \<Longrightarrow> case r of Inr v \<Rightarrow> settles inv err (snd (snd v)) s' | Inl e \<Rightarrow> err e s'"
  proof (induction modern s arbitrary: r s' rule: result_rows.induct)
    case (1 modern s)
    note run = 1(3)
    obtain r1 s1 where rd: "cycle_read s = (r1, s1)" by fastforce
    show ?case
    proof (cases r1)
      case (Inl e)
      have "err e s1" using triple_Inl[OF read 1(2)] rd Inl by simp
      then show ?thesis
        using run rd Inl by (intro valued_fail_inv[of e s1]) (simp_all add: result_rows.simps[of modern s])
    next
      case (Inr p)
      have a: "inv s1" "acceptable p" using triple_Inr[OF read 1(2)] rd Inr by auto
      obtain flags ok where eof: "eofStatus (pk_body p) modern = (flags, ok)" by fastforce
      obtain r2 s2 where c: "to_client p s1 = (r2, s2)" by fastforce
      have sent: "case r of Inr v \<Rightarrow> settles inv err (snd (snd v)) s' | Inl e \<Rightarrow> err e s'" if "valued x y (to_client p) s1 = (r, s')" for x y
        using triple_Inr[OF valued_inv[OF send] a(1)] triple_Inl[OF valued_inv[OF send] a(1)] that by (cases r) auto
      consider "pk_body p = []" | "pk_body p \<noteq> []" "hd (pk_body p) = 0xff \<or> ok"
        | "pk_body p \<noteq> []" "hd (pk_body p) \<noteq> 0xff" "\<not> ok" by blast
      then show ?thesis
      proof cases
        case 1
        then show ?thesis
          using run rd Inr empty[OF a] by (auto simp: result_rows.simps[of modern s] fail_def)
      next
        case 2
        then show ?thesis
          using run rd Inr eof sent valued_fail_inv[OF protocol[OF a(1)]]
          by (auto simp: result_rows.simps[of modern s] split: if_splits)
      next
        case 3
        show ?thesis
        proof (cases r2)
          case (Inl e)
          have "err e s2" using triple_Inl[OF send a(1)] c Inl by simp
          then show ?thesis
            using run rd \<open>r1 = Inr p\<close> eof 3 c Inl
            by (intro valued_fail_inv[of e s2 0 False]) (simp_all add: result_rows.simps[of modern s])
        next
          case (Inr x)
          have "inv s2" using triple_Inr[OF send a(1)] c Inr by simp
          moreover have "result_rows modern s2 = (r, s')"
            using run rd \<open>r1 = Inr p\<close> eof 3 c Inr by (simp add: result_rows.simps[of modern s])
          ultimately show ?thesis
            using 1(1)[OF rd[symmetric] \<open>r1 = Inr p\<close> 3(1,2) _ _ 3(3) c[symmetric] Inr] eof by simp
        qed
      qed
    qed
  qed
qed

lemma outcome: "triple inv (cycle_result modern first) (\<lambda>v. settles inv err (snd (snd v))) err"
proof -
  have or_else: "triple (settles inv err er) (if er \<noteq> None then return (0, False, er) else m)
      (\<lambda>v. settles inv err (snd (snd v))) err"
    if "triple inv m (\<lambda>v. settles inv err (snd (snd v))) err" for m er
    using that by (cases er) (auto intro!: triple_return simp: settles_def elim!: triple_conseq)
  have "triple inv (andThen (caught (to_client first)) (\<lambda>er.
      if er \<noteq> None then return (0, False, er)
      else andThen (caught (definitions modern n)) (\<lambda>er.
        if er \<noteq> None then return (0, False, er) else result_rows modern))) (\<lambda>v. settles inv err (snd (snd v))) err" for n
    by (rule triple_andThen[OF caught_inv[OF send]] or_else triple_andThen[OF caught_inv[OF defs]] rows)+
  moreover have "triple inv (return (0 :: u16, False, Some ErrProtocol)) (\<lambda>v. settles inv err (snd (snd v))) err"
    by (rule triple_return) (simp add: settles_def protocol)
  ultimately show ?thesis by (simp add: cycle_result_def split: prod.splits)
qed

lemma result: "triple inv (answer_result modern first) (\<lambda>_. inv) err"
proof -
  have "triple (settles inv err er) (andThen
      (modify (\<lambda>s. if \<not> ok \<or> status AND 1 = 0 then s\<lparr>ms_transaction := False\<rparr> else s)) (\<lambda>_.
         case er of None \<Rightarrow> return () | Some e \<Rightarrow> fail e)) (\<lambda>_. inv) err" for status :: u16 and ok er
    by (rule triple_andThen[where Q' = "\<lambda>_. settles inv err er"])
      (auto intro!: triple_modify triple_return triple_fail simp: settles_def transaction repeated split: option.splits)
  then show ?thesis
    unfolding answer_result_def by (intro triple_andThen[OF outcome]) (auto split: prod.splits)
qed

end

section \<open>The events of a command\<close>

definition untouched :: "('h, 'p) my_session \<Rightarrow> ('h, 'p) my_session \<Rightarrow> bool" where
  "untouched s0 s \<longleftrightarrow> ms_events s = ms_events s0 \<and> ms_event s = ms_event s0 \<and> ms_outcome s = ms_outcome s0"

interpretation untouched: relay_invariant "untouched s0" "\<lambda>_. untouched s0" "\<lambda>_. True" for s0
  by unfold_locales
    (auto intro!: tripleI simp: untouched_def to_client_def mysql_receive_def
      split: prod.splits list.splits sum.splits)

text \<open>
  A command leaves no trace between its first and its last event (\<open>quiet\<close>), or its commit was
  confirmed and a decision was taken (\<open>noted\<close>): then the first packet of the answer is an OK packet
  outside a transaction, and the events are the decision and, if it selected the flow, the fault.
\<close>

definition quiet :: "('h, 'p) my_session \<Rightarrow> ('h, 'p) my_session \<Rightarrow> bool" where
  "quiet s0 s \<longleftrightarrow> ms_events s = ms_events s0 \<and> ms_event s = ms_event s0
     \<and> (ms_outcome s = ''forwarded'' \<or> ms_outcome s = ''upstream_error'')"

definition confirms :: "statement \<Rightarrow> bool \<Rightarrow> packet \<Rightarrow> bool" where
  "confirms kind transaction first \<longleftrightarrow> kind = commit \<and> transaction
     \<and> (\<exists>status. okStatus (pk_body first) = (status, True) \<and> status AND 8 = 0 \<and> status AND 1 = 0)"

definition noted :: "('h, 'p) turn \<Rightarrow> snapshot \<Rightarrow> string \<Rightarrow> statement \<Rightarrow> ('h, 'p) my_session
    \<Rightarrow> string \<Rightarrow> decision \<Rightarrow> ('h, 'p) my_session \<Rightarrow> bool" where
  "noted t snap proxyID kind s0 out d s \<longleftrightarrow>
     (\<exists>first rest sv x. ms_back s0 = Inr first # rest \<and> confirms kind (ms_transaction s0) first
        \<and> snapshot_Decide snap proxyID no_metadata (tn_during t (ms_service s0)) = Inr (sv, d, x))
     \<and> ms_outcome s = out
     \<and> ms_event s = (if de_Selected d then with_applied (with_decision d (ms_event s0)) else with_decision d (ms_event s0))
     \<and> ms_events s = ms_events s0 @ [with_decision d (ms_event s0)]
         @ (if de_Selected d then [with_applied (with_decision d (ms_event s0))] else [])"

definition delivered :: "('h, 'p) turn \<Rightarrow> snapshot \<Rightarrow> string \<Rightarrow> statement \<Rightarrow> ('h, 'p) my_session \<Rightarrow> ('h, 'p) my_session \<Rightarrow> bool" where
  "delivered t snap proxyID kind s0 s \<longleftrightarrow> quiet s0 s
     \<or> (\<exists>d. noted t snap proxyID kind s0 ''forwarded'' d s
          \<and> (de_Selected d \<longrightarrow> mysql_apply (tn_done t) (de_Fault d) = Inr True))"

text \<open>The acknowledgement is lost only after the fault, and then nothing was sent to the client.\<close>

definition withheld :: "('h, 'p) turn \<Rightarrow> snapshot \<Rightarrow> string \<Rightarrow> statement \<Rightarrow> ('h, 'p) my_session \<Rightarrow> ('h, 'p) my_session \<Rightarrow> bool" where
  "withheld t snap proxyID kind s0 s \<longleftrightarrow>
     (\<exists>d. noted t snap proxyID kind s0 ''commit_ack_lost'' d s \<and> de_Selected d
        \<and> mysql_apply (tn_done t) (de_Fault d) = Inr False \<and> ms_client s = ms_client s0)"

lemma untouched_quiet: "untouched s s' \<Longrightarrow> quiet s0 s \<Longrightarrow> quiet s0 s'"
  by (auto simp: untouched_def quiet_def)

lemma untouched_refl [simp]: "untouched s s"
  by (simp add: untouched_def)

lemma answer_prepare_untouched:
  "triple (untouched s0) (answer_prepare modern kind first) (\<lambda>_. untouched s0) (\<lambda>_. untouched s0)"
  unfolding answer_prepare_def Let_def
  by (rule triple_if triple_fail triple_andThen[OF triple_gets[where Q = "\<lambda>_. untouched s0"]]
      triple_andThen[OF untouched.send] triple_andThen[OF untouched.defs] triple_modify
      | assumption | simp add: untouched_def)+

text \<open>Effects that do not touch the events, from a quiet state.\<close>

lemma untouched_case:
  assumes "\<And>s0. triple (untouched s0) m (\<lambda>_. untouched s0) (\<lambda>_. untouched s0)" "m s = (r, s')"
  shows "untouched s s'"
  using triple_Inr[OF assms(1), of s s] triple_Inl[OF assms(1), of s s] assms(2) by (cases r) auto

lemma answer_ok_events:
  assumes run: "answer_ok t snap proxyID command kind first s = (r, s')"
    and s: "ms_back s0 = Inr first # rest" "ms_transaction s = ms_transaction s0" "ms_service s = ms_service s0"
      "ms_client s = ms_client s0" "untouched s0 s" "ms_outcome s = ''forwarded''"
  shows "delivered t snap proxyID kind s0 s' \<or> (r = Inl ErrProtocol \<and> withheld t snap proxyID kind s0 s')
    \<or> (\<exists>e. r = Inl e \<and> is_panic e)"
proof -
  obtain status ok where st: "okStatus (pk_body first) = (status, ok)" by fastforce
  have q: "quiet s0 s" using s(5,6) by (auto simp: quiet_def untouched_def)
  show ?thesis
  proof (cases "ok \<and> status AND 8 = 0")
    case False
    then show ?thesis using run st q by (auto simp: answer_ok_def fail_def delivered_def)
  next
    case True
    let ?s1 = "after_ok command kind status s"
    have s1: "ms_back ?s1 = ms_back s" "ms_client ?s1 = ms_client s" "ms_service ?s1 = ms_service s" "untouched s ?s1"
      by (simp_all add: after_ok_def Let_def untouched_def)
    then have q1: "quiet s0 ?s1" using untouched_quiet[OF _ q] by blast
    show ?thesis
    proof (cases "kind = commit \<and> ms_transaction s \<and> status AND 1 = 0")
      case False
      then have "to_client first ?s1 = (r, s')"
        using run st True by (auto simp: answer_ok_def eff_defs split: if_splits)
      then show ?thesis
        using untouched_quiet[OF untouched_case[OF untouched.send] q1] by (auto simp: delivered_def)
    next
      case conf: True
      obtain r1 s2 where c: "mysql_commit t snap proxyID ?s1 = (r1, s2)" by fastforce
      have k: "confirms kind (ms_transaction s0) first" using conf st True s(2) by (auto simp: confirms_def)
      have run': "(case r1 of Inl e \<Rightarrow> (Inl e, s2)
          | Inr True \<Rightarrow> to_client first s2
          | Inr False \<Rightarrow> (Inl ErrProtocol, s2\<lparr>ms_outcome := ''commit_ack_lost''\<rparr>)) = (r, s')"
        using run st True conf c by (auto simp: answer_ok_def eff_defs split: sum.splits bool.splits)
      show ?thesis
      proof (cases "snapshot_Decide snap proxyID no_metadata (tn_during t (ms_service s0))")
        case (Inl e)
        then show ?thesis
          using c run' s(3) s1 q1 by (auto simp: mysql_commit_def delivered_def)
      next
        case (Inr v)
        obtain sv d x where v: "v = (sv, d, x)" by (cases v)
        have n: "noted t snap proxyID kind s0 out d s3"
          if "untouched (s2\<lparr>ms_outcome := out\<rparr>) s3" for out s3
          using that c Inr v s s1 k
          by (auto simp: noted_def mysql_commit_def Let_def untouched_def split: if_splits)
        have f: "s2\<lparr>ms_outcome := ''forwarded''\<rparr> = s2"
          using c Inr v s s1(3,4) by (auto simp: mysql_commit_def Let_def untouched_def split: if_splits)
        have r1: "r1 = (if de_Selected d then mysql_apply (tn_done t) (de_Fault d) else Inr True)"
          using c Inr v s(3) s1(3) by (auto simp: mysql_commit_def Let_def split: if_splits)
        have cl: "ms_client s2 = ms_client s0"
          using c Inr v s(3,4) s1(2,3) by (auto simp: mysql_commit_def Let_def split: if_splits)
        show ?thesis
        proof (cases r1)
          case (Inl e)
          then have "is_panic e" "r = Inl e"
            using r1 run' by (auto simp: mysql_apply_def split: if_splits option.splits)
          then show ?thesis by blast
        next
          case (Inr b)
          show ?thesis
          proof (cases b)
            case True
            then have "untouched s2 s'" using run' Inr untouched_case[OF untouched.send] by auto
            then have "noted t snap proxyID kind s0 ''forwarded'' d s'" using n[of "''forwarded''" s'] f by simp
            then show ?thesis using r1 Inr True by (auto simp: delivered_def split: if_splits)
          next
            case False
            then show ?thesis
              using n[of "''commit_ack_lost''" "s2\<lparr>ms_outcome := ''commit_ack_lost''\<rparr>"] run' Inr r1 cl
              by (auto simp: withheld_def split: if_splits)
          qed
        qed
      qed
    qed
  qed
qed

lemma read_cases:
  assumes "cycle_read s = (r, s')"
  obtains "untouched s s'" "\<exists>e. r = Inl e"
  | p rest where "r = Inr p" "ms_back s = Inr p # rest" "s' = s\<lparr>ms_back := rest, ms_seq := ms_seq s + 1\<rparr>"
  using assms
  by (auto simp: cycle_read_def andThen_def mysql_receive_def untouched_def split: list.splits sum.splits if_splits)

lemma cycle_answer_events:
  assumes run: "cycle_answer t snap proxyID modern command kind s = (r, s')"
    and s: "ms_back s = ms_back s0" "ms_transaction s = ms_transaction s0" "ms_service s = ms_service s0"
      "ms_client s = ms_client s0" "untouched s0 s" "ms_outcome s = ''forwarded''"
  shows "delivered t snap proxyID kind s0 s' \<or> (r = Inl ErrProtocol \<and> withheld t snap proxyID kind s0 s')
    \<or> (\<exists>e. r = Inl e \<and> is_panic e)"
proof -
  let ?s1 = "s\<lparr>ms_seq := 1\<rparr>"
  have q: "quiet s0 s" using s(5,6) by (auto simp: quiet_def untouched_def)
  have q1: "quiet s0 x" if "untouched ?s1 x" for x
    using that q by (auto simp: untouched_def quiet_def)
  obtain r1 s2 where rd: "cycle_read ?s1 = (r1, s2)" by fastforce
  show ?thesis
  proof (rule read_cases[OF rd])
    assume "untouched ?s1 s2" "\<exists>e. r1 = Inl e"
    then show ?thesis
      using run rd q1[of s2] by (auto simp: cycle_answer_def eff_defs delivered_def)
  next
    fix first rest
    assume r1: "r1 = Inr first" and b: "ms_back ?s1 = Inr first # rest"
      and s2: "s2 = ?s1\<lparr>ms_back := rest, ms_seq := ms_seq ?s1 + 1\<rparr>"
    have q2: "quiet s0 s2" by (rule q1) (simp add: s2 untouched_def)
    have via: ?thesis if "m s2 = (r, s')" "\<And>s0. triple (untouched s0) m (\<lambda>_. untouched s0) (\<lambda>_. untouched s0)" for m
      using untouched_quiet[OF untouched_case[OF that(2,1)] q2] by (simp add: delivered_def)
    consider "pk_body first = []" | "pk_body first \<noteq> []" "hd (pk_body first) = 0xff"
      | "pk_body first \<noteq> []" "hd (pk_body first) \<noteq> 0xff" "command = 0x16"
      | "pk_body first \<noteq> []" "hd (pk_body first) = 0xfb" "command \<noteq> 0x16"
      | "pk_body first \<noteq> []" "hd (pk_body first) = 0" "command \<noteq> 0x16"
      | "pk_body first \<noteq> []" "hd (pk_body first) \<notin> {0, 0xfb, 0xff}" "command \<noteq> 0x16"
      by fastforce
    then show ?thesis
    proof cases
      case 1
      then show ?thesis using run rd r1 by (auto simp: cycle_answer_def eff_defs byte_at_def)
    next
      case 2
      then have "to_client first (s2\<lparr>ms_transaction := False, ms_outcome := ''upstream_error''\<rparr>) = (r, s')"
        using run rd r1 by (simp add: cycle_answer_def eff_defs byte_at_def hd_conv_nth)
      moreover have "quiet s0 (s2\<lparr>ms_transaction := False, ms_outcome := ''upstream_error''\<rparr>)"
        using q2 by (simp add: quiet_def)
      ultimately have "quiet s0 s'" by (rule untouched_quiet[OF untouched_case[OF untouched.send]])
      then show ?thesis by (simp add: delivered_def)
    next
      case 3
      then show ?thesis
        using run rd r1 by (intro via[OF _ answer_prepare_untouched, of modern kind first])
          (simp add: cycle_answer_def eff_defs byte_at_def hd_conv_nth)
    next
      case 4
      then show ?thesis
        using run rd r1 q2 by (simp add: cycle_answer_def eff_defs byte_at_def hd_conv_nth delivered_def)
    next
      case 5
      then have "answer_ok t snap proxyID command kind first s2 = (r, s')"
        using run rd r1 by (simp add: cycle_answer_def eff_defs byte_at_def hd_conv_nth)
      then show ?thesis
        using b s q2 by (intro answer_ok_events[of _ _ _ _ _ _ s2 _ _ _ rest]) (auto simp: s2 untouched_def)
    next
      case 6
      then show ?thesis
        using run rd r1 by (intro via[OF _ untouched.result, of modern first])
          (simp add: cycle_answer_def eff_defs byte_at_def hd_conv_nth)
    qed
  qed
qed

lemma mysql_cycle_events:
  assumes run: "mysql_cycle t snap proxyID modern p kind s = (r, s')" and o: "ms_outcome s = ''forwarded''"
  shows "delivered t snap proxyID kind s s' \<or> (r = Inl ErrProtocol \<and> withheld t snap proxyID kind s s')
    \<or> (\<exists>e. r = Inl e \<and> is_panic e)"
proof -
  obtain err c where u: "send_with mysql_writePacket p (ms_upstream s) = (err, c)" by fastforce
  let ?s1 = "s\<lparr>ms_upstream := c\<rparr>"
  have t: "to_upstream p s = (case err of None \<Rightarrow> Inr () | Some e \<Rightarrow> Inl e, ?s1)" by (simp add: to_upstream_def u)
  have q: "quiet s ?s1" "quiet s (?s1\<lparr>ms_statements := x\<rparr>)" for x using o by (simp_all add: quiet_def)
  consider e where "err = Some e" | "err = None" "hd (pk_body p) = 0x19" | "err = None" "hd (pk_body p) \<noteq> 0x19" by fastforce
  then show ?thesis
  proof cases
    case 1
    then show ?thesis using run t q(1) by (auto simp: mysql_cycle_def Let_def andThen_def delivered_def)
  next
    case 2
    then have "s' = ?s1\<lparr>ms_statements := AList.delete (le32 (drop 1 (pk_body p))) (ms_statements s)\<rparr>"
      using run t by (simp add: mysql_cycle_def Let_def andThen_def modify_def)
    then show ?thesis using q(2) by (simp add: delivered_def)
  next
    case 3
    then have "cycle_answer t snap proxyID modern (hd (pk_body p)) kind ?s1 = (r, s')"
      using run t by (simp add: mysql_cycle_def Let_def andThen_def)
    then show ?thesis by (rule cycle_answer_events) (simp_all add: untouched_def o)
  qed
qed

lemma exchange_turn_cases:
  assumes "exchange_turn proxyID flags t s = (Inr go, s')"
  obtains (idle) c where "s' = s\<lparr>ms_client := c\<rparr>" "\<not> go"
  | (command) p kind snap s1 r1 s2 where "tn_packet t = Inr p" "check_command p (ms_statements s) = Proceed kind"
    "snap = Acquire (tn_before t (ms_service s))"
    "s1 = s\<lparr>ms_service := tn_before t (ms_service s), ms_event := start_event t snap proxyID,
       ms_outcome := ''forwarded'', ms_events := ms_events s @ [start_event t snap proxyID]\<rparr>"
    "mysql_cycle t snap proxyID (flags AND capDeprecateEOF \<noteq> 0) p kind s1 = (r1, s2)"
    "go \<longleftrightarrow> (\<exists>x. r1 = Inr x)" "\<not> (\<exists>e. r1 = Inl e \<and> is_panic e)"
    "s' = finish_event t (case r1 of Inr _ \<Rightarrow> None | Inl e \<Rightarrow> Some e) s2"
proof (cases "tn_packet t")
  case (Inl e)
  then show ?thesis using assms idle[of "ms_client s"] by (simp add: exchange_turn_def return_def)
next
  case (Inr p)
  have rej: thesis if "andThen (mysql_reject 1) (\<lambda>_. return False) s = (Inr go, s')"
  proof -
    obtain r1 s1 where c: "to_client (mysql_reject_packet 1) s = (r1, s1)" by fastforce
    obtain cl where "s1 = s\<lparr>ms_client := cl\<rparr>" by (rule to_client_result[OF c])
    then show thesis
      using that c idle[of cl]
      by (auto simp: mysql_reject_def andThen_def return_def caught_def split: sum.splits gerror.splits)
  qed
  show ?thesis
  proof (cases "pk_seq p = 0")
    case False
    then show ?thesis using assms Inr by (intro rej) (simp add: exchange_turn_def)
  next
    case seq: True
    have ne: "pk_body p \<noteq> []"
      using assms(1) Inr seq by (auto simp: exchange_turn_def fail_def)
    show ?thesis
    proof (cases "check_command p (ms_statements s)")
      case Quit
      then show ?thesis using assms Inr seq ne idle[of "ms_client s"] by (simp add: exchange_turn_def eff_defs)
    next
      case Refuse
      then show ?thesis
        using assms Inr seq ne
        by (intro rej) (simp add: exchange_turn_def andThen_def[of "gets ms_statements"] gets_def)
    next
      case (Proceed kind)
      let ?snap = "Acquire (tn_before t (ms_service s))"
      let ?e = "start_event t ?snap proxyID"
      let ?s = "s\<lparr>ms_service := tn_before t (ms_service s), ms_event := ?e, ms_outcome := ''forwarded'',
        ms_events := ms_events s @ [?e]\<rparr>"
      obtain r1 s2 where c: "mysql_cycle t ?snap proxyID (flags AND capDeprecateEOF \<noteq> 0) p kind ?s = (r1, s2)" by fastforce
      have "go = (\<exists>x. r1 = Inr x)" "\<not> (\<exists>e. r1 = Inl e \<and> is_panic e)"
        "s' = finish_event t (case r1 of Inr _ \<Rightarrow> None | Inl e \<Rightarrow> Some e) s2"
        using assms(1) c Inr seq ne Proceed
        by (auto simp: exchange_turn_def eff_defs Let_def is_panic_def split: sum.splits gerror.splits)
      then show ?thesis using command[OF Inr Proceed refl refl c] by blast
    qed
  qed
qed

lemma exchange_turn_trace:
  assumes run: "exchange_turn proxyID flags t s = (Inr go, s')"
  shows "\<exists>es. ms_events s' = ms_events s @ es \<and> (es = [] \<or> flow_trace es)"
  using run
proof (cases rule: exchange_turn_cases)
  case (idle c)
  then show ?thesis by simp
next
  case (command p kind snap s1 r1 s2)
  note s1 = command(4) and c = command(5) and np = command(7) and s' = command(8)
  let ?e = "start_event t snap proxyID"
  have "delivered t snap proxyID kind s1 s2 \<or> withheld t snap proxyID kind s1 s2"
    using mysql_cycle_events[OF c] np s1 by auto
  then consider "quiet s1 s2"
    | out d where "noted t snap proxyID kind s1 out d s2" "out = ''forwarded'' \<or> out = ''commit_ack_lost'' \<and> de_Selected d"
    by (auto simp: delivered_def withheld_def)
  then show ?thesis
  proof cases
    case 1
    then show ?thesis
      unfolding s' flow_trace_def
      by (intro exI[of _ "[?e, ms_event (finish_event t (case r1 of Inr _ \<Rightarrow> None | Inl e \<Rightarrow> Some e) s2)]"])
        (auto simp: quiet_def finish_event_def Let_def s1 start_event_def same_flow_def split: sum.splits)
  next
    case 2
    let ?d = "with_decision d ?e" and ?a = "with_applied (with_decision d ?e)"
    let ?f = "ms_event (finish_event t (case r1 of Inr _ \<Rightarrow> None | Inl e \<Rightarrow> Some e) s2)"
    show ?thesis
    proof (cases "de_Selected d")
      case True
      then show ?thesis
        using 2 unfolding s' flow_trace_def
        by (intro exI[of _ "[?e, ?d, ?a, ?f]"])
          (auto simp: noted_def finish_event_def Let_def s1 start_event_def same_flow_def
            with_decision_def with_applied_def split: sum.splits)
    next
      case False
      then show ?thesis
        using 2 unfolding s' flow_trace_def
        by (intro exI[of _ "[?e, ?d, ?f]"])
          (auto simp: noted_def finish_event_def Let_def s1 start_event_def same_flow_def
            with_decision_def split: sum.splits)
    qed
  qed
qed

lemma mysql_exchange_trace:
  assumes "mysql_exchange proxyID flags ts s = (Inr go, s')"
  shows "\<exists>ess. ms_events s' = ms_events s @ concat ess \<and> list_all flow_trace ess"
  using assms
proof (induction ts arbitrary: s)
  case Nil
  then show ?case by (intro exI[of _ "[]"]) (simp add: return_def)
next
  case (Cons t ts)
  obtain b s1 where t: "exchange_turn proxyID flags t s = (Inr b, s1)"
    using Cons.prems by (auto simp: andThen_def split: prod.splits sum.splits)
  obtain es where es: "ms_events s1 = ms_events s @ es" "es = [] \<or> flow_trace es"
    using exchange_turn_trace[OF t] by blast
  show ?case
  proof (cases b)
    case True
    then have "mysql_exchange proxyID flags ts s1 = (Inr go, s')" using Cons.prems t by (simp add: andThen_def)
    then obtain ess where "ms_events s' = ms_events s1 @ concat ess" "list_all flow_trace ess" using Cons.IH by blast
    then show ?thesis
      using es by (cases "es = []") (auto intro: exI[of _ ess] exI[of _ "es # ess"])
  next
    case False
    then have "s' = s1" using Cons.prems t by (simp add: andThen_def return_def)
    then show ?thesis using es by (cases "es = []") (auto intro: exI[of _ "[]"] exI[of _ "[es]"])
  qed
qed

end
