(* ===== verification/Mysql_Session_Safe.thy ===== *)
theory Mysql_Session_Safe
  imports Mysql_Session_Correct
begin

text \<open>
  No session of the MySQL proxy panics when its configuration was validated, and its prepared
  statements are bounded. A sample session and the properties of the command phase conclude.
\<close>

section \<open>No session panics\<close>

definition received_ok :: "packet result \<Rightarrow> bool" where
  "received_ok r = (case r of Inr p \<Rightarrow> pk_body p \<noteq> [] | Inl e \<Rightarrow> \<not> is_panic e)"

definition calm :: "string \<Rightarrow> nat set \<Rightarrow> ('h, 'p) my_session \<Rightarrow> bool" where
  "calm pid revs s \<longleftrightarrow> writer_ok (cn_writer (ms_client s)) \<and> writer_ok (cn_writer (ms_upstream s))
     \<and> list_all received_ok (ms_back s) \<and> commit_service pid (ms_service s) \<and> revs \<subseteq> dom (sv_heap (ms_service s))"

definition upset :: "string \<Rightarrow> nat set \<Rightarrow> gerror \<Rightarrow> ('h, 'p) my_session \<Rightarrow> bool" where
  "upset pid revs e s \<longleftrightarrow> calm pid revs s \<and> \<not> is_panic e"

lemma send_no_panic:
  assumes "writer_ok (cn_writer c)" "send_with mysql_writePacket p c = (err, c')"
  shows "writer_ok (cn_writer c') \<and> (\<forall>e. err = Some e \<longrightarrow> \<not> is_panic e)"
  using assms writeAll_no_panic[OF assms(1), of "cn_calls c" "packet_bytes p"]
  by (auto simp: send_with_def mysql_writePacket_def split: prod.splits if_splits)

lemma to_client_calm: "triple (calm pid revs) (to_client p) (\<lambda>_. calm pid revs) (upset pid revs)"
  by (rule tripleI)
    (auto simp: to_client_def calm_def upset_def dest: send_no_panic split: prod.splits option.splits)

lemma to_upstream_calm: "triple (calm pid revs) (to_upstream p) (\<lambda>_. calm pid revs) (upset pid revs)"
  by (rule tripleI)
    (auto simp: to_upstream_def calm_def upset_def dest: send_no_panic split: prod.splits option.splits)

interpretation calm: relay_invariant "calm pid revs" "upset pid revs" "\<lambda>p. pk_body p \<noteq> []" for pid revs
proof unfold_locales
  show "triple (calm pid revs) mysql_receive (\<lambda>p s. calm pid revs s \<and> pk_body p \<noteq> []) (upset pid revs)"
    by (rule tripleI)
      (auto simp: mysql_receive_def calm_def upset_def received_ok_def split: list.splits sum.splits)
qed (auto simp: to_client_calm, auto simp: calm_def upset_def)

lemma mysql_apply_commit: "\<exists>b. mysql_apply ctx_done (commit_fault a) = Inr b"
  by (cases a) (auto simp: mysql_apply_def zero_fault_def)

lemma commit_calm:
  assumes "sn_revision snap \<in> revs" "commit_env sha256 pid (tn_during t)"
  shows "triple (calm pid revs) (mysql_commit t snap pid) (\<lambda>_. calm pid revs) (upset pid revs)"
proof (rule tripleI)
  fix s r s' assume c: "calm pid revs s" and run: "mysql_commit t snap pid s = (r, s')"
  let ?sv = "tn_during t (ms_service s)"
  have c': "commit_service pid (ms_service s)" "revs \<subseteq> dom (sv_heap (ms_service s))"
    using c by (simp_all add: calm_def)
  have sv: "commit_service pid ?sv" "revs \<subseteq> dom (sv_heap ?sv)"
    using commits.env_keeps[OF assms(2) c'(1)] c'(2) by auto
  obtain sv' d x where D: "snapshot_Decide snap pid no_metadata ?sv = Inr (sv', d, x)" "commit_service pid sv'"
    "dom (sv_heap ?sv) \<subseteq> dom (sv_heap sv')" "de_Selected d \<longrightarrow> (\<exists>a. de_Fault d = commit_fault a)"
    by (rule commits.snapshot_Decide_kind[OF sv(1), of snap pid no_metadata]) (use assms(1) sv(2) in \<open>auto simp: commit_kind_def\<close>)
  have "calm pid revs (s\<lparr>ms_service := sv', ms_event := e, ms_events := es\<rparr>)"
    "calm pid revs (s\<lparr>ms_service := sv', ms_events := es, ms_event := e\<rparr>)" for e es
    using c D(2,3) sv(2) by (auto simp: calm_def)
  moreover have "\<exists>b. mysql_apply (tn_done t) (de_Fault d) = Inr b" if "de_Selected d"
    using D(4) that mysql_apply_commit by metis
  ultimately show "case r of Inr a \<Rightarrow> calm pid revs s' | Inl e \<Rightarrow> upset pid revs e s'"
    using run D(1) by (auto simp: mysql_commit_def Let_def split: if_splits)
qed

lemma calm_upd [simp]:
  "calm pid revs (s\<lparr>ms_seq := a\<rparr>) = calm pid revs s"
  "calm pid revs (s\<lparr>ms_statements := b\<rparr>) = calm pid revs s"
  "calm pid revs (s\<lparr>ms_transaction := c\<rparr>) = calm pid revs s"
  "calm pid revs (s\<lparr>ms_outcome := d\<rparr>) = calm pid revs s"
  "calm pid revs (s\<lparr>ms_event := e\<rparr>) = calm pid revs s"
  "calm pid revs (s\<lparr>ms_events := f\<rparr>) = calm pid revs s"
  "calm pid revs (after_ok command kind status s) = calm pid revs s"
  "calm pid revs (finish_event t err s) = calm pid revs s"
  by (simp_all add: calm_def after_ok_def finish_event_def Let_def)

lemma upset_protocol [simp]: "upset pid revs ErrProtocol s = calm pid revs s"
  by (simp add: upset_def)

lemma answer_prepare_calm:
  "triple (calm pid revs) (answer_prepare modern kind first) (\<lambda>_. calm pid revs) (upset pid revs)"
  unfolding answer_prepare_def Let_def
  by (rule triple_if triple_fail triple_andThen[OF triple_gets[where Q = "\<lambda>_. calm pid revs"]]
      triple_andThen[OF calm.send] triple_andThen[OF calm.defs] triple_modify
      | assumption | simp)+

lemma answer_ok_calm:
  assumes "sn_revision snap \<in> revs" "commit_env sha256 pid (tn_during t)"
  shows "triple (calm pid revs) (answer_ok t snap pid command kind first) (\<lambda>_. calm pid revs) (upset pid revs)"
proof -
  have com: "triple (calm pid revs) (if confirmed then mysql_commit t snap pid else return True)
      (\<lambda>_. calm pid revs) (upset pid revs)" for confirmed
    by (auto intro: triple_return commit_calm[OF assms])
  show ?thesis
    unfolding answer_ok_def
    by (auto split: prod.splits intro!: triple_fail
        triple_andThen[OF triple_gets[where Q = "\<lambda>_. calm pid revs"]]
        triple_andThen[OF triple_modify[where Q = "\<lambda>_. calm pid revs"]]
        triple_andThen[OF com] calm.send simp: Let_def)
qed

lemma cycle_answer_calm:
  assumes "sn_revision snap \<in> revs" "commit_env sha256 pid (tn_during t)"
  shows "triple (calm pid revs) (cycle_answer t snap pid modern command kind) (\<lambda>_. calm pid revs) (upset pid revs)"
  unfolding cycle_answer_def
  by (rule triple_andThen[OF triple_modify[where Q = "\<lambda>_. calm pid revs"]] triple_andThen[OF calm.read]
      triple_andThen[OF calm.first_byte] triple_if answer_prepare_calm triple_fail answer_ok_calm[OF assms]
      calm.result calm.send
    | assumption | simp)+

lemma mysql_cycle_calm:
  assumes "sn_revision snap \<in> revs" "commit_env sha256 pid (tn_during t)"
  shows "triple (calm pid revs) (mysql_cycle t snap pid modern p kind) (\<lambda>_. calm pid revs) (upset pid revs)"
  unfolding mysql_cycle_def Let_def
  by (rule triple_andThen[OF to_upstream_calm] triple_if triple_modify cycle_answer_calm[OF assms]
    | assumption | simp)+

lemma reject_calm: "triple (calm pid revs) (mysql_reject n) (\<lambda>_. calm pid revs) (upset pid revs)"
  unfolding mysql_reject_def
  by (rule triple_andThen[OF calm.caught_inv[OF calm.send]]) (auto intro: triple_return simp: settles_def)

text \<open>The packets of the client come from \<open>readPacket\<close> and the service is used as it may be.\<close>

definition turn_ok :: "(bytes \<Rightarrow> bytes) \<Rightarrow> string \<Rightarrow> ('h, 'p) turn \<Rightarrow> bool" where
  "turn_ok sha256 pid t \<longleftrightarrow> received_ok (tn_packet t)
     \<and> commit_env sha256 pid (tn_before t) \<and> commit_env sha256 pid (tn_during t)"

lemma exchange_turn_calm:
  assumes "turn_ok sha256 pid t"
  shows "triple (calm pid {}) (exchange_turn pid flags t) (\<lambda>_. calm pid {}) (\<lambda>_ _. False)"
proof (rule tripleI)
  fix s r s' assume c: "calm pid {} s" and run: "exchange_turn pid flags t s = (r, s')"
  have env: "commit_env sha256 pid (tn_before t)" "commit_env sha256 pid (tn_during t)" using assms by (auto simp: turn_ok_def)
  have rej: "case r of Inr _ \<Rightarrow> calm pid {} s' | Inl _ \<Rightarrow> False"
    if "andThen (mysql_reject 1) (\<lambda>_. return False) s = (r, s')"
  proof -
    obtain x s1 where m: "mysql_reject 1 s = (x, s1)" by fastforce
    moreover have "\<exists>y. x = Inr y"
      using m triple_Inl[OF reject_calm c, of 1] triple_Inl[OF to_client_calm c, of "mysql_reject_packet 1"]
      by (auto simp: mysql_reject_def andThen_def caught_def return_def upset_def is_panic_def
          split: prod.splits sum.splits gerror.splits)
    ultimately show ?thesis
      using that triple_Inr[OF reject_calm c, of 1] by (auto simp: andThen_def return_def)
  qed
  show "case r of Inr _ \<Rightarrow> calm pid {} s' | Inl _ \<Rightarrow> False"
  proof (cases "tn_packet t")
    case (Inl e)
    then show ?thesis using run c by (auto simp: exchange_turn_def return_def)
  next
    case (Inr p)
    have ne: "pk_body p \<noteq> []" using assms Inr by (simp add: turn_ok_def received_ok_def)
    consider "pk_seq p \<noteq> 0" | "pk_seq p = 0" "check_command p (ms_statements s) = Quit"
      | "pk_seq p = 0" "check_command p (ms_statements s) = Refuse"
      | kind where "pk_seq p = 0" "check_command p (ms_statements s) = Proceed kind"
      by (cases "check_command p (ms_statements s)") blast+
    then show ?thesis
    proof cases
      case 1
      then show ?thesis using run Inr by (intro rej) (simp add: exchange_turn_def)
    next
      case 2
      then show ?thesis using run Inr ne c by (auto simp: exchange_turn_def eff_defs)
    next
      case 3
      then show ?thesis
        using run Inr ne by (intro rej) (simp add: exchange_turn_def andThen_def[of "gets ms_statements"] gets_def)
    next
      case 4
      let ?sv = "tn_before t (ms_service s)"
      let ?snap = "Acquire ?sv"
      let ?s = "s\<lparr>ms_service := ?sv, ms_event := start_event t ?snap pid, ms_outcome := ''forwarded'',
        ms_events := ms_events s @ [start_event t ?snap pid]\<rparr>"
      have "commit_service pid (ms_service s)" using c by (simp add: calm_def)
      then have sv: "commit_service pid ?sv" by (rule commits.env_keeps(1)[OF env(1)])
      then have cs: "calm pid {sn_revision ?snap} ?s"
        using c kind_service_active[OF sv] by (auto simp: calm_def)
      obtain r1 s1 where m: "mysql_cycle t ?snap pid (flags AND capDeprecateEOF \<noteq> 0) p kind ?s = (r1, s1)" by fastforce
      have "case r1 of Inr _ \<Rightarrow> calm pid {sn_revision ?snap} s1 | Inl e \<Rightarrow> upset pid {sn_revision ?snap} e s1"
        using triple_Inr[OF mysql_cycle_calm[OF _ env(2)] cs m[THEN trans]]
          triple_Inl[OF mysql_cycle_calm[OF _ env(2)] cs m[THEN trans]] by (cases r1) auto
      then have "calm pid {} s1" "\<not> (\<exists>e. r1 = Inl e \<and> is_panic e)"
        by (auto simp: calm_def upset_def split: sum.splits)
      then show ?thesis
        using run m 4 Inr ne
        by (auto simp: exchange_turn_def eff_defs Let_def is_panic_def split: sum.splits gerror.splits)
    qed
  qed
qed

lemma mysql_exchange_calm:
  assumes "calm pid {} s" "list_all (turn_ok sha256 pid) ts"
  shows "\<exists>go s'. mysql_exchange pid flags ts s = (Inr go, s') \<and> calm pid {} s'"
  using assms
proof (induction ts arbitrary: s)
  case Nil
  then show ?case by (intro exI[of _ True]) (simp add: return_def)
next
  case (Cons t ts)
  obtain r1 s1 where t: "exchange_turn pid flags t s = (r1, s1)" by fastforce
  have "turn_ok sha256 pid t" using Cons.prems(2) by simp
  note tr = exchange_turn_calm[OF this, of flags]
  obtain go where go: "r1 = Inr go" "calm pid {} s1"
    using triple_Inr[OF tr Cons.prems(1)] triple_Inl[OF tr Cons.prems(1)] t by (cases r1) auto
  then show ?case
    using Cons.IH[OF go(2)] Cons.prems(2) t by (cases go) (auto simp: andThen_def return_def)
qed

section \<open>Prepared statements\<close>

interpretation statements: relay_invariant "\<lambda>s. ms_statements s = st" "\<lambda>_ s. ms_statements s = st" "\<lambda>_. True" for st
  by unfold_locales
    (auto intro!: tripleI simp: to_client_def mysql_receive_def split: prod.splits list.splits sum.splits)

definition limited :: "nat \<Rightarrow> ('h, 'p) my_session \<Rightarrow> bool" where
  "limited n s \<longleftrightarrow> distinct (map fst (ms_statements s)) \<and> length (ms_statements s) \<le> n"

lemma length_update: "length (AList.update k v xs) \<le> Suc (length xs)"
  by (induction xs) auto

lemma update_limited:
  assumes "distinct (map fst st)" "length st \<le> n"
  shows "distinct (map fst (AList.update k v st))" "length (AList.update k v st) \<le> Suc n"
    "length (AList.delete k st) \<le> n" "distinct (map fst (AList.delete k st))"
  using assms length_update[of k v st] length_delete_le[of k st] by (auto intro: distinct_update distinct_delete)

lemma limited_le: "distinct (map fst st) \<Longrightarrow> length st \<le> n \<Longrightarrow> n \<le> k \<Longrightarrow> ms_statements s = st \<or> ms_statements s = [] \<Longrightarrow> limited k s"
  by (auto simp: limited_def)

lemma answer_prepare_limited:
  assumes "distinct (map fst st)" "length st \<le> n"
  shows "triple (\<lambda>s. ms_statements s = st) (answer_prepare modern kind first) (\<lambda>_. limited (Suc n)) (\<lambda>_. limited (Suc n))"
proof -
  have "triple (\<lambda>s. ms_statements s = st) (answer_prepare modern kind first)
      (\<lambda>_ s. \<exists>id. ms_statements s = AList.update id kind st) (\<lambda>_ s. ms_statements s = st)"
    unfolding answer_prepare_def Let_def
    by (rule triple_if triple_fail triple_andThen[OF triple_gets[where Q = "\<lambda>_ s. ms_statements s = st"]]
        triple_andThen[OF statements.send] triple_andThen[OF statements.defs] triple_modify
        | assumption | fastforce)+
  then show ?thesis
    by (rule triple_conseq) (use assms update_limited[OF assms] in \<open>auto simp: limited_def\<close>)
qed

lemma answer_ok_limited:
  assumes "distinct (map fst st)" "length st \<le> n"
  shows "triple (\<lambda>s. ms_statements s = st) (answer_ok t snap pid command kind first) (\<lambda>_. limited n) (\<lambda>_. limited n)"
proof -
  note l = limited_le[OF assms le_refl]
  have com: "triple (\<lambda>s. ms_statements s = st \<or> ms_statements s = [])
      (if confirmed then mysql_commit t snap pid else return True)
      (\<lambda>_ s. ms_statements s = st \<or> ms_statements s = []) (\<lambda>_. limited n)" for confirmed
    by (auto intro!: tripleI l simp: return_def mysql_commit_def Let_def split: sum.splits prod.splits if_splits)
  have sent: "triple (\<lambda>s. ms_statements s = st \<or> ms_statements s = []) (to_client first) (\<lambda>_. limited n) (\<lambda>_. limited n)"
    by (rule tripleI) (auto intro!: l simp: to_client_def split: prod.splits option.splits sum.splits)
  show ?thesis
    unfolding answer_ok_def
    by (auto split: prod.splits intro!: triple_fail l
        triple_andThen[OF triple_gets[where Q = "\<lambda>_ s. ms_statements s = st"]]
        triple_andThen[OF triple_modify[where Q = "\<lambda>_ s. ms_statements s = st \<or> ms_statements s = []"]]
        triple_andThen[OF com] sent simp: Let_def after_ok_def)
qed

lemma cycle_answer_limited:
  assumes "distinct (map fst st)" "length st \<le> n"
  shows "triple (\<lambda>s. ms_statements s = st) (cycle_answer t snap pid modern command kind)
    (\<lambda>_. limited (if command = 0x16 then Suc n else n)) (\<lambda>_. limited (if command = 0x16 then Suc n else n))"
proof -
  let ?n = "if command = 0x16 then Suc n else n"
  have n: "n \<le> ?n" by simp
  note l = limited_le[OF assms n disjI1]
  note mono = triple_conseq[where Q' = "\<lambda>_. limited ?n" and E' = "\<lambda>_. limited ?n", OF _ _ l l]
  have r: "triple (\<lambda>s. ms_statements s = st) cycle_read (\<lambda>_ s. ms_statements s = st) (\<lambda>_. limited ?n)"
    by (rule triple_conseq[OF statements.read], assumption, erule conjunct1, erule l)
  have b: "triple (\<lambda>s. ms_statements s = st) (byte_at 0 x) (\<lambda>_ s. ms_statements s = st) (\<lambda>_. limited ?n)" for x
    by (rule byte_at_keeps) (rule l)
  show ?thesis
    unfolding cycle_answer_def
    by (rule triple_andThen[OF triple_modify[where Q = "\<lambda>_ s. ms_statements s = st"]] triple_andThen[OF r]
        triple_andThen[OF b] triple_if mono[OF statements.send] mono[OF statements.result] triple_fail l
      | assumption | simp add: answer_prepare_limited[OF assms] answer_ok_limited[OF assms])+
qed

lemma check_command_prepare:
  "check_command p st = Proceed kind \<Longrightarrow> hd (pk_body p) = 0x16 \<Longrightarrow> length st < 128"
  by (auto simp: check_command_def Let_def split: if_splits)

lemma mysql_cycle_limited:
  assumes "limited 128 s" "check_command p (ms_statements s) = Proceed kind"
    "mysql_cycle t snap pid modern p kind s = (r, s')"
  shows "limited 128 s'"
proof -
  obtain r1 s1 where u: "to_upstream p s = (r1, s1)" by fastforce
  have s1: "ms_statements s1 = ms_statements s" using u by (auto simp: to_upstream_def split: prod.splits)
  let ?n = "if hd (pk_body p) = 0x16 then 127 else (128 :: nat)"
  have st: "distinct (map fst (ms_statements s))" "length (ms_statements s) \<le> ?n"
    using assms(1) check_command_prepare[OF assms(2)] by (auto simp: limited_def)
  show ?thesis
  proof (cases "hd (pk_body p) = 0x19 \<or> (\<exists>e. r1 = Inl e)")
    case True
    then show ?thesis
      using assms(1,3) u s1 update_limited[OF st]
      by (auto simp: mysql_cycle_def Let_def andThen_def modify_def limited_def split: sum.splits if_splits)
  next
    case False
    then have "cycle_answer t snap pid modern (hd (pk_body p)) kind s1 = (r, s')"
      using assms(3) u by (auto simp: mysql_cycle_def Let_def andThen_def split: sum.splits)
    with triple_Inr[OF cycle_answer_limited[OF st], of s1] triple_Inl[OF cycle_answer_limited[OF st], of s1] s1
    have "limited (if hd (pk_body p) = 0x16 then Suc ?n else ?n) s'" by (cases r) blast+
    then show ?thesis by (simp split: if_splits)
  qed
qed

lemma exchange_turn_limited:
  assumes "limited 128 s" "exchange_turn pid flags t s = (Inr go, s')"
  shows "limited 128 s'"
  using assms(2)
proof (cases rule: exchange_turn_cases)
  case (idle c)
  then show ?thesis using assms(1) by (simp add: limited_def)
next
  case (command p kind snap s1 r1 s2)
  have "limited 128 s2"
    by (rule mysql_cycle_limited[OF _ _ command(5)]) (use assms(1) command in \<open>simp_all add: limited_def\<close>)
  then show ?thesis using command(8) by (simp add: finish_event_def Let_def limited_def)
qed

lemma mysql_exchange_limited:
  assumes "limited 128 s" "mysql_exchange pid flags ts s = (Inr go, s')"
  shows "limited 128 s'"
  using assms
proof (induction ts arbitrary: s)
  case (Cons t ts)
  obtain b s1 where t: "exchange_turn pid flags t s = (Inr b, s1)"
    using Cons.prems(2) by (auto simp: andThen_def split: prod.splits sum.splits)
  with exchange_turn_limited[OF Cons.prems(1) t] show ?case
    using Cons by (cases b) (auto simp: andThen_def return_def)
qed (simp add: return_def)

section \<open>A sample session\<close>

lemma rune_chunks_ascii: "list_all (\<lambda>x. x < 128) bs \<Longrightarrow> rune_chunks bs = map (\<lambda>x. (x, [x])) bs"
proof (induction bs)
  case (Cons b bs)
  then show ?case by (simp add: rune_chunks.simps[of "b # bs"] decode_rune_def Let_def)
qed (simp add: rune_chunks.simps)

lemma runes_ascii: "list_all (\<lambda>x. x < 128) bs \<Longrightarrow> runes bs = bs"
  by (simp add: runes_def rune_chunks_ascii comp_def)

lemma demo_normalized: "normalize_sql [99, 111, 109, 109, 105, 116, 59] = [67, 79, 77, 77, 73, 84]"
  by (simp add: normalize_sql_def runes_ascii trimSpace_runes_def is_space_rune_def upper_rune_def trimSuffix_def
      hasSuffix_def ascii_runes_def fields_runes_def Let_def of_char_def)

lemma demo_classify: "classify [99, 111, 109, 109, 105, 116, 59] = commit"
  unfolding classify_def demo_normalized by (simp add: ascii_runes_def Let_def of_char_def)

definition demo_commit :: packet where
  "demo_commit = \<lparr>pk_seq = 0, pk_body = [3, 99, 111, 109, 109, 105, 116, 59]\<rparr>"

definition demo_ok :: packet where
  "demo_ok = \<lparr>pk_seq = 1, pk_body = [0, 0, 0, 0, 0, 0, 0]\<rparr>"

definition demo_turn :: "(config \<times> digests, unit) turn" where
  "demo_turn = \<lparr>tn_packet = Inr demo_commit, tn_before = (\<lambda>sv. sv), tn_during = (\<lambda>sv. sv), tn_flow = ''flow'',
     tn_started = 1, tn_finished = 2, tn_done = False\<rparr>"

definition demo_session :: "(config \<times> digests, unit) my_session" where
  "demo_session = \<lparr>ms_client = demo_conn, ms_upstream = demo_conn, ms_back = [Inr demo_ok], ms_service = db_service,
     ms_events = [], ms_statements = [], ms_transaction = True, ms_seq = 0,
     ms_event = start_event demo_turn (Acquire db_service) ''db'', ms_outcome = ''forwarded''\<rparr>"

lemma demo_check: "check_command demo_commit [] = Proceed commit"
  by (simp add: check_command_def demo_commit_def demo_classify)


lemma demo_writes: "packet_ok p \<Longrightarrow> mysql_writePacket full_writer i p = (packet_bytes p, Suc i, None)"
  by (simp add: mysql_writePacket_def packet_bytes_def Let_def writeAll_full)

lemma demo_packets: "packet_ok demo_commit" "packet_ok demo_ok" "okStatus (pk_body demo_ok) = (0, True)"
  by (simp_all add: packet_ok_def demo_commit_def demo_ok_def mysql_maxPacket_def okStatus_def lenenc_def le16_def)

definition demo_lost :: "(config \<times> digests, unit) my_session" where
  "demo_lost = snd (exchange_turn ''db'' 0 demo_turn demo_session)"

lemma demo_exchange_turn:
  "exchange_turn ''db'' 0 demo_turn demo_session = (Inr False, demo_lost)
    \<and> ms_outcome demo_lost = ''commit_ack_lost'' \<and> length (ms_events demo_lost) = 4
    \<and> cn_sent (ms_upstream demo_lost) = packet_bytes demo_commit"
proof -
  have d: "hd (pk_body demo_commit) = 3" "pk_seq demo_commit = 0" "pk_body demo_commit \<noteq> []"
    "pk_seq demo_ok = 1" "pk_body demo_ok \<noteq> []" "hd (pk_body demo_ok) = 0"
    by (simp_all add: demo_commit_def demo_ok_def)
  show ?thesis
    unfolding demo_lost_def
    by (simp add: exchange_turn_def eff_defs demo_session_def demo_turn_def d demo_check mysql_cycle_def Let_def
        to_upstream_def send_with_def demo_conn_def demo_writes demo_packets cycle_answer_def cycle_read_def mysql_receive_def
        byte_at_def hd_conv_nth[symmetric] answer_ok_def mysql_commit_def db_decides db_decision_def mysql_apply_def
        finish_event_def after_ok_def)
qed

section \<open>The properties of the MySQL session\<close>

text \<open>C24. The session is a transparent relay. Whatever the commands, answers, faults and errors: the
  bytes sent to the client are the packets received from the upstream, complete, unchanged and in
  order, followed at the end by at most the beginning of one more of them or of the rejection; and
  the bytes sent to the upstream are the packets of the client, in the same way.\<close>

theorem mysql_session_relays:
  assumes "mysql_exchange proxyID flags ts s = (r, s')"
  shows "(\<exists>ps more tail last rest. ms_back s = map Inr ps @ more @ ms_back s' \<and> length more \<le> 1
      \<and> cn_sent (ms_client s') = cn_sent (ms_client s) @ concat (map packet_bytes ps) @ tail
      \<and> (last = mysql_reject_packet 1 \<or> more = [Inr last]) \<and> packet_bytes last = tail @ rest)
    \<and> (\<exists>ps sent rest. cn_sent (ms_upstream s') = cn_sent (ms_upstream s) @ concat (map packet_bytes ps) @ sent
      \<and> map Inr ps = take (length ps) (map tn_packet ts)
      \<and> (sent = [] \<or> (\<exists>p. length ps < length ts \<and> tn_packet (ts ! length ps) = Inr p \<and> packet_bytes p = sent @ rest)))"
proof -
  have "relay s (ms_upstream s) [] s" by (simp add: relay_def)
  from mysql_exchange_relay[OF this assms] obtain u' sent ps rest where
    u: "cn_sent u' = cn_sent (ms_upstream s) @ concat (map packet_bytes ps) @ sent" "map Inr ps = take (length ps) (map tn_packet ts)"
      "sent = [] \<or> (\<exists>p. length ps < length ts \<and> tn_packet (ts ! length ps) = Inr p \<and> packet_bytes p = sent @ rest)"
    and st: "stopped s u' s'" by blast
  show ?thesis
  proof (rule conjI)
    show "\<exists>ps sent rest. cn_sent (ms_upstream s') = cn_sent (ms_upstream s) @ concat (map packet_bytes ps) @ sent
      \<and> map Inr ps = take (length ps) (map tn_packet ts)
      \<and> (sent = [] \<or> (\<exists>p. length ps < length ts \<and> tn_packet (ts ! length ps) = Inr p \<and> packet_bytes p = sent @ rest))"
      using u st by (intro exI[of _ ps] exI[of _ sent] exI[of _ rest]) (simp add: stopped_def)
  qed (rule st[unfolded stopped_def, THEN conjunct2])
qed

theorem mysql_session_relays_witness:
  "\<exists>ps sent rest. cn_sent (ms_upstream demo_lost) = cn_sent (ms_upstream demo_session) @ concat (map packet_bytes ps) @ sent
      \<and> map Inr ps = take (length ps) (map tn_packet [demo_turn])
      \<and> (sent = [] \<or> (\<exists>p. length ps < length [demo_turn] \<and> tn_packet ([demo_turn] ! length ps) = Inr p
           \<and> packet_bytes p = sent @ rest))"
proof -
  have "mysql_exchange ''db'' 0 [demo_turn] demo_session = (Inr False, demo_lost)"
    using demo_exchange_turn by (simp add: andThen_def return_def)
  from mysql_session_relays[OF this, THEN conjunct2] show ?thesis .
qed

text \<open>C27. The events of a session are complete flows, one for each command that was forwarded: a start,
  possibly a decision and the fault it selected, and the end; all with the identifiers of the
  start. A lost acknowledgement is recorded only for a confirmed commit with an applied fault.\<close>

theorem mysql_session_flows:
  assumes "mysql_exchange proxyID flags ts s = (Inr go, s')"
  shows "\<exists>ess. ms_events s' = ms_events s @ concat ess \<and> list_all flow_trace ess"
  using assms by (rule mysql_exchange_trace)

theorem mysql_session_flows_witness:
  "\<exists>ess. ms_events demo_lost = concat ess \<and> list_all flow_trace ess \<and> ess \<noteq> []"
proof -
  have "mysql_exchange ''db'' 0 [demo_turn] demo_session = (Inr False, demo_lost)"
    using demo_exchange_turn by (simp add: andThen_def return_def)
  from mysql_session_flows[OF this] obtain ess where "ms_events demo_lost = concat ess" "list_all flow_trace ess"
    by (auto simp: demo_session_def)
  then show ?thesis using demo_exchange_turn by force
qed

text \<open>C25. The acknowledgement of a commit is withheld only when the upstream confirmed the commit of an
  open transaction and the decision taken on the snapshot of the flow selected a fault that ends the
  connection. The client has then received nothing, and the session ends.\<close>

theorem commit_ack_withheld:
  assumes "exchange_turn proxyID flags t s = (Inr go, s')" "ms_events s' \<noteq> ms_events s"
    "ms_outcome s' = ''commit_ack_lost''"
  shows "\<not> go \<and> ms_client s' = ms_client s
    \<and> (\<exists>p kind first rest sv d x. tn_packet t = Inr p \<and> check_command p (ms_statements s) = Proceed kind
        \<and> ms_back s = Inr first # rest \<and> confirms kind (ms_transaction s) first
        \<and> snapshot_Decide (Acquire (tn_before t (ms_service s))) proxyID no_metadata
            (tn_during t (tn_before t (ms_service s))) = Inr (sv, d, x)
        \<and> de_Selected d \<and> mysql_apply (tn_done t) (de_Fault d) = Inr False)"
  using assms(1)
proof (cases rule: exchange_turn_cases)
  case (idle c)
  then show ?thesis using assms(2) by simp
next
  case (command p kind snap s1 r1 s2)
  have o: "ms_outcome s1 = ''forwarded''" using command(4) by simp
  have "ms_outcome s2 = ''commit_ack_lost''"
    using assms(3) command(8) by (auto simp: finish_event_def Let_def split: if_splits)
  then have w: "r1 = Inl ErrProtocol" "withheld t snap proxyID kind s1 s2"
    using mysql_cycle_events[OF command(5) o] command(7) by (auto simp: delivered_def quiet_def noted_def)
  then show ?thesis
    using command by (auto simp: withheld_def noted_def finish_event_def Let_def)
qed

theorem commit_ack_withheld_witness:
  "ms_client demo_lost = ms_client demo_session \<and> de_Selected db_decision
     \<and> mysql_apply False (de_Fault db_decision) = Inr False"
proof -
  have "ms_events demo_lost \<noteq> ms_events demo_session" using demo_exchange_turn by (auto simp: demo_session_def)
  from commit_ack_withheld[OF _ this] demo_exchange_turn show ?thesis
    by (auto simp: db_decision_def mysql_apply_def)
qed

text \<open>C26. A session with a validated configuration never panics, whatever the client and the upstream
  send, whatever the connections do, and whatever is switched, published and decided on the
  control service in between: packets are never empty, the decision never fails, and the fault it
  selects has its duration.\<close>

theorem mysql_session_never_panics:
  assumes "calm pid {} s" "list_all (turn_ok sha256 pid) ts"
  shows "\<exists>go s'. mysql_exchange pid flags ts s = (Inr go, s')"
  using mysql_exchange_calm[OF assms] by blast

theorem mysql_session_never_panics_witness:
  "\<exists>go s'. mysql_exchange ''db'' 5 [demo_turn, demo_turn] demo_session = (Inr go, s')"
proof (rule mysql_session_never_panics)
  show "calm ''db'' {} demo_session"
    using db_service_ok by (simp add: calm_def demo_session_def demo_conn_def received_ok_def demo_ok_def)
  show "list_all (turn_ok demo_sha256 ''db'') [demo_turn, demo_turn]"
    by (simp add: turn_ok_def demo_turn_def received_ok_def demo_commit_def)
qed

text \<open>A session never keeps more than 128 prepared statements, each under one identifier.\<close>

lemma mysql_statements_bounded:
  assumes "mysql_exchange pid flags ts s = (Inr go, s')" "ms_statements s = []"
  shows "distinct (map fst (ms_statements s')) \<and> length (ms_statements s') \<le> 128"
  using mysql_exchange_limited[OF _ assms(1)] assms(2) by (simp add: limited_def)

end
