(* ===== verification/Mysql_Auth_Correct.thy ===== *)
theory Mysql_Auth_Correct
  imports Mysql_Session_Safe
begin

text \<open>
  The connection phase of the MySQL proxy: the capabilities it lets through, and what it sends before
  TLS.
\<close>

section \<open>The greeting\<close>

lemma caps_join:
  fixes v :: u32
  shows "ucast (ucast v :: u16) OR push_bit 16 (ucast (ucast (drop_bit 16 v) :: u16)) = v"
proof (rule bit_eqI)
  fix n
  show "bit (ucast (ucast v :: u16) OR push_bit 16 (ucast (ucast (drop_bit 16 v) :: u16)) :: u32) n = bit v n"
    by (cases "n < 16") (auto simp: bit_simps dest: bit_imp_le_length)
qed

lemma greeting_parts:
  assumes "greeting b secure = Some (b', flags)"
  defines "lo \<equiv> caps_offset b"
  shows "lo + 18 \<le> length b" "caps_of b AND capProtocol41 \<noteq> 0" "caps_of b AND capPluginAuth \<noteq> 0"
    "secure \<longrightarrow> caps_of b AND capSSL \<noteq> 0" "hd b = 10" "0 \<in> set (drop 1 b)"
    "flags = (if secure then caps_of b AND NOT forbiddenCaps else (caps_of b AND NOT forbiddenCaps) AND NOT capSSL)"
    "b' = take lo b @ put_le16 (ucast flags) @ take 3 (drop (lo + 2) b) @ put_le16 (ucast (drop_bit 16 flags)) @ drop (lo + 7) b"
proof -
  have g: "lo + 18 \<le> length b \<and> caps_of b AND capProtocol41 \<noteq> 0 \<and> caps_of b AND capPluginAuth \<noteq> 0
    \<and> (secure \<longrightarrow> caps_of b AND capSSL \<noteq> 0) \<and> hd b = 10 \<and> 0 \<in> set (drop 1 b)
    \<and> flags = (if secure then caps_of b AND NOT forbiddenCaps else (caps_of b AND NOT forbiddenCaps) AND NOT capSSL)
    \<and> b' = (let b1 = take lo b @ put_le16 (ucast flags) @ drop (lo + 2) b
        in take (lo + 5) b1 @ put_le16 (ucast (drop_bit 16 flags)) @ drop (lo + 7) b1)"
    using assms(1) unfolding greeting_def Let_def lo_def[symmetric]
    by (auto split: if_splits simp del: take_append drop_append)
  then show "lo + 18 \<le> length b" "caps_of b AND capProtocol41 \<noteq> 0" "caps_of b AND capPluginAuth \<noteq> 0"
    "secure \<longrightarrow> caps_of b AND capSSL \<noteq> 0" "hd b = 10" "0 \<in> set (drop 1 b)"
    "flags = (if secure then caps_of b AND NOT forbiddenCaps else (caps_of b AND NOT forbiddenCaps) AND NOT capSSL)"
    by blast+
  let ?b1 = "take lo b @ put_le16 (ucast flags) @ drop (lo + 2) b"
  have "take (lo + 5) ?b1 = take lo b @ put_le16 (ucast flags) @ take 3 (drop (lo + 2) b)"
    "drop (lo + 7) ?b1 = drop (lo + 7) b"
    using g by (simp_all add: put_le16_def numeral_eq_Suc)
  then show "b' = take lo b @ put_le16 (ucast flags) @ take 3 (drop (lo + 2) b)
      @ put_le16 (ucast (drop_bit 16 flags)) @ drop (lo + 7) b"
    using g by (simp add: Let_def)
qed

lemma and_not_other:
  fixes v f c :: "'a::len word"
  assumes "f AND c = 0"
  shows "(v AND NOT f) AND c = v AND c"
proof (rule bit_eqI)
  fix n
  have "\<not> (bit f n \<and> bit c n)" using assms by (metis bit_and_iff bit_0_eq bot_apply bot_bool_def)
  then show "bit ((v AND NOT f) AND c) n = bit (v AND c) n" by (auto simp: bit_simps dest: bit_imp_le_length)
qed

lemma and_not_same: "((v :: 'a::len word) AND NOT f) AND f = 0"
  by (rule bit_eqI) (auto simp: bit_simps)

lemma and_swap: "((v :: 'a::len word) AND NOT f) AND NOT g = (v AND NOT g) AND NOT f"
  by (simp add: ac_simps)

lemma caps_disjoint:
  "forbiddenCaps AND capProtocol41 = 0" "forbiddenCaps AND capPluginAuth = 0" "forbiddenCaps AND capSSL = 0"
  "capSSL AND capProtocol41 = 0" "capSSL AND capPluginAuth = 0"
  by (simp_all add: cap_defs)

lemma cap_bits:
  "(v AND NOT forbiddenCaps) AND capProtocol41 = v AND capProtocol41"
  "(v AND NOT forbiddenCaps) AND capPluginAuth = v AND capPluginAuth"
  "(v AND NOT forbiddenCaps) AND capSSL = v AND capSSL"
  "((v AND NOT forbiddenCaps) AND NOT capSSL) AND capProtocol41 = v AND capProtocol41"
  "((v AND NOT forbiddenCaps) AND NOT capSSL) AND capPluginAuth = v AND capPluginAuth"
  "((v AND NOT forbiddenCaps) AND NOT capSSL) AND forbiddenCaps = 0"
  by (simp_all only: and_not_other caps_disjoint, subst and_swap, rule and_not_same)

lemma greeting_rewrites:
  assumes "greeting b secure = Some (b', flags)"
  shows "length b' = length b \<and> caps_of b' = flags \<and> flags AND forbiddenCaps = 0
    \<and> flags AND capProtocol41 \<noteq> 0 \<and> flags AND capPluginAuth \<noteq> 0 \<and> (flags AND capSSL \<noteq> 0 \<longleftrightarrow> secure)
    \<and> flags AND NOT (caps_of b) = 0
    \<and> (\<forall>i < length b. i \<notin> {caps_offset b, caps_offset b + 1, caps_offset b + 5, caps_offset b + 6} \<longrightarrow> b' ! i = b ! i)"
proof -
  note g = greeting_parts[OF assms]
  let ?lo = "caps_offset b"
  obtain pre suf where z: "drop 1 b = pre @ 0 # suf" "0 \<notin> set pre" using split_list_first[OF g(6)] by blast
  have tw: "takeWhile (\<lambda>x. x \<noteq> 0) (pre @ 0 # xs) = pre" for xs :: bytes
    using z(2) by (induction pre) auto
  obtain b0 where b: "b = b0 # pre @ 0 # suf" using z(1) g(1) by (cases b) auto
  have lo: "?lo = length pre + 15" by (simp add: caps_offset_def b tw Let_def)
  have "take ?lo b = b0 # pre @ 0 # take 13 suf" unfolding lo by (simp add: b take_Cons')
  then have b': "b' = b0 # pre @ 0 # (take 13 suf @ put_le16 (ucast flags) @ take 3 (drop (?lo + 2) b)
      @ put_le16 (ucast (drop_bit 16 flags)) @ drop (?lo + 7) b)"
    using g(8) by simp
  have lo': "caps_offset b' = ?lo" unfolding lo by (simp add: caps_offset_def b' tw Let_def)
  have at: "drop ?lo b' = put_le16 (ucast flags) @ take 3 (drop (?lo + 2) b) @ put_le16 (ucast (drop_bit 16 flags)) @ drop (?lo + 7) b"
    using g(1) by (subst g(8)) simp
  then have "drop (?lo + 5) b' = put_le16 (ucast (drop_bit 16 flags)) @ drop (?lo + 7) b"
    using g(1) by (simp add: add.commute[of _ 5] flip: drop_drop) (simp add: put_le16_def numeral_eq_Suc)
  then have c: "caps_of b' = flags"
    unfolding caps_of_def lo' at by (simp only: le16_put caps_join)
  have len: "length b' = length b" using g(1) by (subst g(8)) (simp add: put_le16_def)
  have same: "b' ! i = b ! i" if i: "i < length b" and ni: "i \<notin> {?lo, ?lo + 1, ?lo + 5, ?lo + 6}" for i
  proof -
    consider "i < ?lo" | "?lo + 2 \<le> i" "i < ?lo + 5" | "?lo + 7 \<le> i" using ni by (simp, linarith)
    moreover have "Suc (Suc (k - 2)) = k" if "2 \<le> k" for k :: nat using that by simp
    ultimately show ?thesis
      using g(1) i
      by (cases; subst g(8)) (auto simp: nth_append put_le16_def nth_Cons' min_def)
  qed
  have f: "flags AND forbiddenCaps = 0" "flags AND capProtocol41 \<noteq> 0" "flags AND capPluginAuth \<noteq> 0" "flags AND capSSL \<noteq> 0 \<longleftrightarrow> secure"
    using g(2,3,4,7) by (auto simp: cap_bits and_not_same split: if_splits)
  have sub: "flags AND NOT (caps_of b) = 0"
    by (rule bit_eqI) (auto simp: g(7) bit_simps)
  show ?thesis using len c f sub same by blast
qed

section \<open>The connection phase\<close>

text \<open>Reads and writes on the connections change neither TLS nor what was sent before it.\<close>

definition secured :: "bool \<Rightarrow> links \<Rightarrow> bool" where
  "secured ct s \<longleftrightarrow> cn_tls (lk_upstream s) \<and> length (cn_clear (lk_upstream s)) \<le> 36 \<and> (ct \<longrightarrow> cn_tls (lk_client s))"

lemma recv_tls [simp]: "recv_with rd c = (r, c') \<Longrightarrow> cn_tls c' = cn_tls c \<and> cn_clear c' = cn_clear c \<and> cn_sent c' = cn_sent c"
  by (auto simp: recv_with_def split: sum.splits)

lemma secured_steps:
  "triple (secured ct) (write_client p) (\<lambda>_. secured ct) (\<lambda>_. secured ct)"
  "triple (secured ct) (write_upstream p) (\<lambda>_. secured ct) (\<lambda>_. secured ct)"
  "triple (secured ct) (expect_client n) (\<lambda>_. secured ct) (\<lambda>_. secured ct)"
  "triple (secured ct) (expect_upstream n) (\<lambda>_. secured ct) (\<lambda>_. secured ct)"
  by (rule tripleI; auto simp: write_client_def write_upstream_def expect_client_def expect_upstream_def secured_def
      dest: send_tls recv_tls split: prod.splits sum.splits option.splits if_splits)+

lemma auth_rounds_secured:
  "triple (secured ct) (auth_rounds n seq flags) (\<lambda>a s. a = flags \<and> secured ct s) (\<lambda>_. secured ct)"
proof (induction n arbitrary: seq)
  case 0
  show ?case by (simp add: triple_fail)
next
  case (Suc n)
  have c: "triple (secured ct) (caught (write_client p)) (\<lambda>_. secured ct) (\<lambda>_. secured ct)" for p
    by (rule triple_caught[OF secured_steps(1)])
  show ?case
    by (auto simp: Let_def intro!: triple_andThen[OF secured_steps(4)] triple_andThen[OF secured_steps(1)]
        triple_andThen[OF c] triple_andThen[OF secured_steps(3)] triple_andThen[OF secured_steps(2)]
        triple_fail triple_return Suc split: option.splits)
qed

lemma auth_rounds_flags: "triple (\<lambda>_. True) (auth_rounds n seq flags) (\<lambda>a _. a = flags) (\<lambda>_ _. True)"
proof (induction n arbitrary: seq)
  case 0
  show ?case by (simp add: triple_fail)
next
  case (Suc n)
  have t: "triple (\<lambda>_. True) m (\<lambda>_ _. True) (\<lambda>_ _. True)" for m :: "(links, 'x) eff"
    by (rule tripleI) (auto split: sum.splits)
  show ?case
    by (auto simp: Let_def intro!: triple_andThen[OF t] triple_fail triple_return Suc split: option.splits)
qed

text \<open>Before TLS: nothing, or at most a request of 32 bytes in its packet, was sent to the upstream.\<close>

definition silent :: "links \<Rightarrow> bool" where
  "silent s \<longleftrightarrow> \<not> cn_tls (lk_upstream s) \<and> cn_sent (lk_upstream s) = [] \<and> cn_clear (lk_upstream s) = []"

definition asked :: "links \<Rightarrow> bool" where
  "asked s \<longleftrightarrow> \<not> cn_tls (lk_upstream s) \<and> length (cn_sent (lk_upstream s)) \<le> 36 \<and> cn_clear (lk_upstream s) = []"

definition discreet :: "links \<Rightarrow> bool" where
  "discreet s \<longleftrightarrow> length (in_clear (lk_upstream s)) \<le> 36"

lemma discreet_cases: "silent s \<Longrightarrow> discreet s" "asked s \<Longrightarrow> discreet s" "secured ct s \<Longrightarrow> discreet s"
  by (auto simp: silent_def asked_def secured_def discreet_def in_clear_def)

lemma silent_steps:
  "triple silent (write_client p) (\<lambda>_. silent) (\<lambda>_. discreet)"
  "triple silent (expect_client n) (\<lambda>_. silent) (\<lambda>_. discreet)"
  "triple silent (expect_upstream n) (\<lambda>_. silent) (\<lambda>_. discreet)"
  by (rule tripleI; auto simp: write_client_def expect_client_def expect_upstream_def silent_def discreet_def in_clear_def
      dest: send_tls recv_tls split: prod.splits sum.splits option.splits if_splits)+

lemma asked_step:
  assumes "length (pk_body p) = 32"
  shows "triple silent (write_upstream p) (\<lambda>_. asked) (\<lambda>_. discreet)"
proof (rule tripleI)
  fix s r s' assume s: "silent s" and w: "write_upstream p s = (r, s')"
  obtain err c where c: "send_with mysql_writePacket p (lk_upstream s) = (err, c)" by fastforce
  obtain sent rest where "cn_sent c = cn_sent (lk_upstream s) @ sent" "packet_bytes p = sent @ rest"
    using send_packet[OF c] by blast
  moreover have "length (packet_bytes p) = 36" by (simp add: packet_bytes_def Let_def assms)
  ultimately have "length (cn_sent c) \<le> 36" using s by (simp add: silent_def)
  then have "asked s'" using s w c send_tls[OF c] by (auto simp: write_upstream_def asked_def silent_def)
  then show "case r of Inr _ \<Rightarrow> asked s' | Inl _ \<Rightarrow> discreet s'" using discreet_cases(2) by (auto split: sum.splits)
qed

lemma tls_steps:
  "triple asked (tls_upstream h) (\<lambda>_. secured False) (\<lambda>_. discreet)"
  "triple (secured False) (tls_client h) (\<lambda>_. secured True) (\<lambda>_. discreet)"
  by (rule tripleI; auto simp: tls_upstream_def tls_client_def asked_def secured_def discreet_def in_clear_def
      start_tls_def split: prod.splits sum.splits)+

lemma secured_discreet:
  "triple (secured ct) m Q (\<lambda>_. secured ct) \<Longrightarrow> triple (secured ct) m Q (\<lambda>_. discreet)"
  by (erule triple_conseq) (auto intro: discreet_cases)

lemma authenticate_secure:
  "triple silent (authenticate True upstreamTLS clientTLS)
    (\<lambda>_. secured True) (\<lambda>_. discreet)"
proof -
  have r: "triple (secured True) (auth_rounds n seq flags) (\<lambda>_. secured True) (\<lambda>_. discreet)" for n seq flags
    by (rule secured_discreet) (rule triple_conseq[OF auth_rounds_secured], auto)
  show ?thesis
  unfolding authenticate_def
  by (auto simp: Let_def intro!: triple_andThen[OF silent_steps(1)] triple_andThen[OF silent_steps(2)]
      triple_andThen[OF silent_steps(3)] triple_fail triple_andThen[OF asked_step] triple_andThen[OF tls_steps(1)]
      triple_andThen[OF tls_steps(2)] triple_andThen[OF secured_discreet[OF secured_steps(3)]]
      triple_andThen[OF secured_discreet[OF secured_steps(2)]] r
      simp: discreet_cases(1,2) discreet_cases(3)[where ct = True] discreet_cases(3)[where ct = False] split: option.splits prod.splits)
qed

text \<open>The capabilities a session may have been agreed on with.\<close>

definition caps_ok :: "bool \<Rightarrow> u32 \<Rightarrow> bool" where
  "caps_ok secure flags \<longleftrightarrow> flags AND forbiddenCaps = 0 \<and> flags AND capProtocol41 \<noteq> 0
     \<and> flags AND capPluginAuth \<noteq> 0 \<and> (flags AND capSSL \<noteq> 0 \<longleftrightarrow> secure)"

lemma authenticate_flags:
  assumes "authenticate secure upstreamTLS clientTLS s = (Inr flags, s')"
  shows "caps_ok secure flags"
proof -
  have t: "triple (\<lambda>_. True) m (\<lambda>_ _. True) (\<lambda>_ _. True)" for m :: "(links, 'x) eff"
    by (rule tripleI) (auto split: sum.splits)
  have r: "triple (\<lambda>_. True) (auth_rounds n seq f) (\<lambda>f _. caps_ok sec f) (\<lambda>_ _. True)"
    if "f AND forbiddenCaps = 0" "f AND capProtocol41 \<noteq> 0" "f AND capPluginAuth \<noteq> 0" "f AND capSSL \<noteq> 0 \<longleftrightarrow> sec"
    for n seq f sec
    by (rule triple_conseq[OF auth_rounds_flags]) (use that in \<open>auto simp: caps_ok_def\<close>)
  have "triple (\<lambda>_. True) (authenticate secure upstreamTLS clientTLS) (\<lambda>f _. caps_ok secure f) (\<lambda>_ _. True)"
    unfolding authenticate_def
    by (auto simp: Let_def flags_refused_def intro!: triple_andThen[OF t] triple_fail r split: option.splits prod.splits)
  from triple_Inr[OF this _ assms] show ?thesis by simp
qed

section \<open>A sample handshake\<close>

definition demo_greeting :: bytes where
  "demo_greeting = [10, 56, 0] @ replicate 13 1 @ [0xa0, 0x0a, 1, 1, 1, 8, 2] @ replicate 20 1 @ caching_sha2"

definition demo_ssl_request :: bytes where
  "demo_ssl_request = [0, 0x0a, 8, 0] @ replicate 28 0"

definition demo_links :: links where
  "demo_links = \<lparr>lk_client = demo_conn\<lparr>cn_in := (packet_bytes \<lparr>pk_seq = 1, pk_body = demo_ssl_request\<rparr>, EOF)\<rparr>,
     lk_upstream = demo_conn\<lparr>cn_in := (packet_bytes \<lparr>pk_seq = 0, pk_body = demo_greeting\<rparr>, EOF)\<rparr>\<rparr>"

definition demo_upstream_tls :: handshake where
  "demo_upstream_tls = Inr ((packet_bytes \<lparr>pk_seq = 3, pk_body = [0, 0, 0, 2, 0, 0, 0]\<rparr>, EOF), full_writer)"

definition demo_client_tls :: handshake where
  "demo_client_tls = Inr ((packet_bytes \<lparr>pk_seq = 2, pk_body = demo_ssl_request @ [65, 0]\<rparr>, EOF), full_writer)"

lemma demo_caching: "length caching_sha2 = 22" "caching_sha2 \<noteq> []"
  by (simp_all add: caching_sha2_def)

lemma demo_greeting_caps: "caps_offset demo_greeting = 16" "caps_of demo_greeting = 0x02080aa0" "length demo_greeting = 65"
  by (simp_all add: caps_offset_def caps_of_def demo_greeting_def le16_def demo_caching)

lemma demo_greeting_accepted:
  "greeting demo_greeting True = Some ([10, 56, 0] @ replicate 13 1 @ [0, 0x0a, 1, 1, 1, 8, 0] @ replicate 20 1 @ caching_sha2, 0x00080a00)"
proof -
  have s: "hasSuffix demo_greeting caching_sha2" by (simp add: hasSuffix_def demo_greeting_def demo_caching)
  show ?thesis
    unfolding greeting_def demo_greeting_caps Let_def
    using s by (simp add: demo_greeting_def cap_defs put_le16_def)
qed

definition demo_agreed :: links where
  "demo_agreed = snd (authenticate True demo_upstream_tls demo_client_tls demo_links)"

lemma read_packet: "packet_ok p \<Longrightarrow> mysql_readPacket (packet_bytes p, e) = Inr (p, [], e)"
  using packets.decode_encode[of p "[]" e] by simp

lemma demo_authenticate:
  "authenticate True demo_upstream_tls demo_client_tls demo_links = (Inr 0x00080a00, demo_agreed) \<and> silent demo_links"
proof -
  let ?req = "\<lparr>pk_seq = 1, pk_body = demo_ssl_request\<rparr> :: packet" and ?req2 = "\<lparr>pk_seq = 2, pk_body = demo_ssl_request @ [65, 0]\<rparr> :: packet"
  let ?hi = "\<lparr>pk_seq = 0, pk_body = demo_greeting\<rparr> :: packet" and ?done = "\<lparr>pk_seq = 3, pk_body = [0, 0, 0, 2, 0, 0, 0]\<rparr> :: packet"
  let ?b = "[10, 56, 0] @ replicate 13 1 @ [0, 0x0a, 1, 1, 1, 8, 0] @ replicate 20 1 @ caching_sha2"
  let ?hi2 = "\<lparr>pk_seq = 0, pk_body = ?b\<rparr> :: packet"
  have "packet_ok ?req" "packet_ok ?req2" "packet_ok ?hi" "packet_ok ?done" "packet_ok ?hi2"
    by (simp_all add: packet_ok_def mysql_maxPacket_def demo_ssl_request_def demo_greeting_caps demo_caching flip: length_0_conv)
  note rw = this[THEN read_packet] this[THEN demo_writes]
  have f: "le32 demo_ssl_request = 0x00080a00" "le32 (demo_ssl_request @ [65, 0]) = 0x00080a00" "length demo_ssl_request = 32"
    by (simp_all add: demo_ssl_request_def le32_def)
  have c: "\<not> flags_refused 0x00080a00 0x00080a00" "0x00080a00 AND capSSL \<noteq> 0" by (simp_all add: flags_refused_def cap_defs)
  have k: "snd (okStatus [0, 0, 0, 2, 0, 0, 0])" by (simp add: okStatus_def lenenc_def)
  note twelve = auth_rounds.simps(2)[of 11, simplified]
  show ?thesis
    unfolding demo_agreed_def
    by (simp add: authenticate_def eff_defs expect_upstream_def expect_client_def recv_with_def demo_links_def demo_conn_def
        rw demo_greeting_accepted write_client_def write_upstream_def send_with_def f c tls_upstream_def tls_client_def
        demo_upstream_tls_def demo_client_tls_def start_tls_def k twelve silent_def del: append.simps append_Cons append_assoc)
qed

section \<open>The properties of the connection phase\<close>



text \<open>C28. A session is only opened with capabilities the proxy supports. With TLS configured, nothing but
  a request of at most 36 bytes leaves for the upstream in clear text, whatever happens, so no
  credentials do; and an opened session has TLS on both sides.\<close>

theorem authenticate_confidential:
  assumes "authenticate secure upstreamTLS clientTLS s = (r, s')" "silent s"
  shows "(\<forall>flags. r = Inr flags \<longrightarrow> caps_ok secure flags)
    \<and> (secure \<longrightarrow> length (in_clear (lk_upstream s')) \<le> 36
        \<and> (\<forall>flags. r = Inr flags \<longrightarrow> cn_tls (lk_upstream s') \<and> cn_tls (lk_client s')))"
proof -
  have "secure \<Longrightarrow> (case r of Inr _ \<Rightarrow> secured True s' | Inl _ \<Rightarrow> discreet s')"
    using triple_Inr[OF authenticate_secure assms(2)] triple_Inl[OF authenticate_secure assms(2)] assms(1)
    by (cases r) auto
  then show ?thesis
    using authenticate_flags assms(1) by (auto simp: secured_def discreet_def in_clear_def split: sum.splits)
qed

theorem authenticate_confidential_witness:
  "caps_ok True 0x00080a00 \<and> length (in_clear (lk_upstream demo_agreed)) \<le> 36 \<and> cn_tls (lk_client demo_agreed)"
  using authenticate_confidential demo_authenticate by blast

end
