(* ===== verification/Pg_Wire.thy ===== *)
theory Pg_Wire
  imports Wire
begin

text \<open>
  The messages of the PostgreSQL protocol (\<open>src/internal/proxy/postgresql/wire.go\<close>): startup
  packets without a type byte and frames with one, both with a big-endian length that counts
  itself. Both formats are shown to be a \<open>codec\<close>.
\<close>

definition pg_maxFrame :: nat where
  "pg_maxFrame = 2 ^ 20"

definition pg_maxStartup :: nat where
  "pg_maxStartup = 10 * 2 ^ 10"

definition sslRequest :: u32 where
  "sslRequest = 80877103"

definition cancelRequest :: u32 where
  "cancelRequest = 80877102"

record frame =
  fr_kind :: byte
  fr_body :: bytes

definition pg_readPacket :: "nat \<Rightarrow> reader \<Rightarrow> (bytes \<times> reader) result" where
  "pg_readPacket limit r =
     (case readFull 4 r of
        Inl err \<Rightarrow> Inl err
      | Inr (h, r') \<Rightarrow>
          let n = be32 h in
          if n < 4 \<or> of_nat limit < n then Inl ErrProtocol
          else readFull (unat n - 4) r')"

definition pg_readFrame :: "reader \<Rightarrow> (frame \<times> reader) result" where
  "pg_readFrame r =
     (case readFull 1 r of
        Inl err \<Rightarrow> Inl err
      | Inr (h, r') \<Rightarrow>
          (case pg_readPacket pg_maxFrame r' of
             Inl err \<Rightarrow> Inl err
           | Inr (b, r'') \<Rightarrow> Inr (\<lparr>fr_kind = h ! 0, fr_body = b\<rparr>, r'')))"

definition pg_packet_bytes :: "bytes \<Rightarrow> bytes" where
  "pg_packet_bytes b = put_be32 (of_nat (length b + 4)) @ b"

definition pg_writePacket :: "writer \<Rightarrow> nat \<Rightarrow> bytes \<Rightarrow> bytes \<times> nat \<times> gerror option" where
  "pg_writePacket w i b = writeAll w i (pg_packet_bytes b)"

definition pg_frame_bytes :: "frame \<Rightarrow> bytes" where
  "pg_frame_bytes f = [fr_kind f] @ put_be32 (of_nat (length (fr_body f) + 4)) @ fr_body f"

definition pg_writeFrame :: "writer \<Rightarrow> nat \<Rightarrow> frame \<Rightarrow> bytes \<times> nat \<times> gerror option" where
  "pg_writeFrame w i f = writeAll w i (pg_frame_bytes f)"

definition pg_reject_frame :: frame where
  "pg_reject_frame = \<lparr>fr_kind = of_char (CHR ''E''), fr_body =
     map of_char ''SFATAL'' @ [0] @ map of_char ''C0A000'' @ [0]
     @ map of_char ''MFaultline: unsupported protocol, authentication or operation'' @ [0, 0]\<rparr>"

section \<open>The formats are codecs\<close>

lemma bit_be32:
  fixes a b c d :: byte
  shows "bit (be32 [a, b, c, d]) n \<longleftrightarrow> (if n < 8 then bit d n else if n < 16 then bit c (n - 8)
     else if n < 24 then bit b (n - 16) else n < 32 \<and> bit a (n - 24))"
proof -
  have no: "\<not> n < 8 \<Longrightarrow> \<not> bit x n" for x :: byte and n by (auto dest: bit_imp_le_length)
  show ?thesis
    by (cases "n < 8"; cases "n < 16"; cases "n < 24"; cases "n < 32")
      (auto simp: be32_def bit_simps no)
qed

lemma be32_put [simp]: "be32 (put_be32 v) = v"
proof (rule bit_eqI)
  fix n
  have "\<not> n < 32 \<Longrightarrow> \<not> bit v n" by (auto dest: bit_imp_le_length)
  then show "bit (be32 (put_be32 v)) n = bit v n"
    by (cases "n < 8"; cases "n < 16"; cases "n < 24"; cases "n < 32")
      (auto simp: put_be32_def bit_be32 bit_simps)
qed

lemma put_be32_be32:
  fixes a b c d :: byte
  shows "put_be32 (be32 [a, b, c, d]) = [a, b, c, d]"
proof -
  have "ucast (drop_bit 24 (be32 [a, b, c, d])) = a" "ucast (drop_bit 16 (be32 [a, b, c, d])) = b"
    "ucast (drop_bit 8 (be32 [a, b, c, d])) = c" "ucast (be32 [a, b, c, d]) = d"
    by (rule bit_eqI; auto simp: bit_be32 bit_simps dest: bit_imp_le_length)+
  then show ?thesis by (simp add: put_be32_def)
qed

lemma length_put_be32 [simp]: "length (put_be32 v) = 4"
  by (simp add: put_be32_def)

lemma pg_readPacket_encode:
  assumes "length b + 4 \<le> limit" "limit < 2 ^ 32"
  shows "pg_readPacket limit (pg_packet_bytes b @ rest, e) = Inr (b, rest, e)"
proof -
  have u: "unat (of_nat (length b + 4) :: u32) = length b + 4" "unat (of_nat limit :: u32) = limit"
    using assms by (simp_all add: unat_of_nat del: of_nat_add)
  then have "\<not> (of_nat (length b + 4) :: u32) < 4" "\<not> (of_nat limit :: u32) < of_nat (length b + 4)"
    using assms by (simp_all add: word_less_nat_alt del: of_nat_add)
  then show ?thesis
    using u by (simp add: pg_readPacket_def readFull_def pg_packet_bytes_def del: of_nat_add)
qed

lemma pg_readPacket_sound:
  assumes "pg_readPacket limit (bs, e) = Inr (b, bs', e')" "limit < 2 ^ 32"
  shows "length b + 4 \<le> limit \<and> bs = pg_packet_bytes b @ bs' \<and> e' = e"
proof -
  let ?n = "be32 (take 4 bs)"
  have len: "4 \<le> length bs" "\<not> ?n < 4" "\<not> of_nat limit < ?n" "unat ?n - 4 \<le> length (drop 4 bs)"
    and b: "b = take (unat ?n - 4) (drop 4 bs)" "bs' = drop (unat ?n - 4) (drop 4 bs)" "e' = e"
    using assms(1) by (auto simp: pg_readPacket_def readFull_def Let_def split: if_splits)
  obtain x y z w t where bs: "bs = x # y # z # w # t"
    using len(1) by (auto simp: numeral_eq_Suc Suc_le_length_iff)
  have lim: "unat (of_nat limit :: u32) = limit" using assms(2) by (simp add: unat_of_nat)
  have "4 \<le> unat ?n" "unat ?n \<le> limit"
    using len(2,3) lim by (simp_all add: word_less_nat_alt)
  moreover have "length b + 4 = unat ?n" using b(1) len(4) \<open>4 \<le> unat ?n\<close> by simp
  ultimately have "length b + 4 \<le> limit" "of_nat (length b + 4) = ?n" by simp_all
  moreover have "pg_packet_bytes b = [x, y, z, w] @ take (unat ?n - 4) t"
    using put_be32_be32[of x y z w] b(1) \<open>of_nat (length b + 4) = ?n\<close>
    by (simp add: pg_packet_bytes_def bs del: of_nat_add)
  ultimately show ?thesis using b by (simp add: bs)
qed

interpretation startups: codec pg_packet_bytes "pg_readPacket pg_maxStartup" "\<lambda>b. length b + 4 \<le> pg_maxStartup"
proof unfold_locales
  show "pg_readPacket pg_maxStartup (pg_packet_bytes b @ rest, e) = Inr (b, rest, e)"
    if "length b + 4 \<le> pg_maxStartup" for b rest e
    using that by (rule pg_readPacket_encode) (simp add: pg_maxStartup_def)
  show "length b + 4 \<le> pg_maxStartup \<and> bs = pg_packet_bytes b @ bs' \<and> e' = e"
    if "pg_readPacket pg_maxStartup (bs, e) = Inr (b, bs', e')" for b bs bs' e e'
    using that by (rule pg_readPacket_sound) (simp add: pg_maxStartup_def)
qed

definition frame_ok :: "frame \<Rightarrow> bool" where
  "frame_ok f \<longleftrightarrow> length (fr_body f) + 4 \<le> pg_maxFrame"

interpretation frames: codec pg_frame_bytes pg_readFrame frame_ok
proof unfold_locales
  have lim: "pg_maxFrame < 2 ^ 32" by (simp add: pg_maxFrame_def)
  show "pg_readFrame (pg_frame_bytes f @ rest, e) = Inr (f, rest, e)" if "frame_ok f" for f rest e
  proof -
    have "pg_frame_bytes f @ rest = fr_kind f # pg_packet_bytes (fr_body f) @ rest"
      by (simp add: pg_frame_bytes_def pg_packet_bytes_def)
    moreover have "pg_readPacket pg_maxFrame (pg_packet_bytes (fr_body f) @ rest, e) = Inr (fr_body f, rest, e)"
      using that lim by (intro pg_readPacket_encode) (simp add: frame_ok_def)
    ultimately show ?thesis by (cases f) (simp add: pg_readFrame_def readFull_def)
  qed
  show "frame_ok f \<and> bs = pg_frame_bytes f @ bs' \<and> e' = e"
    if r: "pg_readFrame (bs, e) = Inr (f, bs', e')" for f bs bs' e e'
  proof -
    obtain k t where bs: "bs = k # t" and p: "pg_readPacket pg_maxFrame (t, e) = Inr (fr_body f, bs', e')"
      and k: "fr_kind f = k"
      using r by (cases bs) (auto simp: pg_readFrame_def readFull_def split: if_splits sum.splits)
    from pg_readPacket_sound[OF p lim] bs k show ?thesis
      by (simp add: frame_ok_def pg_frame_bytes_def pg_packet_bytes_def)
  qed
qed

section \<open>The properties of the message layer\<close>

text \<open>C23. A stream of frames that were written is read back frame by frame, and nothing of what
  follows is consumed.\<close>

theorem pg_stream:
  assumes "list_all frame_ok fs"
  shows "read_n pg_readFrame (length fs) (concat (map pg_frame_bytes fs) @ rest, e) = Inr (fs, rest, e)"
  using assms by (rule frames.read_stream)

theorem pg_stream_witness:
  "read_n pg_readFrame 1 (concat (map pg_frame_bytes [\<lparr>fr_kind = 90, fr_body = [73]\<rparr>]) @ [7], EOF)
   = Inr ([\<lparr>fr_kind = 90, fr_body = [73]\<rparr>], [7], EOF)"
  using pg_stream[of "[\<lparr>fr_kind = 90, fr_body = [73]\<rparr>]" "[7]" EOF]
  by (simp add: frame_ok_def pg_maxFrame_def del: concat.simps list.map read_n.simps)

text \<open>Reading is faithful: a frame that is returned is within the size limit and is exactly
  what the stream began with; in particular a truncated frame is never returned.\<close>

lemma pg_readFrame_faithful:
  assumes "pg_readFrame (bs, e) = Inr (f, bs', e')"
  shows "length (fr_body f) + 4 \<le> 2 ^ 20 \<and> bs = pg_frame_bytes f @ bs' \<and> e' = e"
  using frames.decode_sound[OF assms] by (simp add: frame_ok_def pg_maxFrame_def)

end
