(* ===== verification/Pg_Session.thy ===== *)
theory Pg_Session
  imports Session Pg_Wire
begin

text \<open>
  A connection of the PostgreSQL proxy (\<open>src/internal/proxy/postgresql/session.go\<close>, and the registry of
  cancellations of \<open>src/internal/proxy/postgresql/server.go\<close>): the start-up of a client, the
  connection to the upstream, authentication, and the exchange of frames. Dialling, deadlines and the
  cycle timer only show in the results of reads and writes and in the choice of the \<open>select\<close>.
\<close>

definition kind :: "char \<Rightarrow> byte" where
  "kind c = of_char c"

definition containsRune :: "string \<Rightarrow> byte \<Rightarrow> bool" where
  "containsRune s b \<longleftrightarrow> b \<in> set (map kind s)"

declare kind_def [eval_simps] containsRune_def [eval_simps]

section \<open>Cancellation\<close>

text \<open>
  The registry maps a key (the identifier of the proxy and the key given to the client) to the
  session it cancels, which is known by the key of its backend.
\<close>

type_synonym cancels = "string \<rightharpoonup> bytes"

definition register :: "string \<Rightarrow> bytes \<Rightarrow> cancels \<Rightarrow> cancels" where
  "register key backend m = m(key \<mapsto> backend)"

definition unregister :: "string \<Rightarrow> cancels \<Rightarrow> cancels" where
  "unregister key m = m(key := None)"

text \<open>\<open>cancelSession\<close>: the session that is cancelled, if any; and the packet \<open>cancelBackend\<close> sends for it.\<close>

definition cancelSession :: "string \<Rightarrow> cancels \<Rightarrow> bytes option" where
  "cancelSession key m = m key"

definition cancel_packet :: "bytes \<Rightarrow> bytes" where
  "cancel_packet key = put_be32 cancelRequest @ key"

section \<open>The start of a connection\<close>

definition pg_field_ok :: "bytes \<Rightarrow> bool" where
  "pg_field_ok name \<longleftrightarrow> \<not> (length name = 0 \<or> bytes_string name = ''replication'')"

text \<open>Every other field is the name of a parameter; the last field is not looked at here.\<close>

fun startup_names_ok :: "bytes list \<Rightarrow> bool" where
  "startup_names_ok [] = True"
| "startup_names_ok [final] = True"
| "startup_names_ok (name # val # rest) = (pg_field_ok name \<and> startup_names_ok rest)"

definition validStartup :: "bytes \<Rightarrow> bool" where
  "validStartup b =
     (if length b < 5 \<or> be32 (take 4 b) \<noteq> 196608 \<or> b ! (length b - 1) \<noteq> 0 then False
      else let fields = split 0 (take (length b - 5) (drop 4 b)) in
       if length fields mod 2 \<noteq> 1 \<or> length (last fields) \<noteq> 0 then False
       else startup_names_ok fields)"

definition send_bytes :: "bytes \<Rightarrow> (conn, unit) eff" where
  "send_bytes b c = (case send_with writeAll b c of
      (err, c') \<Rightarrow> (case err of None \<Rightarrow> Inr () | Some e \<Rightarrow> Inl e, c'))"

definition send_frame :: "frame \<Rightarrow> (conn, unit) eff" where
  "send_frame f c = (case send_with pg_writeFrame f c of
      (err, c') \<Rightarrow> (case err of None \<Rightarrow> Inr () | Some e \<Rightarrow> Inl e, c'))"

definition send_packet :: "bytes \<Rightarrow> (conn, unit) eff" where
  "send_packet b c = (case send_with pg_writePacket b c of
      (err, c') \<Rightarrow> (case err of None \<Rightarrow> Inr () | Some e \<Rightarrow> Inl e, c'))"

definition pg_reject :: "(conn, unit) eff" where
  "pg_reject = andThen (caught (send_frame pg_reject_frame)) (\<lambda>_. return ())"

definition shake :: "handshake \<Rightarrow> (conn, unit) eff" where
  "shake h c = (case h of Inl e \<Rightarrow> (Inl e, c) | Inr (r, w) \<Rightarrow> (Inr (), start_tls r w c))"

text \<open>
  The first part of \<open>serve\<close>, up to the connection to the upstream; an error stands for a return. \<open>slot\<close>
  says whether one of the connection slots is free.
\<close>

datatype hello = CancelKey string | Startup bytes | Turned_away

definition pg_tls_answer :: "bool \<Rightarrow> handshake \<Rightarrow> (conn, unit) eff" where
  "pg_tls_answer secure clientTLS =
     (if \<not> secure then send_bytes [kind (CHR ''N'')]
      else andThen (send_bytes [kind (CHR ''S'')]) (\<lambda>_. shake clientTLS))"

definition pg_request :: "bool \<Rightarrow> handshake \<Rightarrow> (conn, bytes) eff" where
  "pg_request secure clientTLS =
     andThen (recv_with (pg_readPacket pg_maxStartup)) (\<lambda>b.
       if length b = 4 \<and> be32 b = sslRequest
       then andThen (pg_tls_answer secure clientTLS) (\<lambda>_. recv_with (pg_readPacket pg_maxStartup))
       else return b)"

definition pg_hello :: "string \<Rightarrow> bool \<Rightarrow> handshake \<Rightarrow> bool \<Rightarrow> (conn, hello) eff" where
  "pg_hello proxyID secure clientTLS slot =
     andThen (pg_request secure clientTLS) (\<lambda>b.
       if length b = 12 \<and> be32 (take 4 b) = cancelRequest
       then return (CancelKey (proxyID @ bytes_string (drop 4 b)))
       else andThen (gets cn_tls) (\<lambda>tls.
         if secure \<and> \<not> tls then andThen pg_reject (\<lambda>_. return Turned_away)
         else if \<not> slot then andThen pg_reject (\<lambda>_. return Turned_away)
         else if \<not> validStartup b then andThen pg_reject (\<lambda>_. return Turned_away)
         else return (Startup b)))"

text \<open>\<open>connectUpstream\<close> on the connection that was dialled; every failure is \<open>errProtocol\<close>.\<close>

definition connectUpstream :: "bool \<Rightarrow> handshake \<Rightarrow> (conn, unit) eff" where
  "connectUpstream secure upstreamTLS =
     (if \<not> secure then return ()
      else andThen (caught (andThen (send_packet (put_be32 sslRequest)) (\<lambda>_.
          andThen (recv_with (readFull 1)) (\<lambda>answer.
            if answer ! 0 \<noteq> kind (CHR ''S'') then fail ErrProtocol else shake upstreamTLS)))) (\<lambda>err.
        if err \<noteq> None then fail ErrProtocol else return ()))"

section \<open>Authentication\<close>

record pg_link =
  pl_client :: conn
  pl_upstream :: conn
  pl_cancels :: cancels
  pl_cleanup :: "string option"

definition at_client :: "(conn, 'a) eff \<Rightarrow> (pg_link, 'a) eff" where
  "at_client m s = (case m (pl_client s) of (r, c) \<Rightarrow> (r, s\<lparr>pl_client := c\<rparr>))"

definition at_upstream :: "(conn, 'a) eff \<Rightarrow> (pg_link, 'a) eff" where
  "at_upstream m s = (case m (pl_upstream s) of (r, c) \<Rightarrow> (r, s\<lparr>pl_upstream := c\<rparr>))"

definition refuse :: "(pg_link, 'a) eff" where
  "refuse = andThen (at_client pg_reject) (\<lambda>_. fail ErrProtocol)"

definition scram :: bytes where
  "scram = map of_char ''SCRAM-SHA-256''"

text \<open>The stage after an authentication request, if the request may come now.\<close>

definition next_stage :: "u32 \<Rightarrow> bytes \<Rightarrow> nat \<Rightarrow> nat option" where
  "next_stage code data stage =
     (if code = 10 then (if stage \<noteq> 0 \<or> \<not> contains data (scram @ [0]) then None else Some 1)
      else if code = 11 then (if stage \<noteq> 1 then None else Some 2)
      else if code = 12 then (if stage \<noteq> 2 then None else Some 3)
      else if code = 0 then (if stage \<noteq> 3 then None else Some 4)
      else None)"

text \<open>The initial response of the client: the mechanism, the length and no channel binding.\<close>

definition scram_response_ok :: "bytes \<Rightarrow> bool" where
  "scram_response_ok body =
     (let (name, data, found) = cut 0 body in
      \<not> (\<not> found \<or> name \<noteq> scram \<or> length data < 4 \<or> unat (be32 data) \<noteq> length data - 4
         \<or> \<not> hasPrefix (drop 4 data) (map of_char ''n,,'')))"

definition closed_pipe :: gerror where
  "closed_pipe = Err ''io: read/write on closed pipe''"

definition auth_request :: "nat \<Rightarrow> frame \<Rightarrow> (pg_link, nat) eff" where
  "auth_request stage f =
     (if length (fr_body f) < 4 then refuse
      else let code = be32 (fr_body f) in
       case next_stage code (drop 4 (fr_body f)) stage of
         None \<Rightarrow> refuse
       | Some stage' \<Rightarrow>
           andThen (caught (at_client (send_frame f))) (\<lambda>err.
             if err \<noteq> None then fail closed_pipe
             else if code = 10 \<or> code = 11 then
               andThen (at_client (recv_with pg_readFrame)) (\<lambda>response.
                 if fr_kind response \<noteq> kind (CHR ''p'') then refuse
                 else if code = 10 \<and> \<not> scram_response_ok (fr_body response) then refuse
                 else andThen (at_upstream (send_frame response)) (\<lambda>_. return stage'))
             else return stage'))"

text \<open>
  One frame of the upstream during authentication: the next stage, or \<open>None\<close> when the session is ready.
  \<open>key\<close> is what \<open>rand.Read\<close> gives.
\<close>

definition auth_frame :: "string \<Rightarrow> bytes result \<Rightarrow> nat \<Rightarrow> frame \<Rightarrow> (pg_link, nat option) eff" where
  "auth_frame proxyID key stage f =
     (if fr_kind f = kind (CHR ''R'') then
        andThen (auth_request stage f) (\<lambda>stage'. return (Some stage'))
      else if fr_kind f = kind (CHR ''K'') then
        andThen (gets pl_cleanup) (\<lambda>cleanup.
          if length (fr_body f) \<noteq> 8 \<or> cleanup \<noteq> None then fail ErrProtocol
          else case key of
            Inl e \<Rightarrow> fail e
          | Inr k \<Rightarrow>
              let name = proxyID @ bytes_string k in
              andThen (modify (\<lambda>s. s\<lparr>pl_cancels := register name (fr_body f) (pl_cancels s), pl_cleanup := Some name\<rparr>)) (\<lambda>_.
              andThen (at_client (send_frame (f\<lparr>fr_body := k\<rparr>))) (\<lambda>_. return (Some stage))))
      else if fr_kind f = kind (CHR ''Z'') then
        (if stage \<noteq> 4 \<or> length (fr_body f) \<noteq> 1 \<or> fr_body f ! 0 \<noteq> kind (CHR ''I'') then fail ErrProtocol
         else andThen (at_client (send_frame f)) (\<lambda>_. return None))
      else if fr_kind f = kind (CHR ''E'') then
        andThen (caught (at_client (send_frame f))) (\<lambda>_. fail ErrProtocol)
      else if fr_kind f = kind (CHR ''S'') \<or> fr_kind f = kind (CHR ''N'') then
        andThen (at_client (send_frame f)) (\<lambda>_. return (Some stage))
      else refuse)"

text \<open>What the frames of an authentication keep: the laws are those of the reads and writes they make.\<close>

locale auth_invariant =
  fixes J :: "pg_link \<Rightarrow> bool"
  assumes client_sends: "triple J (at_client (send_frame f)) (\<lambda>_. J) (\<lambda>_. J)"
    and client_gives: "triple J (at_client (recv_with pg_readFrame)) (\<lambda>_. J) (\<lambda>_. J)"
    and upstream_sends: "triple J (at_upstream (send_frame f)) (\<lambda>_. J) (\<lambda>_. J)"
    and registers: "J s \<Longrightarrow> J (s\<lparr>pl_cancels := c, pl_cleanup := d\<rparr>)"
begin

lemma client_caught: "triple J (caught (at_client (send_frame f))) (\<lambda>_. J) (\<lambda>_. J)"
  by (rule triple_caught[OF client_sends])

lemma rejects: "triple J (at_client pg_reject) (\<lambda>_. J) (\<lambda>_. J)"
proof (rule tripleI)
  fix s r s' assume s: "J s" and run: "at_client pg_reject s = (r, s')"
  obtain r1 s1 where "at_client (send_frame pg_reject_frame) s = (r1, s1)" by fastforce
  with run have "s' = s1" by (auto simp: at_client_def pg_reject_def eff_defs split: prod.splits sum.splits gerror.splits)
  moreover have "J s1" using triple_Inr[OF client_sends s] triple_Inl[OF client_sends s] \<open>_ = (r1, s1)\<close> by (cases r1) auto
  ultimately show "case r of Inr _ \<Rightarrow> J s' | Inl _ \<Rightarrow> J s'" by (cases r) auto
qed

lemma refuses: "triple J refuse (\<lambda>_. J) (\<lambda>_. J)"
  unfolding refuse_def by (rule triple_andThen[OF rejects]) (rule triple_fail)

lemmas frame_intros = triple_return triple_fail triple_if refuses client_sends upstream_sends client_gives
  triple_andThen[OF client_sends] triple_andThen[OF client_gives] triple_andThen[OF upstream_sends]
  triple_andThen[OF client_caught]

lemma request: "triple J (auth_request stage f) (\<lambda>_. J) (\<lambda>_. J)"
  unfolding auth_request_def Let_def by (intro triple_if refuses) (auto split: option.splits intro!: frame_intros)

lemma frame: "triple J (auth_frame proxyID key stage f) (\<lambda>_. J) (\<lambda>_. J)"
proof -
  have reg: "triple J (andThen (modify (\<lambda>s. s\<lparr>pl_cancels := c s, pl_cleanup := d\<rparr>)) m) (\<lambda>_. J) (\<lambda>_. J)"
    if "triple J (m ()) (\<lambda>_. J) (\<lambda>_. J)" for c d and m :: "unit \<Rightarrow> (pg_link, nat option) eff"
    by (rule triple_andThen[where Q' = "\<lambda>_. J"]) (auto intro!: triple_modify that registers)
  show ?thesis
    unfolding auth_frame_def Let_def
    by (intro triple_if triple_andThen[OF request] triple_andThen[OF triple_gets[where Q = "\<lambda>_. J"]])
      (auto split: sum.splits intro!: reg frame_intros)
qed

end

text \<open>What is left to read from the upstream changes only by reading from it.\<close>

definition unread :: "reader \<Rightarrow> pg_link \<Rightarrow> bool" where
  "unread r s \<longleftrightarrow> cn_in (pl_upstream s) = r"

interpretation pending: auth_invariant "unread r" for r
  by unfold_locales
    ((rule tripleI)?; auto simp: at_client_def at_upstream_def unread_def send_frame_def send_with_def split: prod.splits sum.splits)+

lemma auth_frame_keeps:
  "auth_frame proxyID key stage f s = (x, s') \<Longrightarrow> cn_in (pl_upstream s') = cn_in (pl_upstream s)"
  using triple_Inr[OF pending.frame[of "cn_in (pl_upstream s)"], of s]
    triple_Inl[OF pending.frame[of "cn_in (pl_upstream s)"], of s]
  by (cases x) (auto simp: unread_def)

lemma recv_frame_in:
  assumes "at_upstream (recv_with pg_readFrame) s = (Inr f, s')"
  shows "length (fst (cn_in (pl_upstream s'))) < length (fst (cn_in (pl_upstream s)))"
proof -
  obtain bs e bs' e' where r: "cn_in (pl_upstream s) = (bs, e)" "pg_readFrame (bs, e) = Inr (f, bs', e')"
    "cn_in (pl_upstream s') = (bs', e')"
    using assms by (cases "cn_in (pl_upstream s)")
      (auto simp: at_upstream_def recv_with_def split: sum.splits prod.splits)
  from frames.decode_sound[OF r(2)] r show ?thesis by (auto simp: pg_frame_bytes_def)
qed

text \<open>The loop of \<open>authenticate\<close>; it ends because every turn takes a frame from what the upstream sent.\<close>

function pg_authenticate :: "string \<Rightarrow> bytes result \<Rightarrow> nat \<Rightarrow> pg_link \<Rightarrow> unit result \<times> pg_link" where
  "pg_authenticate proxyID key stage s =
     (case at_upstream (recv_with pg_readFrame) s of
        (Inl e, s1) \<Rightarrow> (Inl e, s1)
      | (Inr f, s1) \<Rightarrow>
          (case auth_frame proxyID key stage f s1 of
             (Inl e, s2) \<Rightarrow> (Inl e, s2)
           | (Inr None, s2) \<Rightarrow> (Inr (), s2)
           | (Inr (Some stage'), s2) \<Rightarrow> pg_authenticate proxyID key stage' s2))"
  by pat_completeness auto

termination
  by (relation "measure (\<lambda>(proxyID, key, stage, s). length (fst (cn_in (pl_upstream s))))")
    (auto dest!: recv_frame_in[OF sym] auth_frame_keeps[OF sym])

declare pg_authenticate.simps [simp del]

section \<open>The exchange of frames\<close>

text \<open>
  The state of \<open>exchange\<close>: the connections, the control service, the events handed to \<open>Record\<close> and the
  local variables. The zero snapshot between two flows is \<open>None\<close>.
\<close>

record ('h, 'p) pg_session =
  ps_client :: conn
  ps_upstream :: conn
  ps_service :: "('h, 'p) service"
  ps_events :: "event list"
  ps_snap :: "snapshot option"
  ps_event :: event
  ps_active :: bool
  ps_awaiting :: bool
  ps_transaction :: bool
  ps_executed :: bool
  ps_decided :: bool
  ps_outcome :: string

text \<open>
  A turn of the loop: what the \<open>select\<close> chose, what others did to the service before, the identifier
  and the times of an event, and whether the context ends before the timer of a fault.
\<close>

datatype pg_input = CtxDone | Front frame | Back frame

record ('h, 'p) pg_turn =
  pt_input :: pg_input
  pt_others :: "('h, 'p) service \<Rightarrow> ('h, 'p) service"
  pt_flow :: string
  pt_started :: instant
  pt_finished :: instant
  pt_done :: bool

definition pg_to_client :: "frame \<Rightarrow> (('h, 'p) pg_session, unit) eff" where
  "pg_to_client f s = (case send_frame f (ps_client s) of (r, c) \<Rightarrow> (r, s\<lparr>ps_client := c\<rparr>))"

definition pg_to_upstream :: "frame \<Rightarrow> (('h, 'p) pg_session, unit) eff" where
  "pg_to_upstream f s = (case send_frame f (ps_upstream s) of (r, c) \<Rightarrow> (r, s\<lparr>ps_upstream := c\<rparr>))"

text \<open>\<open>reject(c)\<close> and \<open>return\<close>.\<close>

definition pg_turn_away :: "(('h, 'p) pg_session, bool) eff" where
  "pg_turn_away = andThen (caught (pg_to_client pg_reject_frame)) (\<lambda>_. return False)"

definition pg_finish :: "('h, 'p) pg_turn \<Rightarrow> string \<Rightarrow> ('h, 'p) pg_session \<Rightarrow> ('h, 'p) pg_session" where
  "pg_finish t outcome s =
     (if \<not> ps_active s then s
      else let e = (ps_event s)\<lparr>ev_Type := ''flow_finished'', ev_Outcome := outcome, ev_FinishedAt := pt_finished t,
                     ev_NotReached := ev_Selected (ps_event s) \<and> \<not> ev_Reached (ps_event s)\<rparr>
           in s\<lparr>ps_event := e, ps_events := ps_events s @ [e], ps_active := False, ps_snap := None\<rparr>)"

subsection \<open>Frames of the client\<close>

definition pg_start_event :: "('h, 'p) pg_turn \<Rightarrow> snapshot \<Rightarrow> string \<Rightarrow> event" where
  "pg_start_event t snap proxyID = (new_event (sn_info snap) ''flow_started'')\<lparr>ev_FlowID := pt_flow t,
     ev_ProxyID := proxyID, ev_Protocol := ''postgresql'', ev_StartedAt := pt_started t\<rparr>"

definition pg_begin :: "string \<Rightarrow> ('h, 'p) pg_turn \<Rightarrow> ('h, 'p) pg_session \<Rightarrow> ('h, 'p) pg_session" where
  "pg_begin proxyID t s =
     (if ps_active s then s
      else let sv = pt_others t (ps_service s); snap = Acquire sv; e = pg_start_event t snap proxyID
           in s\<lparr>ps_service := sv, ps_snap := Some snap, ps_active := True, ps_executed := False, ps_decided := False,
                ps_outcome := ''forwarded'', ps_event := e, ps_events := ps_events s @ [e]\<rparr>)"

definition pg_front :: "string \<Rightarrow> ('h, 'p) pg_turn \<Rightarrow> frame \<Rightarrow> (('h, 'p) pg_session, bool) eff" where
  "pg_front proxyID t f =
     (if fr_kind f = kind (CHR ''X'') then return False
      else andThen (gets ps_awaiting) (\<lambda>awaiting.
        if \<not> containsRune ''QPBDEHCS'' (fr_kind f) \<or> awaiting then pg_turn_away
        else andThen (modify (pg_begin proxyID t)) (\<lambda>_.
          andThen (gets ps_executed) (\<lambda>executed.
            if fr_kind f = kind (CHR ''E'') \<and> executed then pg_turn_away
            else andThen (modify (\<lambda>s. s\<lparr>ps_executed := executed \<or> fr_kind f = kind (CHR ''E''),
                     ps_awaiting := awaiting \<or> fr_kind f = kind (CHR ''Q'') \<or> fr_kind f = kind (CHR ''S'')\<rparr>)) (\<lambda>_.
              andThen (caught (pg_to_upstream f)) (\<lambda>err. return (err = None)))))))"

subsection \<open>Frames of the upstream\<close>

definition pg_apply :: "bool \<Rightarrow> fault \<Rightarrow> bool result" where
  "pg_apply ctx_done f =
     (if f_Action f = ''close_connection'' then Inr False
      else case (if f_Action f = ''hold_response'' then f_MaxDuration f else f_Duration f) of
        None \<Rightarrow> Inl (Panic ''nil pointer dereference'')
      | Some _ \<Rightarrow> if ctx_done then Inr False else Inr (f_Action f = ''delay''))"

text \<open>The decision after a commit: whether the frame is passed on.\<close>

definition pg_decide :: "string \<Rightarrow> ('h, 'p) pg_turn \<Rightarrow> (('h, 'p) pg_session, bool) eff" where
  "pg_decide proxyID t s =
     (case ps_snap s of
        None \<Rightarrow> (Inl (Panic ''nil pointer dereference''), s)
      | Some snap \<Rightarrow>
          (case snapshot_Decide snap proxyID no_metadata (pt_others t (ps_service s)) of
             Inl e \<Rightarrow> (Inl e, s)
           | Inr (sv, d, _) \<Rightarrow>
               let e1 = with_decision d (ps_event s);
                   s1 = s\<lparr>ps_service := sv, ps_event := e1, ps_events := ps_events s @ [e1]\<rparr>
               in if \<not> de_Selected d then (Inr True, s1)
                  else let e2 = with_applied e1;
                           s2 = s1\<lparr>ps_event := e2, ps_events := ps_events s1 @ [e2]\<rparr>
                       in (pg_apply (pt_done t) (de_Fault d), s2)))"

definition pg_tag :: "string \<Rightarrow> bytes" where
  "pg_tag s = map of_char s @ [0]"

definition pg_complete :: "string \<Rightarrow> ('h, 'p) pg_turn \<Rightarrow> bytes \<Rightarrow> (('h, 'p) pg_session, bool) eff" where
  "pg_complete proxyID t body =
     (if body = pg_tag ''BEGIN'' then andThen (modify (\<lambda>s. s\<lparr>ps_transaction := True\<rparr>)) (\<lambda>_. return True)
      else if body = pg_tag ''ROLLBACK'' then andThen (modify (\<lambda>s. s\<lparr>ps_transaction := False\<rparr>)) (\<lambda>_. return True)
      else if body = pg_tag ''COMMIT'' then
        andThen (gets (\<lambda>s. ps_transaction s \<and> ps_active s \<and> \<not> ps_decided s)) (\<lambda>due.
          if due then andThen (modify (\<lambda>s. s\<lparr>ps_transaction := False, ps_decided := True\<rparr>)) (\<lambda>_. pg_decide proxyID t)
          else return True)
      else return True)"

definition pg_back :: "string \<Rightarrow> ('h, 'p) pg_turn \<Rightarrow> frame \<Rightarrow> (('h, 'p) pg_session, bool) eff" where
  "pg_back proxyID t f =
     (if \<not> containsRune ''123nTsDCIENSAZt'' (fr_kind f) then pg_turn_away
      else andThen (modify (\<lambda>s. if fr_kind f = kind (CHR ''E'') then s\<lparr>ps_outcome := ''upstream_error''\<rparr> else s)) (\<lambda>_.
        andThen (if fr_kind f = kind (CHR ''C'') then pg_complete proxyID t (fr_body f) else return True) (\<lambda>deliver.
          if \<not> deliver then andThen (modify (pg_finish t ''commit_ack_lost'')) (\<lambda>_. return False)
          else if fr_kind f = kind (CHR ''Z'') then
            (if length (fr_body f) \<noteq> 1 \<or> \<not> containsRune ''ITE'' (fr_body f ! 0) then pg_turn_away
             else andThen (modify (\<lambda>s. s\<lparr>ps_transaction := fr_body f ! 0 \<noteq> kind (CHR ''I''), ps_awaiting := False\<rparr>)) (\<lambda>_.
               andThen (caught (pg_to_client f)) (\<lambda>err.
                 if err \<noteq> None then return False
                 else andThen (modify (\<lambda>s. pg_finish t (ps_outcome s) s)) (\<lambda>_. return True))))
          else andThen (caught (pg_to_client f)) (\<lambda>err. return (err = None)))))"

definition pg_exchange_turn :: "string \<Rightarrow> ('h, 'p) pg_turn \<Rightarrow> (('h, 'p) pg_session, bool) eff" where
  "pg_exchange_turn proxyID t = (case pt_input t of
      CtxDone \<Rightarrow> return False
    | Front f \<Rightarrow> pg_front proxyID t f
    | Back f \<Rightarrow> pg_back proxyID t f)"

text \<open>The loop over the turns so far; when it returns, the deferred \<open>finish\<close> is run.\<close>

fun pg_exchange :: "string \<Rightarrow> ('h, 'p) pg_turn list \<Rightarrow> (('h, 'p) pg_session, bool) eff" where
  "pg_exchange proxyID [] = return True"
| "pg_exchange proxyID (t # ts) =
     andThen (pg_exchange_turn proxyID t) (\<lambda>next.
       if next then pg_exchange proxyID ts
       else andThen (modify (pg_finish t ''connection_closed'')) (\<lambda>_. return False))"

section \<open>A connection\<close>

text \<open>
  \<open>serve\<close> up to the exchange: a cancellation with the session it reaches, the end, or an open session.
  \<open>dialled\<close> is the connection to the upstream. \<open>pg_leave\<close> is the deferred \<open>cleanup\<close>.
\<close>

datatype served = Cancelled "bytes option" | Gone | Opened

definition pg_serve ::
    "string \<Rightarrow> bool \<Rightarrow> handshake \<Rightarrow> bool \<Rightarrow> conn result \<Rightarrow> bool \<Rightarrow> handshake \<Rightarrow> bytes result \<Rightarrow> (pg_link, served) eff" where
  "pg_serve proxyID secure clientTLS slot dialled upstreamSecure upstreamTLS key =
     andThen (at_client (pg_hello proxyID secure clientTLS slot)) (\<lambda>h. case h of
       CancelKey k \<Rightarrow> andThen (gets (\<lambda>s. cancelSession k (pl_cancels s))) (\<lambda>x. return (Cancelled x))
     | Turned_away \<Rightarrow> return Gone
     | Startup b \<Rightarrow> (case dialled of
           Inl e \<Rightarrow> fail e
         | Inr c \<Rightarrow>
             andThen (modify (\<lambda>s. s\<lparr>pl_upstream := c\<rparr>)) (\<lambda>_.
             andThen (at_upstream (connectUpstream upstreamSecure upstreamTLS)) (\<lambda>_.
             andThen (at_upstream (send_packet b)) (\<lambda>_.
             andThen (pg_authenticate proxyID key 0) (\<lambda>_. return Opened))))))"

definition pg_leave :: "pg_link \<Rightarrow> pg_link" where
  "pg_leave s = (case pl_cleanup s of
      None \<Rightarrow> s
    | Some key \<Rightarrow> s\<lparr>pl_cancels := unregister key (pl_cancels s), pl_cleanup := None\<rparr>)"

end
