(* ===== verification/Pg_Session_Correct.thy ===== *)
theory Pg_Session_Correct
  imports Pg_Session Session_Correct
begin

text \<open>
  What a connection of the PostgreSQL proxy does: it relays frames unchanged, its events are complete
  flows, it does not panic with a validated configuration, and it opens a session only after an
  authentication of the supported kind.
\<close>

section \<open>Sending frames\<close>

lemma send_frame_result:
  assumes "send_frame f c = (r, c')"
  obtains sent rest where "cn_sent c' = cn_sent c @ sent" "pg_frame_bytes f = sent @ rest" "r = Inr () \<longrightarrow> rest = []"
    "cn_writer c' = cn_writer c" "cn_tls c' = cn_tls c" "cn_clear c' = cn_clear c"
proof -
  obtain sent j err where w: "writeAll (cn_writer c) (cn_calls c) (pg_frame_bytes f) = (sent, j, err)"
    by (cases "writeAll (cn_writer c) (cn_calls c) (pg_frame_bytes f)") auto
  obtain rest where "pg_frame_bytes f = sent @ rest" "err = None \<longrightarrow> rest = []" using writeAll_prefix[OF w] by blast
  then show thesis
    using assms w by (intro that[of sent rest])
      (auto simp: send_frame_def send_with_def pg_writeFrame_def split: option.splits)
qed

section \<open>The relay\<close>

text \<open>The connections of a session, and a session after it sent a frame, or a part of a last one.\<close>

definition links_are :: "conn \<Rightarrow> conn \<Rightarrow> ('h, 'p) pg_session \<Rightarrow> bool" where
  "links_are c u s \<longleftrightarrow> ps_client s = c \<and> ps_upstream s = u"

definition passed_on :: "conn \<Rightarrow> bytes \<Rightarrow> conn \<Rightarrow> bytes \<Rightarrow> ('h, 'p) pg_session \<Rightarrow> bool" where
  "passed_on c cs u us s \<longleftrightarrow> cn_sent (ps_client s) = cn_sent c @ cs \<and> cn_sent (ps_upstream s) = cn_sent u @ us"

definition cut_short :: "conn \<Rightarrow> frame list \<Rightarrow> conn \<Rightarrow> frame list \<Rightarrow> ('h, 'p) pg_session \<Rightarrow> bool" where
  "cut_short c fs u gs s \<longleftrightarrow> (\<exists>cs us. passed_on c cs u us s
     \<and> (\<exists>f rest. (f = pg_reject_frame \<or> f \<in> set fs) \<and> pg_frame_bytes f = cs @ rest)
     \<and> (us = [] \<or> (\<exists>g rest. g \<in> set gs \<and> pg_frame_bytes g = us @ rest)))"

lemma links_upd [simp]:
  "links_are c u (s\<lparr>ps_service := x1\<rparr>) = links_are c u s" "links_are c u (s\<lparr>ps_events := x2\<rparr>) = links_are c u s"
  "links_are c u (s\<lparr>ps_snap := x3\<rparr>) = links_are c u s" "links_are c u (s\<lparr>ps_event := x4\<rparr>) = links_are c u s"
  "links_are c u (s\<lparr>ps_active := x5\<rparr>) = links_are c u s" "links_are c u (s\<lparr>ps_awaiting := x5\<rparr>) = links_are c u s"
  "links_are c u (s\<lparr>ps_transaction := x5\<rparr>) = links_are c u s" "links_are c u (s\<lparr>ps_executed := x5\<rparr>) = links_are c u s"
  "links_are c u (s\<lparr>ps_decided := x5\<rparr>) = links_are c u s" "links_are c u (s\<lparr>ps_outcome := x6\<rparr>) = links_are c u s"
  "links_are c u (pg_begin pid t s) = links_are c u s" "links_are c u (pg_finish t out s) = links_are c u s"
  by (simp_all add: links_are_def pg_begin_def pg_finish_def Let_def)

lemma passed_finish [simp]:
  "passed_on c cs u us (pg_finish t out s) = passed_on c cs u us s"
  "cut_short c fs u gs (pg_finish t out s) = cut_short c fs u gs s"
  by (simp_all add: passed_on_def cut_short_def pg_finish_def Let_def)

lemma links_cut_short: "links_are c u s \<Longrightarrow> cut_short c fs u gs s"
  unfolding cut_short_def links_are_def passed_on_def by (intro exI[of _ "[]"]) auto

lemma pg_to_client_relay:
  "triple (links_are c u) (pg_to_client f) (\<lambda>_. passed_on c (pg_frame_bytes f) u []) (\<lambda>_. cut_short c [f] u gs)"
proof (rule tripleI)
  fix s :: "('a, 'b) pg_session" and r s' assume s: "links_are c u s" and m: "pg_to_client f s = (r, s')"
  obtain c' where c': "send_frame f c = (r, c')" "s' = s\<lparr>ps_client := c'\<rparr>"
    using m s by (auto simp: pg_to_client_def links_are_def split: prod.splits)
  obtain sent rest where "cn_sent c' = cn_sent c @ sent" "pg_frame_bytes f = sent @ rest" "r = Inr () \<longrightarrow> rest = []"
    by (rule send_frame_result[OF c'(1)])
  then show "case r of Inr _ \<Rightarrow> passed_on c (pg_frame_bytes f) u [] s' | Inl _ \<Rightarrow> cut_short c [f] u gs s'"
    using s c'(2) by (cases r) (auto simp: passed_on_def cut_short_def links_are_def)
qed

lemma pg_to_upstream_relay:
  "triple (links_are c u) (pg_to_upstream f) (\<lambda>_. passed_on c [] u (pg_frame_bytes f)) (\<lambda>_. cut_short c fs u [f])"
proof (rule tripleI)
  fix s :: "('a, 'b) pg_session" and r s' assume s: "links_are c u s" and m: "pg_to_upstream f s = (r, s')"
  obtain u' where u': "send_frame f u = (r, u')" "s' = s\<lparr>ps_upstream := u'\<rparr>"
    using m s by (auto simp: pg_to_upstream_def links_are_def split: prod.splits)
  obtain sent rest where "cn_sent u' = cn_sent u @ sent" "pg_frame_bytes f = sent @ rest" "r = Inr () \<longrightarrow> rest = []"
    by (rule send_frame_result[OF u'(1)])
  then show "case r of Inr _ \<Rightarrow> passed_on c [] u (pg_frame_bytes f) s' | Inl _ \<Rightarrow> cut_short c fs u [f] s'"
    using s u'(2) by (cases r) (auto simp: passed_on_def cut_short_def links_are_def)
qed

lemma pg_turn_away_relay:
  "triple (links_are c u) pg_turn_away (\<lambda>go s. \<not> go \<and> cut_short c fs u gs s) (\<lambda>_. cut_short c fs u gs)"
proof -
  have "triple (links_are c u) (caught (pg_to_client pg_reject_frame)) (\<lambda>_. cut_short c fs u gs) (\<lambda>_. cut_short c fs u gs)"
    by (rule triple_caught[OF pg_to_client_relay[where gs = gs]])
      (auto simp: cut_short_def passed_on_def)
  then show ?thesis
    unfolding pg_turn_away_def by (rule triple_andThen) (simp add: triple_return)
qed

lemma pg_decide_links:
  "triple (links_are c u) (pg_decide pid t) (\<lambda>_. links_are c u) (\<lambda>_. links_are c u)"
  by (rule tripleI) (auto simp: pg_decide_def Let_def split: option.splits sum.splits prod.splits if_splits)

lemma pg_complete_links:
  "triple (links_are c u) (pg_complete pid t body) (\<lambda>_. links_are c u) (\<lambda>_. links_are c u)"
  unfolding pg_complete_def
  by (intro triple_if triple_return triple_andThen[OF triple_modify[where Q = "\<lambda>_. links_are c u"]]
      triple_andThen[OF triple_gets[where Q = "\<lambda>_. links_are c u"]] pg_decide_links) simp_all

text \<open>A turn that goes on has passed its frame on; one that does not has passed on at most a part.\<close>

definition turn_relayed :: "pg_input \<Rightarrow> conn \<Rightarrow> conn \<Rightarrow> bool \<Rightarrow> ('h, 'p) pg_session \<Rightarrow> bool" where
  "turn_relayed i c u go = (case i of
      CtxDone \<Rightarrow> (\<lambda>s. \<not> go \<and> cut_short c [] u [] s)
    | Front f \<Rightarrow> (if go then passed_on c [] u (pg_frame_bytes f) else cut_short c [] u [f])
    | Back f \<Rightarrow> (if go then passed_on c (pg_frame_bytes f) u [] else cut_short c [f] u []))"

lemma turn_relayed_simps [simp]:
  "turn_relayed (Front f) c u True = passed_on c [] u (pg_frame_bytes f)"
  "turn_relayed (Front f) c u False = cut_short c [] u [f]"
  "turn_relayed (Back f) c u True = passed_on c (pg_frame_bytes f) u []"
  "turn_relayed (Back f) c u False = cut_short c [f] u []"
  by (simp_all add: turn_relayed_def)

lemma sent_or_not:
  assumes "triple P m (\<lambda>_. Q True) (\<lambda>_. Q False)"
  shows "triple P (andThen (caught m) (\<lambda>err. return (err = None))) Q (\<lambda>_. Q False)"
  by (rule triple_andThen[OF triple_caught[OF assms, where Q' = "\<lambda>err. Q (err = None)"]])
    (auto intro: triple_return)

lemma pg_front_relay:
  "triple (links_are c u) (pg_front pid t f) (turn_relayed (Front f) c u) (\<lambda>_. cut_short c [] u [f])"
proof -
  have away: "triple (links_are c u) pg_turn_away (turn_relayed (Front f) c u) (\<lambda>_. cut_short c [] u [f])"
    by (rule triple_conseq[OF pg_turn_away_relay[where fs = "[]" and gs = "[f]"]]) auto
  have up: "triple (links_are c u) (andThen (caught (pg_to_upstream f)) (\<lambda>err. return (err = None)))
      (turn_relayed (Front f) c u) (\<lambda>_. cut_short c [] u [f])"
    by (rule sent_or_not[where Q = "turn_relayed (Front f) c u", unfolded turn_relayed_simps]) (rule pg_to_upstream_relay)
  show ?thesis
    unfolding pg_front_def
    by (intro triple_if away up triple_andThen[OF triple_modify[where Q = "\<lambda>_. links_are c u"]]
        triple_andThen[OF triple_gets[where Q = "\<lambda>_. links_are c u"]])
      (auto intro!: triple_return links_cut_short)
qed

lemma pg_back_relay:
  "triple (links_are c u) (pg_back pid t f) (turn_relayed (Back f) c u) (\<lambda>_. cut_short c [f] u [])"
proof -
  have away: "triple (links_are c u) pg_turn_away (turn_relayed (Back f) c u) (\<lambda>_. cut_short c [f] u [])"
    by (rule triple_conseq[OF pg_turn_away_relay[where fs = "[f]" and gs = "[]"]]) auto
  have cl: "triple (links_are c u) (andThen (caught (pg_to_client f)) (\<lambda>err. return (err = None)))
      (turn_relayed (Back f) c u) (\<lambda>_. cut_short c [f] u [])"
    by (rule sent_or_not[where Q = "turn_relayed (Back f) c u", unfolded turn_relayed_simps]) (rule pg_to_client_relay)
  have fin: "triple (\<lambda>s. if err = None then passed_on c (pg_frame_bytes f) u [] s else cut_short c [f] u [] s)
      (if err \<noteq> None then return False else andThen (modify (\<lambda>s. pg_finish t (ps_outcome s) s)) (\<lambda>_. return True))
      (turn_relayed (Back f) c u) (\<lambda>_. cut_short c [f] u [])" for err
    by (cases err) (auto intro!: triple_return triple_andThen[OF triple_modify[where Q = "\<lambda>_. passed_on c (pg_frame_bytes f) u []"]])
  have ready: "triple (links_are c u) (andThen (caught (pg_to_client f)) (\<lambda>err.
      if err \<noteq> None then return False else andThen (modify (\<lambda>s. pg_finish t (ps_outcome s) s)) (\<lambda>_. return True)))
      (turn_relayed (Back f) c u) (\<lambda>_. cut_short c [f] u [])"
    by (rule triple_andThen[OF triple_caught[OF pg_to_client_relay[where gs = "[]"]] fin]) auto
  have com: "triple (links_are c u) (if b then pg_complete pid t (fr_body f) else return True)
      (\<lambda>_. links_are c u) (\<lambda>_. cut_short c [f] u [])" for b
    by (auto intro!: triple_return triple_conseq[OF pg_complete_links] links_cut_short)
  show ?thesis
    unfolding pg_back_def
    by (intro triple_if away cl ready triple_andThen[OF com] triple_andThen[OF triple_modify[where Q = "\<lambda>_. links_are c u"]])
      (auto intro!: triple_return links_cut_short)
qed

lemma pg_turn_relay:
  "triple (links_are c u) (pg_exchange_turn pid t) (turn_relayed (pt_input t) c u) (\<lambda>_. turn_relayed (pt_input t) c u False)"
proof (cases "pt_input t")
  case CtxDone
  then show ?thesis
    by (auto simp: pg_exchange_turn_def turn_relayed_def intro!: triple_return links_cut_short)
next
  case (Front f)
  then show ?thesis using pg_front_relay by (simp add: pg_exchange_turn_def)
next
  case (Back f)
  then show ?thesis using pg_back_relay by (simp add: pg_exchange_turn_def)
qed

text \<open>The frames of a list of turns that came from the upstream, and those that came from the client.\<close>

fun backs :: "pg_input list \<Rightarrow> frame list" where
  "backs [] = []"
| "backs (i # is) = (case i of Back f \<Rightarrow> f # backs is | _ \<Rightarrow> backs is)"

fun fronts :: "pg_input list \<Rightarrow> frame list" where
  "fronts [] = []"
| "fronts (i # is) = (case i of Front f \<Rightarrow> f # fronts is | _ \<Rightarrow> fronts is)"

definition frames_bytes :: "frame list \<Rightarrow> bytes" where
  "frames_bytes fs = concat (map pg_frame_bytes fs)"

lemma frames_bytes_simps [simp]: "frames_bytes [] = []" "frames_bytes (f # fs) = pg_frame_bytes f @ frames_bytes fs"
  by (simp_all add: frames_bytes_def)

lemma pg_exchange_relay:
  assumes "pg_exchange pid ts s = (r, s')"
  shows "\<exists>k \<le> length ts. \<exists>cs us.
    cn_sent (ps_client s') = cn_sent (ps_client s) @ frames_bytes (backs (map pt_input (take k ts))) @ cs
    \<and> cn_sent (ps_upstream s') = cn_sent (ps_upstream s) @ frames_bytes (fronts (map pt_input (take k ts))) @ us
    \<and> (if r = Inr True then k = length ts \<and> cs = [] \<and> us = []
       else (\<exists>f rest. (f = pg_reject_frame \<or> f \<in> set (backs (map pt_input (take 1 (drop k ts))))) \<and> pg_frame_bytes f = cs @ rest)
         \<and> (us = [] \<or> (\<exists>g rest. g \<in> set (fronts (map pt_input (take 1 (drop k ts)))) \<and> pg_frame_bytes g = us @ rest)))"
  using assms
proof (induction ts arbitrary: s)
  case Nil
  then show ?case by (auto simp: return_def)
next
  case (Cons t ts)
  obtain r1 s1 where t: "pg_exchange_turn pid t s = (r1, s1)" by fastforce
  have l: "links_are (ps_client s) (ps_upstream s) s" by (simp add: links_are_def)
  have R: "turn_relayed (pt_input t) (ps_client s) (ps_upstream s) (r1 = Inr True) s1"
    using triple_Inr[OF pg_turn_relay l] triple_Inl[OF pg_turn_relay l] t by (cases r1) auto
  show ?case
  proof (cases "r1 = Inr True")
    case True
    then have "pg_exchange pid ts s1 = (r, s')" using Cons.prems t by (simp add: andThen_def)
    from Cons.IH[OF this] obtain k cs us where k: "k \<le> length ts"
      "cn_sent (ps_client s') = cn_sent (ps_client s1) @ frames_bytes (backs (map pt_input (take k ts))) @ cs"
      "cn_sent (ps_upstream s') = cn_sent (ps_upstream s1) @ frames_bytes (fronts (map pt_input (take k ts))) @ us"
      and fin: "if r = Inr True then k = length ts \<and> cs = [] \<and> us = []
       else (\<exists>f rest. (f = pg_reject_frame \<or> f \<in> set (backs (map pt_input (take 1 (drop k ts))))) \<and> pg_frame_bytes f = cs @ rest)
         \<and> (us = [] \<or> (\<exists>g rest. g \<in> set (fronts (map pt_input (take 1 (drop k ts)))) \<and> pg_frame_bytes g = us @ rest))"
      by blast
    have ab: "cn_sent (ps_client s') = cn_sent (ps_client s) @ frames_bytes (backs (map pt_input (take (Suc k) (t # ts)))) @ cs"
      "cn_sent (ps_upstream s') = cn_sent (ps_upstream s) @ frames_bytes (fronts (map pt_input (take (Suc k) (t # ts)))) @ us"
      using k R True by (auto simp: turn_relayed_def passed_on_def split: pg_input.splits)
    show ?thesis
      by (rule exI[of _ "Suc k"], rule conjI, use k(1) in simp, rule exI[of _ cs], rule exI[of _ us])
        (use ab fin in \<open>auto split: if_splits\<close>)
  next
    case False
    then have s': "s' = (if r1 = Inr False then pg_finish t ''connection_closed'' s1 else s1)" "r \<noteq> Inr True"
      using Cons.prems t by (auto simp: eff_defs split: sum.splits)
    have "cut_short (ps_client s) (backs [pt_input t]) (ps_upstream s) (fronts [pt_input t]) s1"
      using R False by (auto simp: turn_relayed_def split: pg_input.splits)
    then have "cut_short (ps_client s) (backs [pt_input t]) (ps_upstream s) (fronts [pt_input t]) s'" using s'(1) by simp
    then show ?thesis
      using s'(2) by (intro exI[of _ 0]) (auto simp: cut_short_def passed_on_def)
  qed
qed

section \<open>The events of a session\<close>

text \<open>A flow that has started, with the event that is being filled in.\<close>

definition flow_so_far :: "event \<Rightarrow> event list \<Rightarrow> bool \<Rightarrow> event \<Rightarrow> bool" where
  "flow_so_far e mid decided cur \<longleftrightarrow> ev_Type e = ''flow_started'' \<and> ev_Time e = 0
     \<and> list_all (same_flow e) (mid @ [cur])
     \<and> (mid = [] \<and> \<not> decided \<and> \<not> ev_Applied cur
        \<or> (\<exists>d. mid = [d] \<and> decided \<and> ev_Type d = ''decision'' \<and> \<not> ev_Selected d \<and> \<not> ev_Applied cur)
        \<or> (\<exists>d a. mid = [d, a] \<and> decided \<and> ev_Type d = ''decision'' \<and> ev_Selected d \<and> ev_Type a = ''fault_applied''
             \<and> ev_Applied cur \<and> ev_CommitConfirmed cur))"

definition pg_traced :: "event list \<Rightarrow> ('h, 'p) pg_session \<Rightarrow> bool" where
  "pg_traced es s \<longleftrightarrow> (\<exists>ess. list_all flow_trace ess \<and>
     (if ps_active s
      then \<exists>e mid. ps_events s = es @ concat ess @ e # mid \<and> flow_so_far e mid (ps_decided s) (ps_event s)
        \<and> ps_outcome s \<noteq> ''commit_ack_lost''
      else ps_events s = es @ concat ess))"

lemma flow_so_far_finished:
  assumes "flow_so_far e mid decided cur" "f = cur\<lparr>ev_Type := ''flow_finished'', ev_Outcome := out, ev_FinishedAt := x, ev_NotReached := y\<rparr>"
    "out = ''commit_ack_lost'' \<longrightarrow> ev_Applied cur \<and> ev_CommitConfirmed cur"
  shows "flow_trace (e # mid @ [f])"
  unfolding flow_trace_def
  using assms by (intro exI[of _ e] exI[of _ mid] exI[of _ f]) (auto simp: flow_so_far_def same_flow_def)

lemma pg_finish_traced:
  assumes "pg_traced es s" "out = ''commit_ack_lost'' \<longrightarrow> (ps_active s \<longrightarrow> ev_Applied (ps_event s) \<and> ev_CommitConfirmed (ps_event s))"
  shows "pg_traced es (pg_finish t out s) \<and> \<not> ps_active (pg_finish t out s)"
proof (cases "ps_active s")
  case True
  then obtain ess e mid where f: "list_all flow_trace ess" "ps_events s = es @ concat ess @ e # mid"
    "flow_so_far e mid (ps_decided s) (ps_event s)"
    using assms(1) by (auto simp: pg_traced_def)
  let ?f = "(ps_event s)\<lparr>ev_Type := ''flow_finished'', ev_Outcome := out, ev_FinishedAt := pt_finished t,
    ev_NotReached := ev_Selected (ps_event s) \<and> \<not> ev_Reached (ps_event s)\<rparr>"
  have "flow_trace (e # mid @ [?f])" by (rule flow_so_far_finished[OF f(3) refl]) (use assms(2) True in simp)
  then have "list_all flow_trace (ess @ [e # mid @ [?f]])" "ps_events s @ [?f] = es @ concat (ess @ [e # mid @ [?f]])"
    using f(1,2) by simp_all
  moreover have "ps_events (pg_finish t out s) = ps_events s @ [?f]" "\<not> ps_active (pg_finish t out s)"
    using True by (simp_all add: pg_finish_def Let_def)
  ultimately show ?thesis unfolding pg_traced_def by metis
qed (use assms in \<open>simp add: pg_finish_def\<close>)

lemma pg_begin_traced:
  assumes "pg_traced es s"
  shows "pg_traced es (pg_begin pid t s)"
proof (cases "ps_active s")
  case False
  let ?e = "pg_start_event t (Acquire (pt_others t (ps_service s))) pid"
  have "flow_so_far ?e [] False ?e" by (simp add: flow_so_far_def pg_start_event_def same_flow_def)
  then show ?thesis
    using assms False by (auto simp: pg_traced_def pg_begin_def Let_def)
qed (use assms in \<open>simp add: pg_begin_def\<close>)

lemma pg_traced_upd [simp]:
  "pg_traced es (s\<lparr>ps_client := a\<rparr>) = pg_traced es s" "pg_traced es (s\<lparr>ps_upstream := a\<rparr>) = pg_traced es s"
  "pg_traced es (s\<lparr>ps_awaiting := b\<rparr>) = pg_traced es s" "pg_traced es (s\<lparr>ps_executed := b\<rparr>) = pg_traced es s"
  "pg_traced es (s\<lparr>ps_transaction := b\<rparr>) = pg_traced es s"
  by (simp_all add: pg_traced_def)

lemma pg_traced_outcome: "pg_traced es s \<Longrightarrow> pg_traced es (s\<lparr>ps_outcome := ''upstream_error''\<rparr>)"
  unfolding pg_traced_def by (cases "ps_active s") auto

text \<open>A decision is taken once in a flow.\<close>

definition confirmed :: "('h, 'p) pg_session \<Rightarrow> bool" where
  "confirmed s \<longleftrightarrow> ps_active s \<and> ev_Applied (ps_event s) \<and> ev_CommitConfirmed (ps_event s)"

lemma pg_decide_traced:
  assumes tr: "pg_traced es s" and s: "ps_active s" "\<not> ps_decided s"
    and run: "pg_decide pid t (s\<lparr>ps_transaction := False, ps_decided := True\<rparr>) = (Inr deliver, s')"
  shows "pg_traced es s' \<and> (\<not> deliver \<longrightarrow> confirmed s')"
proof -
  let ?s = "s\<lparr>ps_transaction := False, ps_decided := True\<rparr>"
  obtain ess e where f: "list_all flow_trace ess" "ps_events s = es @ concat ess @ [e]"
    "flow_so_far e [] False (ps_event s)" "ps_outcome s \<noteq> ''commit_ack_lost''"
    using tr s by (auto simp: pg_traced_def flow_so_far_def)
  obtain snap sv d x where d: "ps_snap s = Some snap"
    "snapshot_Decide snap pid no_metadata (pt_others t (ps_service s)) = Inr (sv, d, x)"
    using run by (auto simp: pg_decide_def split: option.splits sum.splits)
  let ?d = "with_decision d (ps_event s)"
  show ?thesis
  proof (cases "de_Selected d")
    case True
    have "flow_so_far e [?d, with_applied ?d] True (with_applied ?d)"
      using f(3) True by (auto simp: flow_so_far_def with_decision_def with_applied_def same_flow_def)
    then show ?thesis
      using run d True f(1,2,4) s(1)
      by (auto simp: pg_decide_def Let_def pg_traced_def confirmed_def with_applied_def with_decision_def)
  next
    case False
    have "flow_so_far e [?d] True ?d"
      using f(3) False by (auto simp: flow_so_far_def with_decision_def same_flow_def)
    then show ?thesis
      using run d False f(1,2,4) s(1) by (auto simp: pg_decide_def Let_def pg_traced_def)
  qed
qed

lemma pg_complete_traced:
  "triple (pg_traced es) (pg_complete pid t body) (\<lambda>deliver s. pg_traced es s \<and> (\<not> deliver \<longrightarrow> confirmed s)) (\<lambda>_ _. True)"
proof (rule tripleI)
  fix s :: "('a, 'b) pg_session" and r s' assume s: "pg_traced es s" and run: "pg_complete pid t body s = (r, s')"
  show "case r of Inr deliver \<Rightarrow> pg_traced es s' \<and> (\<not> deliver \<longrightarrow> confirmed s') | Inl _ \<Rightarrow> True"
  proof (cases "body = pg_tag ''COMMIT'' \<and> ps_transaction s \<and> ps_active s \<and> \<not> ps_decided s")
    case True
    then have "pg_decide pid t (s\<lparr>ps_transaction := False, ps_decided := True\<rparr>) = (r, s')"
      using run by (simp add: pg_complete_def eff_defs pg_tag_def)
    with pg_decide_traced[OF s] True show ?thesis by (cases r) auto
  next
    case False
    then show ?thesis
      using run s by (auto simp: pg_complete_def eff_defs split: if_splits)
  qed
qed

section \<open>Invariants of the loop\<close>

text \<open>
  What the loop keeps: the laws are those of the writes, of the flags, and of the start, the decision
  and the end of a flow.
\<close>

locale exchange_invariant =
  fixes I :: "('h, 'p) pg_session \<Rightarrow> bool" and F :: "gerror \<Rightarrow> bool" and T :: "('h, 'p) pg_turn \<Rightarrow> bool" and pid :: string
  assumes client: "triple I (pg_to_client f) (\<lambda>_. I) (\<lambda>e s. (is_panic e \<longrightarrow> F e) \<and> I s)"
    and upstream: "triple I (pg_to_upstream f) (\<lambda>_. I) (\<lambda>e s. (is_panic e \<longrightarrow> F e) \<and> I s)"
    and flags: "I s \<Longrightarrow> I (s\<lparr>ps_executed := a, ps_awaiting := b\<rparr>)"
    and ready: "I s \<Longrightarrow> I (s\<lparr>ps_transaction := a, ps_awaiting := b\<rparr>)"
    and failed: "I s \<Longrightarrow> I (s\<lparr>ps_outcome := ''upstream_error''\<rparr>)"
    and begins: "T t \<Longrightarrow> I s \<Longrightarrow> I (pg_begin pid t s)"
    and complete: "T t \<Longrightarrow> triple I (pg_complete pid t body)
      (\<lambda>go s. I s \<and> (\<not> go \<longrightarrow> I (pg_finish t ''commit_ack_lost'' s))) (\<lambda>e s. F e)"
    and finished: "I s \<Longrightarrow> I (pg_finish t (ps_outcome s) s)"
    and closed: "I s \<Longrightarrow> I (pg_finish t ''connection_closed'' s)"
begin

lemma sent:
  assumes "triple I m (\<lambda>_. I) (\<lambda>e s. (is_panic e \<longrightarrow> F e) \<and> I s)"
  shows "triple I (caught m) (\<lambda>_. I) (\<lambda>e s. F e)"
  by (rule triple_caught[OF assms]) auto

lemma away: "triple I pg_turn_away (\<lambda>_. I) (\<lambda>e s. F e)"
  unfolding pg_turn_away_def by (rule triple_andThen[OF sent[OF client]]) (rule triple_return)

lemma fore: "T t \<Longrightarrow> triple I (pg_front pid t f) (\<lambda>_. I) (\<lambda>e s. F e)"
  unfolding pg_front_def
  by (intro triple_if triple_return away triple_andThen[OF triple_gets[where Q = "\<lambda>_. I"]]
      triple_andThen[OF triple_modify[where Q = "\<lambda>_. I"]] triple_andThen[OF sent[OF upstream]])
    (auto intro: begins flags)

lemma rear:
  assumes "T t"
  shows "triple I (pg_back pid t f) (\<lambda>_. I) (\<lambda>e s. F e)"
proof -
  have com: "triple I (if c then pg_complete pid t b else return True)
      (\<lambda>go s. I s \<and> (\<not> go \<longrightarrow> I (pg_finish t ''commit_ack_lost'' s))) (\<lambda>e s. F e)" for c b
    using complete[OF assms] by (auto intro: triple_return)
  have rest: "triple I (if fr_kind f = kind (CHR ''Z'') then
            (if length (fr_body f) \<noteq> 1 \<or> \<not> containsRune ''ITE'' (fr_body f ! 0) then pg_turn_away
             else andThen (modify (\<lambda>s. s\<lparr>ps_transaction := fr_body f ! 0 \<noteq> kind (CHR ''I''), ps_awaiting := False\<rparr>)) (\<lambda>_.
               andThen (caught (pg_to_client f)) (\<lambda>err.
                 if err \<noteq> None then return False
                 else andThen (modify (\<lambda>s. pg_finish t (ps_outcome s) s)) (\<lambda>_. return True))))
          else andThen (caught (pg_to_client f)) (\<lambda>err. return (err = None))) (\<lambda>_. I) (\<lambda>e s. F e)"
    by (intro triple_if triple_return away triple_andThen[OF triple_modify[where Q = "\<lambda>_. I"]]
        triple_andThen[OF sent[OF client]]) (auto intro: ready finished)
  have after: "triple (\<lambda>s. I s \<and> (\<not> go \<longrightarrow> I (pg_finish t ''commit_ack_lost'' s)))
     (if \<not> go then andThen (modify (pg_finish t ''commit_ack_lost'')) (\<lambda>_. return False) else m) (\<lambda>_. I) (\<lambda>e s. F e)"
    if "triple I m (\<lambda>_. I) (\<lambda>e s. F e)" for go m
    using that by (cases go) (auto intro!: triple_andThen[OF triple_modify[where Q = "\<lambda>_. I"]] triple_return elim: triple_conseq)
  show ?thesis
    unfolding pg_back_def
    by (intro triple_if[OF away] triple_andThen[OF triple_modify[where Q = "\<lambda>_. I"]] triple_andThen[OF com] after rest)
      (auto intro: failed)
qed

lemma turn: "T t \<Longrightarrow> triple I (pg_exchange_turn pid t) (\<lambda>_. I) (\<lambda>e s. F e)"
  unfolding pg_exchange_turn_def by (cases "pt_input t") (auto intro: triple_return fore rear)

lemma exchange: "list_all T ts \<Longrightarrow> triple I (pg_exchange pid ts) (\<lambda>_. I) (\<lambda>e s. F e)"
proof (induction ts)
  case (Cons t ts)
  then have t: "T t" and ts: "triple I (pg_exchange pid ts) (\<lambda>_. I) (\<lambda>e s. F e)" by auto
  show ?case
    unfolding pg_exchange.simps
    by (rule triple_andThen[OF turn[OF t]] triple_if ts triple_andThen[OF triple_modify[where Q = "\<lambda>_. I"]] triple_return
        | assumption | erule closed)+
qed (simp add: triple_return)

end

subsection \<open>The events\<close>

lemma traced_send:
  "triple (pg_traced es) (pg_to_client f) (\<lambda>_. pg_traced es) (\<lambda>e s. (is_panic e \<longrightarrow> True) \<and> pg_traced es s)"
  "triple (pg_traced es) (pg_to_upstream f) (\<lambda>_. pg_traced es) (\<lambda>e s. (is_panic e \<longrightarrow> True) \<and> pg_traced es s)"
  by (rule tripleI; auto simp: pg_to_client_def pg_to_upstream_def split: prod.splits sum.splits)+

interpretation traces: exchange_invariant "pg_traced es" "\<lambda>_. True" "\<lambda>_. True" pid for es pid
proof unfold_locales
  show "triple (pg_traced es) (pg_complete pid t body)
      (\<lambda>go s. pg_traced es s \<and> (\<not> go \<longrightarrow> pg_traced es (pg_finish t ''commit_ack_lost'' s))) (\<lambda>_ _. True)" for t :: "('a, 'b) pg_turn" and body
    by (rule triple_conseq[OF pg_complete_traced]) (auto simp: confirmed_def pg_finish_traced)
  show "pg_traced es (pg_finish t (ps_outcome s) s)" if "pg_traced es s" for s :: "('a, 'b) pg_session" and t
  proof (cases "ps_active s")
    case True
    with that have "ps_outcome s \<noteq> ''commit_ack_lost''" by (auto simp: pg_traced_def)
    then show ?thesis using pg_finish_traced[OF that] by simp
  qed (use that in \<open>simp add: pg_finish_def\<close>)
qed (simp_all add: traced_send[simplified] pg_traced_outcome pg_begin_traced pg_finish_traced)

lemma exchange_inactive:
  assumes "pg_exchange pid ts s = (Inr False, s')"
  shows "\<not> ps_active s'"
  using assms
  by (induction ts arbitrary: s) (auto simp: eff_defs pg_finish_def Let_def split: prod.splits sum.splits if_splits)

lemma pg_exchange_flows:
  assumes "\<not> ps_active s" "pg_exchange pid ts s = (Inr go, s')"
  shows "\<exists>flows rest. list_all flow_trace flows \<and> ps_events s' = ps_events s @ concat flows @ rest
    \<and> (if \<not> ps_active s' then rest = []
       else go \<and> (\<exists>e mid. rest = e # mid \<and> flow_so_far e mid (ps_decided s') (ps_event s')))"
proof -
  have "pg_traced (ps_events s) s" using assms(1) by (auto simp: pg_traced_def intro: exI[of _ "[]"])
  from triple_Inr[OF traces.exchange this assms(2)] have "pg_traced (ps_events s) s'" by (simp add: list_all_iff)
  moreover have "ps_active s' \<longrightarrow> go" using exchange_inactive[of pid ts s s'] assms(2) by (cases go) auto
  ultimately show ?thesis unfolding pg_traced_def by (cases "ps_active s'") auto
qed

subsection \<open>No session panics\<close>

definition pg_calm :: "string \<Rightarrow> ('h, 'p) pg_session \<Rightarrow> bool" where
  "pg_calm pid s \<longleftrightarrow> writer_ok (cn_writer (ps_client s)) \<and> writer_ok (cn_writer (ps_upstream s))
     \<and> commit_service pid (ps_service s)
     \<and> (ps_active s \<longrightarrow> (\<exists>snap. ps_snap s = Some snap \<and> sv_heap (ps_service s) (sn_revision snap) \<noteq> None))"

definition pg_turn_ok :: "(bytes \<Rightarrow> bytes) \<Rightarrow> string \<Rightarrow> ('h, 'p) pg_turn \<Rightarrow> bool" where
  "pg_turn_ok sha256 pid t \<longleftrightarrow> commit_env sha256 pid (pt_others t)"

lemma send_frame_no_panic:
  assumes "writer_ok (cn_writer c)" "send_frame f c = (r, c')"
  shows "writer_ok (cn_writer c') \<and> (\<forall>e. r = Inl e \<longrightarrow> \<not> is_panic e)"
  using assms writeAll_no_panic[OF assms(1), of "cn_calls c" "pg_frame_bytes f"]
  by (auto simp: send_frame_def send_bytes_def pg_writeFrame_def send_with_def split: prod.splits if_splits option.splits)

lemma calm_send:
  "triple (pg_calm pid) (pg_to_client f) (\<lambda>_. pg_calm pid) (\<lambda>e s. \<not> is_panic e \<and> pg_calm pid s)"
  "triple (pg_calm pid) (pg_to_upstream f) (\<lambda>_. pg_calm pid) (\<lambda>e s. \<not> is_panic e \<and> pg_calm pid s)"
  by (rule tripleI; auto simp: pg_to_client_def pg_to_upstream_def pg_calm_def dest: send_frame_no_panic split: prod.splits sum.splits)+

lemma pg_calm_upd [simp]:
  "pg_calm pid (s\<lparr>ps_awaiting := b\<rparr>) = pg_calm pid s" "pg_calm pid (s\<lparr>ps_executed := b\<rparr>) = pg_calm pid s"
  "pg_calm pid (s\<lparr>ps_transaction := b\<rparr>) = pg_calm pid s" "pg_calm pid (s\<lparr>ps_outcome := x\<rparr>) = pg_calm pid s"
  "pg_calm pid (s\<lparr>ps_decided := b\<rparr>) = pg_calm pid s"
  "pg_calm pid s \<Longrightarrow> pg_calm pid (pg_finish t x s)"
  by (simp_all add: pg_calm_def pg_finish_def Let_def)

lemma pg_begin_calm:
  assumes "commit_env sha256 pid (pt_others t)" "pg_calm pid s"
  shows "pg_calm pid (pg_begin pid t s)"
  using assms commits.env_keeps(1)[OF assms(1)] kind_service_active
  by (fastforce simp: pg_begin_def pg_calm_def Let_def)

lemma pg_apply_commit: "\<exists>b. pg_apply ctx_done (commit_fault a) = Inr b"
  by (cases a) (auto simp: pg_apply_def zero_fault_def)

lemma pg_decide_calm:
  assumes "commit_env sha256 pid (pt_others t)" "pg_calm pid s" "ps_active s" "pg_decide pid t s = (r, s')"
  shows "\<exists>go. r = Inr go \<and> pg_calm pid s'"
proof -
  let ?sv = "pt_others t (ps_service s)"
  obtain snap where snap: "ps_snap s = Some snap" "sv_heap (ps_service s) (sn_revision snap) \<noteq> None"
    using assms(2,3) by (auto simp: pg_calm_def)
  have sv: "commit_service pid ?sv" "sv_heap ?sv (sn_revision snap) \<noteq> None"
    using commits.env_keeps[OF assms(1), of "ps_service s"] assms(2) snap(2) by (auto simp: pg_calm_def)
  obtain sv' d x where D: "snapshot_Decide snap pid no_metadata ?sv = Inr (sv', d, x)" "commit_service pid sv'"
    "dom (sv_heap ?sv) \<subseteq> dom (sv_heap sv')" "de_Selected d \<longrightarrow> (\<exists>a. de_Fault d = commit_fault a)"
    by (rule commits.snapshot_Decide_kind[OF sv, of pid no_metadata]) (auto simp: commit_kind_def)
  have "pg_calm pid (s\<lparr>ps_service := sv', ps_event := e, ps_events := es\<rparr>)" for e es
    using assms(2,3) D(2,3) sv(2) snap(1) by (auto simp: pg_calm_def)
  moreover have "\<exists>b. pg_apply (pt_done t) (de_Fault d) = Inr b" if "de_Selected d"
    using D(4) that pg_apply_commit by metis
  ultimately show ?thesis
    using assms(4) D(1) snap(1) by (auto simp: pg_decide_def Let_def split: if_splits)
qed

lemma pg_complete_calm:
  assumes "commit_env sha256 pid (pt_others t)"
  shows "triple (pg_calm pid) (pg_complete pid t body) (\<lambda>_. pg_calm pid) (\<lambda>_ _. False)"
proof (rule tripleI)
  fix s :: "('a, 'b) pg_session" and r s' assume s: "pg_calm pid s" and run: "pg_complete pid t body s = (r, s')"
  show "case r of Inr _ \<Rightarrow> pg_calm pid s' | Inl e \<Rightarrow> False"
  proof (cases "body = pg_tag ''COMMIT'' \<and> ps_transaction s \<and> ps_active s \<and> \<not> ps_decided s")
    case True
    then have "pg_decide pid t (s\<lparr>ps_transaction := False, ps_decided := True\<rparr>) = (r, s')"
      using run by (simp add: pg_complete_def eff_defs pg_tag_def)
    with pg_decide_calm[OF assms, of "s\<lparr>ps_transaction := False, ps_decided := True\<rparr>"] s True show ?thesis by auto
  next
    case False
    then show ?thesis using run s by (auto simp: pg_complete_def eff_defs split: if_splits)
  qed
qed

interpretation composure: exchange_invariant "pg_calm pid" "\<lambda>_. False" "pg_turn_ok sha256 pid" pid for sha256 pid
proof unfold_locales
  show "triple (pg_calm pid) (pg_complete pid t body)
      (\<lambda>go s. pg_calm pid s \<and> (\<not> go \<longrightarrow> pg_calm pid (pg_finish t ''commit_ack_lost'' s))) (\<lambda>_ _. False)"
    if "pg_turn_ok sha256 pid t" for t :: "('a, 'b) pg_turn" and body
    by (rule triple_conseq[OF pg_complete_calm]) (use that in \<open>auto simp: pg_turn_ok_def\<close>)
qed (auto simp: calm_send pg_turn_ok_def intro: pg_begin_calm)

lemma pg_exchange_returns:
  assumes "writer_ok (cn_writer (ps_client s))" "writer_ok (cn_writer (ps_upstream s))"
    "commit_service pid (ps_service s)" "\<not> ps_active s" "list_all (pg_turn_ok sha256 pid) ts"
  shows "\<exists>go s'. pg_exchange pid ts s = (Inr go, s')"
proof (cases "pg_exchange pid ts s")
  case (Pair r s')
  have "pg_calm pid s" using assms by (simp add: pg_calm_def)
  from triple_Inl[OF composure.exchange[OF assms(5)] this] Pair show ?thesis by (cases r) auto
qed

section \<open>Authentication\<close>

text \<open>
  What one frame of the upstream leads to when authentication goes on: the frame sent to the client,
  and the answers of the client sent to the upstream.
\<close>

definition answers :: "u32 \<Rightarrow> frame list \<Rightarrow> bool" where
  "answers code gs \<longleftrightarrow> (if code = 10 \<or> code = 11
     then \<exists>g. gs = [g] \<and> fr_kind g = kind (CHR ''p'') \<and> (code = 10 \<longrightarrow> scram_response_ok (fr_body g)) else gs = [])"

definition linked :: "pg_link \<Rightarrow> frame list \<Rightarrow> frame list \<Rightarrow> pg_link \<Rightarrow> bool" where
  "linked s fs gs s' \<longleftrightarrow> cn_sent (pl_client s') = cn_sent (pl_client s) @ frames_bytes fs
     \<and> cn_sent (pl_upstream s') = cn_sent (pl_upstream s) @ frames_bytes gs"

lemma linked_refl [simp]: "linked s [] [] s"
  by (simp add: linked_def)

lemma linked_trans: "linked s fs gs s1 \<Longrightarrow> linked s1 fs' gs' s' \<Longrightarrow> linked s (fs @ fs') (gs @ gs') s'"
  by (simp add: linked_def frames_bytes_def)

lemma at_client_send:
  assumes "at_client (send_frame f) s = (Inr x, s')"
  shows "linked s [f] [] s' \<and> pl_cleanup s' = pl_cleanup s \<and> pl_cancels s' = pl_cancels s"
proof -
  obtain c' where c: "send_frame f (pl_client s) = (Inr (), c')" "s' = s\<lparr>pl_client := c'\<rparr>"
    using assms by (auto simp: at_client_def split: prod.splits)
  show ?thesis by (rule send_frame_result[OF c(1)]) (simp add: c(2) linked_def)
qed

lemma at_upstream_send:
  assumes "at_upstream (send_frame f) s = (Inr x, s')"
  shows "linked s [] [f] s' \<and> pl_cleanup s' = pl_cleanup s \<and> pl_cancels s' = pl_cancels s"
proof -
  obtain c' where c: "send_frame f (pl_upstream s) = (Inr (), c')" "s' = s\<lparr>pl_upstream := c'\<rparr>"
    using assms by (auto simp: at_upstream_def split: prod.splits)
  show ?thesis by (rule send_frame_result[OF c(1)]) (simp add: c(2) linked_def)
qed

lemma recv_linked:
  "at_client (recv_with rd) s = (r, s') \<Longrightarrow> linked s [] [] s' \<and> pl_cleanup s' = pl_cleanup s \<and> pl_cancels s' = pl_cancels s"
  "at_upstream (recv_with rd) s = (r, s') \<Longrightarrow> linked s [] [] s' \<and> pl_cleanup s' = pl_cleanup s \<and> pl_cancels s' = pl_cancels s"
  by (auto simp: at_client_def at_upstream_def recv_with_def linked_def split: prod.splits sum.splits)

lemma andThen_Inr:
  "andThen m k s = (Inr b, s') \<longleftrightarrow> (\<exists>a s1. m s = (Inr a, s1) \<and> k a s1 = (Inr b, s'))"
  by (auto simp: andThen_def split: prod.splits sum.splits)

lemma caught_None: "caught m s = (Inr None, s') \<longleftrightarrow> m s = (Inr (), s')"
  by (auto simp: caught_def split: prod.splits sum.splits gerror.splits)

lemma return_Inr: "return a s = (Inr b, s') \<longleftrightarrow> a = b \<and> s = s'"
  by (simp add: return_def)

lemma fail_Inr: "fail e s \<noteq> (Inr b, s')"
  by (simp add: fail_def)

lemma refuse_Inr: "refuse s \<noteq> (Inr b, s')"
  by (auto simp: eff_defs refuse_def split: prod.splits sum.splits)

lemma auth_request_sent:
  assumes "auth_request stage f s = (Inr stage', s')"
  shows "4 \<le> length (fr_body f) \<and> next_stage (be32 (fr_body f)) (drop 4 (fr_body f)) stage = Some stage'
    \<and> (\<exists>gs. answers (be32 (fr_body f)) gs \<and> linked s [f] gs s') \<and> pl_cleanup s' = pl_cleanup s \<and> pl_cancels s' = pl_cancels s"
proof -
  let ?code = "be32 (fr_body f)"
  obtain n s1 where n: "4 \<le> length (fr_body f)" "next_stage ?code (drop 4 (fr_body f)) stage = Some n"
    "at_client (send_frame f) s = (Inr (), s1)"
    and rest: "(if ?code = 10 \<or> ?code = 11 then
               andThen (at_client (recv_with pg_readFrame)) (\<lambda>response.
                 if fr_kind response \<noteq> kind (CHR ''p'') then refuse
                 else if ?code = 10 \<and> \<not> scram_response_ok (fr_body response) then refuse
                 else andThen (at_upstream (send_frame response)) (\<lambda>_. return n))
             else return n) s1 = (Inr stage', s')"
    using assms unfolding auth_request_def Let_def
    by (auto simp: andThen_Inr caught_None fail_Inr refuse_Inr split: if_splits option.splits)
  note c = at_client_send[OF n(3)]
  show ?thesis
  proof (cases "?code = 10 \<or> ?code = 11")
    case True
    then obtain g s2 s3 where g: "at_client (recv_with pg_readFrame) s1 = (Inr g, s2)" "fr_kind g = kind (CHR ''p'')"
      "?code = 10 \<longrightarrow> scram_response_ok (fr_body g)" "at_upstream (send_frame g) s2 = (Inr (), s3)" "n = stage'" "s3 = s'"
      using rest by (auto simp: andThen_Inr return_Inr refuse_Inr split: if_splits)
    have "linked s ([f] @ [] @ []) ([] @ [] @ [g]) s'"
      using c recv_linked(1)[OF g(1)] at_upstream_send[OF g(4)] g(6) linked_trans by blast
    then show ?thesis
      using n g c recv_linked(1)[OF g(1)] at_upstream_send[OF g(4)] True by (auto simp: answers_def)
  next
    case False
    then show ?thesis using n c rest by (auto simp: answers_def return_Inr)
  qed
qed

text \<open>
  The frames of a successful authentication from a stage on. A key is given out at most once and is
  never the one of the backend.
\<close>

inductive auth_script :: "bytes result \<Rightarrow> nat \<Rightarrow> bool \<Rightarrow> frame list \<Rightarrow> frame list \<Rightarrow> bool" for key where
  ready: "fr_kind f = kind (CHR ''Z'') \<Longrightarrow> fr_body f = [kind (CHR ''I'')] \<Longrightarrow> auth_script key 4 given [f] []"
| challenge: "fr_kind f = kind (CHR ''R'') \<Longrightarrow> 4 \<le> length (fr_body f)
    \<Longrightarrow> next_stage (be32 (fr_body f)) (drop 4 (fr_body f)) stage = Some stage' \<Longrightarrow> answers (be32 (fr_body f)) gs
    \<Longrightarrow> auth_script key stage' given fs hs \<Longrightarrow> auth_script key stage given (f # fs) (gs @ hs)"
| secret: "fr_kind f = kind (CHR ''K'') \<Longrightarrow> key = Inr (fr_body f)
    \<Longrightarrow> auth_script key stage True fs hs \<Longrightarrow> auth_script key stage False (f # fs) hs"
| notice: "fr_kind f = kind (CHR ''S'') \<or> fr_kind f = kind (CHR ''N'')
    \<Longrightarrow> auth_script key stage given fs hs \<Longrightarrow> auth_script key stage given (f # fs) hs"

lemma pg_authenticate_script:
  assumes "pg_authenticate pid key stage s = (Inr (), s')"
  shows "\<exists>fs gs. auth_script key stage (pl_cleanup s \<noteq> None) fs gs \<and> linked s fs gs s'"
  using assms
proof (induction pid key stage s rule: pg_authenticate.induct)
  case (1 pid key stage s)
  obtain f s1 where f: "at_upstream (recv_with pg_readFrame) s = (Inr f, s1)"
    using 1(2) by (auto simp: pg_authenticate.simps[of pid key stage s] split: prod.splits sum.splits)
  obtain nxt s2 where n: "auth_frame pid key stage f s1 = (Inr nxt, s2)"
    using 1(2) f by (auto simp: pg_authenticate.simps[of pid key stage s] split: prod.splits sum.splits)
  note rd = recv_linked(2)[OF f]
  have IH: "\<exists>fs gs. auth_script key stage' (pl_cleanup s2 \<noteq> None) fs gs \<and> linked s2 fs gs s'" if "nxt = Some stage'" for stage'
    using 1(1)[OF f[symmetric] refl n[symmetric] refl that] 1(2) f n that
    by (simp add: pg_authenticate.simps[of pid key stage s])
  have done1: "s' = s2" if "nxt = None"
    using 1(2) f n that by (simp add: pg_authenticate.simps[of pid key stage s])
  have step: "\<exists>fs gs. auth_script key stage (pl_cleanup s \<noteq> None) fs gs \<and> linked s fs gs s'"
    if nx: "nxt = Some stage'" and l: "linked s1 [f'] gs s2"
      and scr: "\<And>fs hs. auth_script key stage' (pl_cleanup s2 \<noteq> None) fs hs \<Longrightarrow> auth_script key stage (pl_cleanup s \<noteq> None) (f' # fs) (gs @ hs)"
    for stage' f' gs
  proof -
    obtain fs hs where h: "auth_script key stage' (pl_cleanup s2 \<noteq> None) fs hs" "linked s2 fs hs s'" using IH[OF nx] by blast
    have "linked s ([] @ [f'] @ fs) ([] @ gs @ hs) s'" using linked_trans rd l h(2) by blast
    then show ?thesis using scr[OF h(1)] by auto
  qed
  consider "fr_kind f = kind (CHR ''R'')" | "fr_kind f = kind (CHR ''K'')" | "fr_kind f = kind (CHR ''Z'')"
    | "fr_kind f = kind (CHR ''S'') \<or> fr_kind f = kind (CHR ''N'')"
    using n by (auto simp: auth_frame_def andThen_Inr fail_Inr refuse_Inr split: if_splits)
  then show ?case
  proof cases
    case R: 1
    then obtain stage' where a: "auth_request stage f s1 = (Inr stage', s2)" "nxt = Some stage'"
      using n by (auto simp: auth_frame_def andThen_Inr return_Inr)
    from auth_request_sent[OF a(1)] obtain gs where g: "4 \<le> length (fr_body f)" "linked s1 [f] gs s2" "answers (be32 (fr_body f)) gs"
      "next_stage (be32 (fr_body f)) (drop 4 (fr_body f)) stage = Some stage'" "pl_cleanup s2 = pl_cleanup s1" by blast
    show ?thesis by (rule step[OF a(2) g(2)]) (use g R rd in \<open>auto intro: auth_script.challenge\<close>)
  next
    case K: 2
    then obtain k where k: "key = Inr k" "pl_cleanup s1 = None" "nxt = Some stage"
      "at_client (send_frame (f\<lparr>fr_body := k\<rparr>)) (s1\<lparr>pl_cancels := register (pid @ bytes_string k) (fr_body f) (pl_cancels s1),
         pl_cleanup := Some (pid @ bytes_string k)\<rparr>) = (Inr (), s2)"
      using n by (auto simp: auth_frame_def eff_defs kind_def Let_def split: prod.splits sum.splits if_splits)
    have l: "linked s1 [f\<lparr>fr_body := k\<rparr>] [] s2" "pl_cleanup s2 \<noteq> None" using at_client_send[OF k(4)] by (auto simp: linked_def)
    show ?thesis by (rule step[OF k(3) l(1)]) (use k K l(2) rd in \<open>auto intro: auth_script.secret\<close>)
  next
    case Z: 3
    then have z: "stage = 4" "length (fr_body f) = 1" "fr_body f ! 0 = kind (CHR ''I'')" "nxt = None" "at_client (send_frame f) s1 = (Inr (), s2)"
      using n by (auto simp: auth_frame_def eff_defs kind_def split: prod.splits sum.splits if_splits)
    then have "fr_body f = [kind (CHR ''I'')]" by (cases "fr_body f") auto
    moreover have "linked s ([] @ [f]) ([] @ []) s'" using linked_trans rd at_client_send[OF z(5)] done1[OF z(4)] by blast
    ultimately show ?thesis using Z z(1) auth_script.ready by fastforce
  next
    case SN: 4
    then have z: "nxt = Some stage" "at_client (send_frame f) s1 = (Inr (), s2)"
      using n by (auto simp: auth_frame_def eff_defs kind_def split: prod.splits sum.splits if_splits)
    have "linked s1 [f] [] s2" using at_client_send[OF z(2)] by blast
    then show ?thesis by (rule step[OF z(1)]) (use SN rd at_client_send[OF z(2)] in \<open>auto intro: auth_script.notice\<close>)
  qed
qed

lemma auth_script_codes:
  assumes "auth_script key stage given fs gs" "stage \<le> 4"
  shows "map (be32 \<circ> fr_body) (filter (\<lambda>f. fr_kind f = kind (CHR ''R'')) fs) = drop stage [10, 11, 12, 0]
    \<and> list_all (\<lambda>f. fr_kind f = kind (CHR ''K'') \<longrightarrow> key = Inr (fr_body f)) fs
    \<and> length (filter (\<lambda>f. fr_kind f = kind (CHR ''K'')) fs) \<le> (if given then 0 else 1)
    \<and> length gs = 2 - stage \<and> list_all (\<lambda>g. fr_kind g = kind (CHR ''p'')) gs
    \<and> (stage = 0 \<longrightarrow> scram_response_ok (fr_body (hd gs)))
    \<and> fs \<noteq> [] \<and> fr_kind (last fs) = kind (CHR ''Z'')"
  using assms
proof (induction rule: auth_script.induct)
  case (challenge f stage stage' gs given fs hs)
  consider "stage = 0" "stage' = 1" "be32 (fr_body f) = 10" | "stage = 1" "stage' = 2" "be32 (fr_body f) = 11"
    | "stage = 2" "stage' = 3" "be32 (fr_body f) = 12" | "stage = 3" "stage' = 4" "be32 (fr_body f) = 0"
    using challenge(3) by (auto simp: next_stage_def split: if_splits)
  then show ?case
    using challenge.IH challenge(1,4) by cases (auto simp: kind_def answers_def)
qed (auto simp: kind_def split: if_splits)

end
