(* ===== verification/Pg_Serve_Correct.thy ===== *)
theory Pg_Serve_Correct
  imports Pg_Session_Correct
begin

text \<open>
  The start of a PostgreSQL connection: what is sent before TLS, what an opened session has gone
  through, and which sessions a cancellation can reach.
\<close>

section \<open>TLS\<close>

definition untold :: "conn \<Rightarrow> bool" where
  "untold c \<longleftrightarrow> \<not> cn_tls c \<and> cn_sent c = [] \<and> cn_clear c = []"

definition ssl_packet :: bytes where
  "ssl_packet = pg_packet_bytes (put_be32 sslRequest)"

definition tls_kept :: "bool \<Rightarrow> bool \<Rightarrow> bytes \<Rightarrow> pg_link \<Rightarrow> bool" where
  "tls_kept c u cl s \<longleftrightarrow> cn_tls (pl_client s) = c \<and> cn_tls (pl_upstream s) = u \<and> cn_clear (pl_upstream s) = cl"

lemma send_keeps [simp]:
  "send_frame f c = (r, c') \<Longrightarrow> cn_tls c' = cn_tls c \<and> cn_clear c' = cn_clear c"
  "send_bytes b c = (r, c') \<Longrightarrow> cn_tls c' = cn_tls c \<and> cn_clear c' = cn_clear c"
  "send_packet b c = (r, c') \<Longrightarrow> cn_tls c' = cn_tls c \<and> cn_clear c' = cn_clear c"
  "recv_with rd c = (r', c') \<Longrightarrow> cn_tls c' = cn_tls c \<and> cn_clear c' = cn_clear c \<and> cn_sent c' = cn_sent c"
  by (auto simp: send_frame_def send_bytes_def send_packet_def recv_with_def send_with_def split: prod.splits sum.splits)

interpretation crypt: auth_invariant "tls_kept c u cl" for c u cl
  by unfold_locales
    ((rule tripleI)?; auto simp: at_client_def at_upstream_def tls_kept_def split: prod.splits sum.splits dest: send_keeps)+

lemma pg_authenticate_tls:
  assumes "pg_authenticate pid key stage s = (r, s')" "tls_kept c u cl s"
  shows "tls_kept c u cl s'"
  using assms
proof (induction pid key stage s rule: pg_authenticate.induct)
  case (1 pid key stage s)
  obtain x s1 where x: "at_upstream (recv_with pg_readFrame) s = (x, s1)" by fastforce
  then have s1: "tls_kept c u cl s1"
    using 1(3) by (auto simp: at_upstream_def tls_kept_def split: prod.splits dest: send_keeps)
  show ?case
  proof (cases x)
    case (Inl e)
    then show ?thesis using 1(2) x s1 by (simp add: pg_authenticate.simps[of pid key stage s])
  next
    case (Inr f)
    obtain y s2 where y: "auth_frame pid key stage f s1 = (y, s2)" by fastforce
    have s2: "tls_kept c u cl s2"
      using triple_Inr[OF crypt.frame s1] triple_Inl[OF crypt.frame s1] y by (cases y) auto
    show ?thesis
    proof (cases "\<exists>stage'. y = Inr (Some stage')")
      case True
      then obtain stage' where "y = Inr (Some stage')" by blast
      then show ?thesis
        using 1(1)[OF x[symmetric] Inr y[symmetric]] 1(2) x Inr y s2
        by (simp add: pg_authenticate.simps[of pid key stage s])
    next
      case False
      then show ?thesis
        using 1(2) x Inr y s2
        by (auto simp: pg_authenticate.simps[of pid key stage s] split: sum.splits option.splits)
    qed
  qed
qed

lemma send_packet_result:
  assumes "send_packet b c = (r, c')"
  obtains sent rest where "cn_sent c' = cn_sent c @ sent" "pg_packet_bytes b = sent @ rest" "r = Inr () \<longrightarrow> rest = []"
    "cn_in c' = cn_in c"
proof -
  obtain sent j err where w: "writeAll (cn_writer c) (cn_calls c) (pg_packet_bytes b) = (sent, j, err)"
    by (cases "writeAll (cn_writer c) (cn_calls c) (pg_packet_bytes b)") auto
  obtain rest where "pg_packet_bytes b = sent @ rest" "err = None \<longrightarrow> rest = []" using writeAll_prefix[OF w] by blast
  then show thesis
    using assms w by (intro that[of sent rest])
      (auto simp: send_packet_def send_with_def pg_writePacket_def split: option.splits)
qed

text \<open>With TLS, all the upstream gets in clear text is the request for it.\<close>

definition only_asked :: "conn \<Rightarrow> bool" where
  "only_asked c \<longleftrightarrow> (\<exists>rest. ssl_packet = in_clear c @ rest)"

lemma untold_asked: "untold c \<Longrightarrow> only_asked c"
  by (simp add: untold_def only_asked_def in_clear_def)

lemma connectUpstream_secure:
  assumes "untold c"
  shows "triple (\<lambda>x. x = c) (connectUpstream True h) (\<lambda>_ c'. cn_tls c' \<and> cn_sent c' = [] \<and> only_asked c') (\<lambda>_. only_asked)"
proof -
  define asked where "asked c' \<longleftrightarrow> \<not> cn_tls c' \<and> cn_sent c' = ssl_packet \<and> cn_clear c' = []" for c' :: conn
  have ask: "triple (\<lambda>x. x = c) (send_packet (put_be32 sslRequest)) (\<lambda>_. asked) (\<lambda>_. only_asked)"
  proof (rule tripleI)
    fix s r s' assume s: "s = c" and run: "send_packet (put_be32 sslRequest) s = (r, s')"
    obtain sent rest where "cn_sent s' = cn_sent s @ sent" "ssl_packet = sent @ rest" "r = Inr () \<longrightarrow> rest = []"
      using send_packet_result[OF run] unfolding ssl_packet_def by metis
    then show "case r of Inr _ \<Rightarrow> asked s' | Inl _ \<Rightarrow> only_asked s'"
      using s assms send_keeps(3)[OF run] by (cases r) (auto simp: asked_def only_asked_def untold_def in_clear_def)
  qed
  have weaker: "only_asked c'" if "asked c'" for c' using that by (simp add: asked_def only_asked_def in_clear_def)
  have same: "asked (c'\<lparr>cn_in := r\<rparr>) = asked c'" for c' r by (simp add: asked_def)
  have rd: "triple asked (recv_with (readFull 1)) (\<lambda>_. asked) (\<lambda>_. only_asked)"
    by (rule tripleI) (auto simp: recv_with_def same intro: weaker split: sum.splits)
  have shake: "triple asked (shake h) (\<lambda>_ c'. cn_tls c' \<and> cn_sent c' = [] \<and> only_asked c') (\<lambda>_. only_asked)"
    by (rule tripleI) (auto simp: shake_def start_tls_def intro: weaker split: sum.splits,
        simp add: asked_def only_asked_def in_clear_def)
  have tls: "triple (\<lambda>x. x = c) (andThen (send_packet (put_be32 sslRequest)) (\<lambda>_.
          andThen (recv_with (readFull 1)) (\<lambda>answer.
            if answer ! 0 \<noteq> kind (CHR ''S'') then fail ErrProtocol else shake h)))
      (\<lambda>_ c'. cn_tls c' \<and> cn_sent c' = [] \<and> only_asked c') (\<lambda>_. only_asked)"
    by (intro triple_andThen[OF ask] triple_andThen[OF rd] triple_if shake)
      (rule triple_fail, erule weaker)
  show ?thesis
    unfolding connectUpstream_def if_not_P[OF not_not[THEN iffD2, OF TrueI]]
    by (rule triple_andThen[OF triple_caught[OF tls,
          where Q' = "\<lambda>err c'. if err = None then cn_tls c' \<and> cn_sent c' = [] \<and> only_asked c' else only_asked c'"]])
      (auto intro: triple_return triple_fail)
qed

lemma pg_hello_startup:
  assumes "pg_hello pid secure h slot c = (Inr (Startup b), c')"
  shows "slot \<and> validStartup b \<and> (secure \<longrightarrow> cn_tls c')"
  using assms unfolding pg_hello_def
  by (auto simp: andThen_Inr return_Inr gets_def pg_reject_def split: if_splits)

section \<open>A connection\<close>

lemma pg_serve_hello:
  assumes "pg_serve pid secure h slot dialled upSecure uh key s = (r, s')"
  obtains (failed) e where "r = Inl e" "pl_upstream s' = pl_upstream s" "pl_cancels s' = pl_cancels s"
  | (cancelled) k c1 where "r = Inr (Cancelled (cancelSession k (pl_cancels s)))" "pl_upstream s' = pl_upstream s"
      "pl_cancels s' = pl_cancels s" "pg_hello pid secure h slot (pl_client s) = (Inr (CancelKey k), c1)"
  | (gone) "r = Inr Gone" "pl_upstream s' = pl_upstream s" "pl_cancels s' = pl_cancels s"
  | (startup) b c1 c u where "pg_hello pid secure h slot (pl_client s) = (Inr (Startup b), c1)" "dialled = Inr c"
      "u = s\<lparr>pl_client := c1, pl_upstream := c\<rparr>"
      "andThen (at_upstream (connectUpstream upSecure uh)) (\<lambda>_. andThen (at_upstream (send_packet b)) (\<lambda>_.
         andThen (pg_authenticate pid key 0) (\<lambda>_. return Opened))) u = (r, s')"
proof (cases "pg_hello pid secure h slot (pl_client s)")
  case (Pair x c1)
  show thesis
  proof (cases x)
    case (Inl e)
    then show thesis using assms Pair by (intro failed[of e]) (auto simp: pg_serve_def eff_defs at_client_def)
  next
    case (Inr hl)
    show thesis
    proof (cases hl)
      case (CancelKey k)
      then show thesis
        using assms Pair Inr by (intro cancelled[of k c1]) (auto simp: pg_serve_def eff_defs at_client_def)
    next
      case Turned_away
      then show thesis using assms Pair Inr by (intro gone) (auto simp: pg_serve_def eff_defs at_client_def)
    next
      case (Startup b)
      show thesis
      proof (cases dialled)
        case (Inl e)
        then show thesis
          using assms Pair Inr Startup \<open>x = Inr hl\<close> by (intro failed[of e]) (auto simp: pg_serve_def eff_defs at_client_def)
      next
        case d: (Inr c)
        have "andThen (modify f) k u = k () (f u)" for f :: "pg_link \<Rightarrow> pg_link" and k :: "unit \<Rightarrow> (pg_link, served) eff" and u
          by (simp add: andThen_def modify_def)
        then show thesis
          using assms Pair Startup \<open>x = Inr hl\<close> d
          by (intro startup[of b c1 c]) (auto simp: pg_serve_def at_client_def andThen_def[of "at_client _"])
      qed
    qed
  qed
qed

lemma pg_serve_secure:
  assumes "pg_serve pid secure h slot (Inr c) True uh key s = (r, s')" "untold c" "only_asked (pl_upstream s)"
  shows "only_asked (pl_upstream s') \<and> (r = Inr Opened \<longrightarrow> cn_tls (pl_upstream s') \<and> (secure \<longrightarrow> cn_tls (pl_client s')))"
  using assms(1)
proof (cases rule: pg_serve_hello)
  case (startup b c1 c2 u)
  have c: "secure \<longrightarrow> cn_tls c1" using pg_hello_startup[OF startup(1)] by simp
  have u: "pl_client u = c1" "pl_upstream u = c" using startup(2,3) by auto
  obtain r1 c3 where con: "connectUpstream True uh c = (r1, c3)" by fastforce
  note tr = connectUpstream_secure[OF assms(2), of uh]
  have asked: "only_asked c3" using triple_Inr[OF tr refl] triple_Inl[OF tr refl] con by (cases r1) auto
  show ?thesis
  proof (cases r1)
    case (Inl e)
    then show ?thesis using startup(4) con u asked by (auto simp: andThen_def at_upstream_def)
  next
    case (Inr x)
    then have tls: "cn_tls c3" using triple_Inr[OF tr refl] con by simp
    obtain r2 c4 where sp: "send_packet b c3 = (r2, c4)" by fastforce
    let ?u = "u\<lparr>pl_upstream := c4\<rparr>"
    have k: "tls_kept (cn_tls c1) True (cn_clear c3) ?u" using send_keeps(3)[OF sp] u tls by (simp add: tls_kept_def)
    have "tls_kept (cn_tls c1) True (cn_clear c3) s' "
    proof (cases r2)
      case (Inl e)
      then show ?thesis using startup(4) con u \<open>r1 = Inr x\<close> sp k by (auto simp: andThen_def at_upstream_def)
    next
      case i2: (Inr y)
      obtain r3 s3 where au: "pg_authenticate pid key 0 ?u = (r3, s3)" by fastforce
      have "s' = s3" using startup(4) con u Inr sp i2 au by (auto simp: andThen_def at_upstream_def return_def split: sum.splits)
      then show ?thesis using pg_authenticate_tls[OF au k] by simp
    qed
    then show ?thesis using c asked tls by (auto simp: tls_kept_def only_asked_def in_clear_def)
  qed
qed (use assms in auto)

lemma pg_serve_opened:
  assumes "pg_serve pid secure h slot (Inr c) upSecure uh key s = (Inr Opened, s')" "untold c" "pl_cleanup s = None"
  obtains b fs gs before where "slot" "validStartup b" "auth_script key 0 False fs gs"
    "cn_sent (pl_upstream s') = pg_packet_bytes b @ frames_bytes gs"
    "cn_sent (pl_client s') = before @ frames_bytes fs"
proof -
  obtain b c1 c2 u where startup: "pg_hello pid secure h slot (pl_client s) = (Inr (Startup b), c1)" "Inr c = Inr c2"
      "u = s\<lparr>pl_client := c1, pl_upstream := c2\<rparr>"
      "andThen (at_upstream (connectUpstream upSecure uh)) (\<lambda>_. andThen (at_upstream (send_packet b)) (\<lambda>_.
         andThen (pg_authenticate pid key 0) (\<lambda>_. return Opened))) u = (Inr Opened, s')"
    by (rule pg_serve_hello[OF assms(1)]) auto
  have u: "pl_client u = c1" "pl_upstream u = c" "pl_cleanup u = None" using startup(2,3) assms(3) by auto
  obtain c3 c4 where con: "connectUpstream upSecure uh c = (Inr (), c3)" and sp: "send_packet b c3 = (Inr (), c4)"
    and au: "pg_authenticate pid key 0 (u\<lparr>pl_upstream := c4\<rparr>) = (Inr (), s')"
    using startup(4) u(2) by (auto simp: andThen_Inr at_upstream_def return_Inr split: prod.splits)
  have "cn_sent c3 = []"
  proof (cases upSecure)
    case True
    then show ?thesis using triple_Inr[OF connectUpstream_secure[OF assms(2)] refl] con by auto
  next
    case False
    then show ?thesis using con assms(2) by (simp add: connectUpstream_def return_Inr untold_def)
  qed
  with send_packet_result[OF sp] have c4: "cn_sent c4 = pg_packet_bytes b" by (metis append.right_neutral append_Nil)
  obtain fs gs where "auth_script key 0 False fs gs" "linked (u\<lparr>pl_upstream := c4\<rparr>) fs gs s'"
    using pg_authenticate_script[OF au] u(3) by auto
  then show thesis
    by (intro that[of b fs gs "cn_sent c1"]) (use pg_hello_startup[OF startup(1)] c4 u(1) in \<open>auto simp: linked_def\<close>)
qed

section \<open>Cancellation\<close>

text \<open>The registry of a list of sessions: the proxy, the key of the client, the key of the backend.\<close>

definition sessions :: "(string \<times> bytes \<times> bytes) list \<Rightarrow> cancels" where
  "sessions es = map_of (map (\<lambda>(p, k, b). (p @ bytes_string k, b)) es)"

lemma bytes_string_inj: "bytes_string a = bytes_string b \<longleftrightarrow> a = b"
proof -
  have "inj (\<lambda>x :: byte. char_of (unat x) :: char)"
  proof (rule injI)
    fix x y :: byte assume "(char_of (unat x) :: char) = char_of (unat y)"
    then have "unat x mod 256 = unat y mod 256" by (metis of_char_of)
    moreover have "unat x < 256" "unat y < 256" using unsigned_less[of x, where 'a = nat] unsigned_less[of y, where 'a = nat] by simp_all
    ultimately show "x = y" by (simp add: word_unat_eq_iff)
  qed
  then show ?thesis by (auto simp: bytes_string_def inj_map_eq_map)
qed

lemma cancel_key_inj:
  assumes "length k = length k'" "p @ bytes_string k = p' @ bytes_string k'"
  shows "p = p' \<and> k = k'"
proof -
  have "length (bytes_string k) = length (bytes_string k')" using assms(1) by (simp add: bytes_string_def)
  then show ?thesis using assms(2) by (simp add: append_eq_append_conv bytes_string_inj)
qed

lemma pg_hello_cancel:
  assumes "pg_hello pid secure h slot c = (Inr (CancelKey key), c')"
  shows "\<exists>k. length k = 8 \<and> key = pid @ bytes_string k"
proof -
  obtain b where "length b = 12" "key = pid @ bytes_string (drop 4 b)"
    using assms unfolding pg_hello_def by (auto simp: andThen_Inr return_Inr gets_def split: if_splits)
  then show ?thesis by (intro exI[of _ "drop 4 b"]) simp
qed

lemma pg_serve_cancels:
  assumes "pg_serve pid secure h slot dialled upSecure uh key s = (Inr (Cancelled (Some backend)), s')"
    "pl_cancels s = sessions es" "list_all (\<lambda>(p, k, b). length k = 8) es"
  shows "\<exists>k. (pid, k, backend) \<in> set es"
  using assms(1)
proof (cases rule: pg_serve_hello)
  case (cancelled key c1)
  obtain k where k: "length k = 8" "key = pid @ bytes_string k" using pg_hello_cancel[OF cancelled(4)] by blast
  have "sessions es key = Some backend" using cancelled(1) assms(2) by (simp add: cancelSession_def)
  then obtain p k' where e: "(p, k', backend) \<in> set es" "key = p @ bytes_string k'"
    unfolding sessions_def by (auto dest!: map_of_SomeD)
  have "length k = length k'" using e(1) assms(3) k(1) by (auto simp: list_all_iff)
  then show ?thesis using cancel_key_inj[of k k' pid p] k(2) e by auto
next
  case (startup b c1 c2 u)
  then show ?thesis by (auto simp: andThen_Inr return_Inr)
qed auto

end
