(* ===== verification/Pg_Properties.thy ===== *)
theory Pg_Properties
  imports Pg_Serve_Correct
begin

text \<open>
  The properties of the PostgreSQL proxy, with a sample session and a sample connection.
\<close>

section \<open>A withheld acknowledgement\<close>

lemma pg_complete_Inr:
  assumes "pg_complete pid t body s = (Inr deliver, s')"
  shows "ps_client s' = ps_client s \<and> ps_active s' = ps_active s \<and> ps_outcome s' = ps_outcome s
    \<and> (\<not> deliver \<longrightarrow> body = pg_tag ''COMMIT'' \<and> ps_transaction s \<and> ps_active s \<and> \<not> ps_decided s
        \<and> (\<exists>snap sv d x. ps_snap s = Some snap \<and> snapshot_Decide snap pid no_metadata (pt_others t (ps_service s)) = Inr (sv, d, x)
            \<and> de_Selected d \<and> pg_apply (pt_done t) (de_Fault d) = Inr False))"
  using assms unfolding pg_complete_def
  by (auto simp: andThen_Inr return_Inr gets_def modify_def pg_decide_def Let_def
      split: if_splits option.splits sum.splits prod.splits)

text \<open>A write of the session leaves everything but the connection.\<close>

lemma pg_to_client_frame:
  assumes "caught (pg_to_client f) s = (r, s')"
  shows "\<exists>c. s' = s\<lparr>ps_client := c\<rparr>"
proof -
  obtain x c where "send_frame f (ps_client s) = (x, c)" by fastforce
  then show ?thesis using assms by (cases x) (auto simp: caught_def pg_to_client_def split: gerror.splits)
qed

lemma pg_to_upstream_frame:
  assumes "caught (pg_to_upstream f) s = (r, s')"
  shows "\<exists>c. s' = s\<lparr>ps_upstream := c\<rparr>"
proof -
  obtain x c where "send_frame f (ps_upstream s) = (x, c)" by fastforce
  then show ?thesis using assms by (cases x) (auto simp: caught_def pg_to_upstream_def split: gerror.splits)
qed

lemma pg_front_active:
  assumes "pg_front pid t f s = (Inr go, s')" "ps_active s"
  shows "ps_active s'"
  using assms unfolding pg_front_def pg_turn_away_def
  by (auto simp: andThen_Inr return_Inr gets_def modify_def pg_begin_def split: if_splits
      dest!: pg_to_client_frame pg_to_upstream_frame)

lemma pg_back_lost:
  assumes "pg_back pid t f s = (Inr go, s')" "ps_active s" "\<not> ps_active s'" "ps_outcome s \<noteq> ''commit_ack_lost''"
    "ev_Outcome (last (ps_events s')) = ''commit_ack_lost''"
  shows "\<not> go \<and> ps_client s' = ps_client s \<and> fr_kind f = kind (CHR ''C'')
    \<and> (\<exists>s1. pg_complete pid t (fr_body f) s = (Inr False, s1))"
proof -
  define s0 where "s0 = (if fr_kind f = kind (CHR ''E'') then s\<lparr>ps_outcome := ''upstream_error''\<rparr> else s)"
  have s0: "ps_active s0" "ps_client s0 = ps_client s" "ps_outcome s0 \<noteq> ''commit_ack_lost''"
    using assms(2,4) by (auto simp: s0_def)
  have known: "containsRune ''123nTsDCIENSAZt'' (fr_kind f)"
  proof (rule ccontr)
    assume "\<not> ?thesis"
    then show False
      using assms(1,2,3) unfolding pg_back_def pg_turn_away_def
      by (auto simp: andThen_Inr return_Inr dest!: pg_to_client_frame)
  qed
  obtain deliver s1 where d: "(if fr_kind f = kind (CHR ''C'') then pg_complete pid t (fr_body f) else return True) s0 = (Inr deliver, s1)"
    and rest: "(if \<not> deliver then andThen (modify (pg_finish t ''commit_ack_lost'')) (\<lambda>_. return False)
          else if fr_kind f = kind (CHR ''Z'') then
            (if length (fr_body f) \<noteq> 1 \<or> \<not> containsRune ''ITE'' (fr_body f ! 0) then pg_turn_away
             else andThen (modify (\<lambda>s. s\<lparr>ps_transaction := fr_body f ! 0 \<noteq> kind (CHR ''I''), ps_awaiting := False\<rparr>)) (\<lambda>_.
               andThen (caught (pg_to_client f)) (\<lambda>err.
                 if err \<noteq> None then return False
                 else andThen (modify (\<lambda>s. pg_finish t (ps_outcome s) s)) (\<lambda>_. return True))))
          else andThen (caught (pg_to_client f)) (\<lambda>err. return (err = None))) s1 = (Inr go, s')"
    using assms(1) known unfolding pg_back_def s0_def by (auto simp: andThen_Inr modify_def)
  have s1: "ps_active s1" "ps_client s1 = ps_client s" "ps_outcome s1 \<noteq> ''commit_ack_lost''"
    using d s0 pg_complete_Inr[of pid t "fr_body f" s0 deliver s1] by (auto simp: return_Inr split: if_splits)
  have "\<not> deliver"
  proof
    assume "deliver"
    then show False
      using rest s1 assms(3,5) unfolding pg_turn_away_def
      by (auto simp: andThen_Inr return_Inr modify_def pg_finish_def Let_def split: if_splits dest!: pg_to_client_frame)
  qed
  then show ?thesis
    using d rest s1 by (auto simp: s0_def andThen_Inr return_Inr modify_def pg_finish_def Let_def kind_def split: if_splits)
qed

section \<open>A sample session\<close>

definition pg_text :: "string \<Rightarrow> bytes" where
  "pg_text x = map of_char x"

definition a_frame :: "char \<Rightarrow> bytes \<Rightarrow> frame" where
  "a_frame k b = \<lparr>fr_kind = kind k, fr_body = b\<rparr>"

definition a_turn :: "pg_input \<Rightarrow> (config \<times> digests, unit) pg_turn" where
  "a_turn i = \<lparr>pt_input = i, pt_others = (\<lambda>sv. sv), pt_flow = ''f1'', pt_started = 5, pt_finished = 6, pt_done = False\<rparr>"

text \<open>A session in an open transaction, and a commit whose acknowledgement is lost.\<close>

definition pg_demo :: "(config \<times> digests, unit) pg_session" where
  "pg_demo = \<lparr>ps_client = demo_conn, ps_upstream = demo_conn, ps_service = db_service, ps_events = [], ps_snap = None,
     ps_event = new_event (sn_info (Acquire db_service)) '''', ps_active = False, ps_awaiting = False, ps_transaction = True,
     ps_executed = False, ps_decided = False, ps_outcome = ''''\<rparr>"

definition demo_query :: frame where
  "demo_query = a_frame (CHR ''Q'') (pg_text ''COMMIT'' @ [0])"

definition demo_answer :: frame where
  "demo_answer = a_frame (CHR ''C'') (pg_tag ''COMMIT'')"

lemma send_frame_full:
  "cn_writer c = full_writer \<Longrightarrow> send_frame f c
     = (Inr (), c\<lparr>cn_calls := Suc (cn_calls c), cn_sent := cn_sent c @ pg_frame_bytes f\<rparr>)"
  by (simp add: send_frame_def send_with_def pg_writeFrame_def pg_frame_bytes_def writeAll_full)

definition pg_asked :: "(config \<times> digests, unit) pg_session" where
  "pg_asked = (pg_begin ''db'' (a_turn (Front demo_query)) pg_demo)\<lparr>ps_executed := False, ps_awaiting := True,
     ps_upstream := demo_conn\<lparr>cn_calls := 1, cn_sent := pg_frame_bytes demo_query\<rparr>\<rparr>"

lemma demo_asks: "pg_exchange_turn ''db'' (a_turn (Front demo_query)) pg_demo = (Inr True, pg_asked)"
proof -
  have k: "fr_kind demo_query = kind (CHR ''Q'')" "containsRune ''QPBDEHCS'' (kind (CHR ''Q''))"
    by (simp_all add: demo_query_def a_frame_def containsRune_def)
  have b: "ps_awaiting pg_demo = False" "ps_upstream (pg_begin ''db'' t pg_demo) = demo_conn"
    "ps_executed (pg_begin ''db'' t pg_demo) = False" for t
    by (simp_all add: pg_demo_def pg_begin_def Let_def)
  show ?thesis
    using k b unfolding pg_exchange_turn_def pg_asked_def
    by (simp add: a_turn_def pg_front_def eff_defs kind_def pg_to_upstream_def send_frame_full demo_conn_def)
qed

definition pg_lost :: "(config \<times> digests, unit) pg_session" where
  "pg_lost = snd (pg_exchange_turn ''db'' (a_turn (Back demo_answer)) pg_asked)"

lemma pg_asked_fields:
  "ps_transaction pg_asked" "ps_active pg_asked" "\<not> ps_decided pg_asked" "ps_snap pg_asked = Some (Acquire db_service)"
  "ps_service pg_asked = db_service" "ps_outcome pg_asked = ''forwarded''" "ps_client pg_asked = demo_conn"
  by (simp_all add: pg_asked_def pg_begin_def pg_demo_def a_turn_def Let_def)

lemma demo_loses:
  "pg_exchange_turn ''db'' (a_turn (Back demo_answer)) pg_asked = (Inr False, pg_lost)"
  "\<not> ps_active pg_lost" "ev_Outcome (last (ps_events pg_lost)) = ''commit_ack_lost''" "ps_events pg_lost \<noteq> []"
proof -
  have k: "fr_kind demo_answer = kind (CHR ''C'')" "fr_body demo_answer = pg_tag ''COMMIT''" "containsRune ''123nTsDCIENSAZt'' (kind (CHR ''C''))"
    by (simp_all add: demo_answer_def a_frame_def containsRune_def)
  have "pg_apply False (commit_fault CClose) = Inr False" by (simp add: pg_apply_def)
  then have "\<exists>s. pg_exchange_turn ''db'' (a_turn (Back demo_answer)) pg_asked = (Inr False, s) \<and> \<not> ps_active s
      \<and> ev_Outcome (last (ps_events s)) = ''commit_ack_lost'' \<and> ps_events s \<noteq> []"
    using k pg_asked_fields db_decides
    by (simp add: pg_exchange_turn_def a_turn_def pg_back_def pg_complete_def pg_decide_def eff_defs kind_def pg_tag_def
        Let_def db_decision_def pg_finish_def del: commit_fault.simps)
  then show "pg_exchange_turn ''db'' (a_turn (Back demo_answer)) pg_asked = (Inr False, pg_lost)"
    "\<not> ps_active pg_lost" "ev_Outcome (last (ps_events pg_lost)) = ''commit_ack_lost''" "ps_events pg_lost \<noteq> []"
    unfolding pg_lost_def by auto
qed

definition demo_turns :: "(config \<times> digests, unit) pg_turn list" where
  "demo_turns = [a_turn (Front demo_query), a_turn (Back demo_answer)]"

lemma pg_demo_run: "pg_exchange ''db'' demo_turns pg_demo = (Inr False, pg_lost)"
  using demo_asks demo_loses(1,2) by (simp add: demo_turns_def eff_defs pg_finish_def)

section \<open>The properties of the exchange\<close>

text \<open>C30. The PostgreSQL session is a transparent relay. Whatever the frames, faults and errors: there is a
  number of turns after which the client has received exactly the frames of the upstream and the
  upstream exactly those of the client, complete, unchanged and in order. A loop that goes on has
  relayed every turn; one that ended has sent at most the beginning of one more frame of the next
  turn, or of the rejection.\<close>

theorem pg_session_relays:
  assumes "pg_exchange proxyID ts s = (r, s')"
  shows "\<exists>k \<le> length ts. \<exists>cs us.
    cn_sent (ps_client s') = cn_sent (ps_client s) @ frames_bytes (backs (map pt_input (take k ts))) @ cs
    \<and> cn_sent (ps_upstream s') = cn_sent (ps_upstream s) @ frames_bytes (fronts (map pt_input (take k ts))) @ us
    \<and> (if r = Inr True then k = length ts \<and> cs = [] \<and> us = []
       else (\<exists>f rest. (f = pg_reject_frame \<or> f \<in> set (backs (map pt_input (take 1 (drop k ts))))) \<and> pg_frame_bytes f = cs @ rest)
         \<and> (us = [] \<or> (\<exists>g rest. g \<in> set (fronts (map pt_input (take 1 (drop k ts)))) \<and> pg_frame_bytes g = us @ rest)))"
  using assms by (rule pg_exchange_relay)

theorem pg_session_relays_witness:
  "\<exists>k \<le> length demo_turns. \<exists>cs us.
    cn_sent (ps_client pg_lost) = cn_sent (ps_client pg_demo) @ frames_bytes (backs (map pt_input (take k demo_turns))) @ cs
    \<and> cn_sent (ps_upstream pg_lost) = cn_sent (ps_upstream pg_demo) @ frames_bytes (fronts (map pt_input (take k demo_turns))) @ us"
  using pg_session_relays[OF pg_demo_run] by blast

text \<open>C31. The events of a PostgreSQL session are complete flows, as for MySQL, followed by the events of the
  flow that is open, if there is one; when the loop has returned none is open.\<close>

theorem pg_session_flows:
  assumes "\<not> ps_active s" "pg_exchange proxyID ts s = (Inr go, s')"
  shows "\<exists>flows rest. list_all flow_trace flows \<and> ps_events s' = ps_events s @ concat flows @ rest
    \<and> (if \<not> ps_active s' then rest = []
       else go \<and> (\<exists>e mid. rest = e # mid \<and> flow_so_far e mid (ps_decided s') (ps_event s')))"
  using assms by (rule pg_exchange_flows)

theorem pg_session_flows_witness:
  "\<exists>flows. list_all flow_trace flows \<and> ps_events pg_lost = concat flows \<and> flows \<noteq> []"
proof -
  have "\<not> ps_active pg_demo" "ps_events pg_demo = []" by (simp_all add: pg_demo_def)
  with pg_session_flows[OF _ pg_demo_run] demo_loses(2,4) show ?thesis by force
qed

text \<open>C32. A flow of a PostgreSQL session ends with a lost acknowledgement only on the tag of a commit, in a
  transaction, with no decision before it in the flow, when the decision on the snapshot of the
  flow selected a fault that ends the connection. The client has then received nothing of it, and
  the session ends.\<close>

theorem pg_ack_withheld:
  assumes "pg_exchange_turn proxyID t s = (Inr go, s')" "ps_active s" "\<not> ps_active s'"
    "ps_outcome s \<noteq> ''commit_ack_lost''" "ev_Outcome (last (ps_events s')) = ''commit_ack_lost''"
  shows "\<not> go \<and> ps_client s' = ps_client s
    \<and> (\<exists>f snap sv d x. pt_input t = Back f \<and> fr_kind f = kind (CHR ''C'') \<and> fr_body f = pg_tag ''COMMIT''
        \<and> ps_transaction s \<and> \<not> ps_decided s \<and> ps_snap s = Some snap
        \<and> snapshot_Decide snap proxyID no_metadata (pt_others t (ps_service s)) = Inr (sv, d, x)
        \<and> de_Selected d \<and> pg_apply (pt_done t) (de_Fault d) = Inr False)"
proof (cases "pt_input t")
  case CtxDone
  then show ?thesis using assms(1-3) by (simp add: pg_exchange_turn_def return_def)
next
  case (Front f)
  then show ?thesis using assms(1-3) pg_front_active[of proxyID t f s go s'] by (simp add: pg_exchange_turn_def)
next
  case (Back f)
  then have b: "pg_back proxyID t f s = (Inr go, s')" using assms(1) by (simp add: pg_exchange_turn_def)
  note lost = pg_back_lost[OF b assms(2-5)]
  then obtain s1 where "pg_complete proxyID t (fr_body f) s = (Inr False, s1)" by blast
  from pg_complete_Inr[OF this] lost Back show ?thesis by auto
qed

theorem pg_ack_withheld_witness:
  "ps_client pg_lost = ps_client pg_asked \<and> ps_transaction pg_asked \<and> \<not> ps_decided pg_asked
     \<and> (\<exists>snap. ps_snap pg_asked = Some snap)"
  using pg_ack_withheld[OF demo_loses(1) pg_asked_fields(2) demo_loses(2) _ demo_loses(3)] pg_asked_fields(6) by auto

text \<open>C33. With a validated configuration the loop of a PostgreSQL session always returns, whatever the client
  and the upstream send, whatever the connections do, and whatever happens to the control service
  in between: it never panics, because a flow always has its snapshot, the decision never fails,
  and the fault it selects has its duration.\<close>

theorem pg_session_never_panics:
  assumes "pg_calm proxyID s" "list_all (pg_turn_ok sha256 proxyID) ts"
  shows "\<exists>go s'. pg_exchange proxyID ts s = (Inr go, s')"
  using triple_Inl[OF composure.exchange[OF assms(2)] assms(1)] by (cases "pg_exchange proxyID ts s", cases "fst (pg_exchange proxyID ts s)") auto

theorem pg_session_never_panics_witness:
  "\<exists>go s'. pg_exchange ''db'' demo_turns pg_demo = (Inr go, s')"
proof (rule pg_session_never_panics)
  show "pg_calm ''db'' pg_demo" using db_service_ok by (simp add: pg_calm_def pg_demo_def demo_conn_def)
  show "list_all (pg_turn_ok demo_sha256 ''db'') demo_turns" by (simp add: demo_turns_def pg_turn_ok_def a_turn_def)
qed

section \<open>A sample connection\<close>

text \<open>Both sides use TLS; the client is authenticated, gets a key of its own, and the session is ready.\<close>

definition demo_key :: bytes where
  "demo_key = [1, 2, 3, 4, 5, 6, 7, 8]"

definition demo_startup :: bytes where
  "demo_startup = put_be32 196608 @ pg_text ''user'' @ [0] @ pg_text ''app'' @ [0, 0]"

definition demo_asks_for :: "u32 \<Rightarrow> bytes \<Rightarrow> frame" where
  "demo_asks_for code b = a_frame (CHR ''R'') (put_be32 code @ b)"

definition demo_first :: frame where
  "demo_first = a_frame (CHR ''p'') (scram @ [0] @ put_be32 5 @ pg_text ''n,,ab'')"

definition demo_second :: frame where
  "demo_second = a_frame (CHR ''p'') (pg_text ''c=biws'')"

definition demo_client :: conn where
  "demo_client = demo_conn\<lparr>cn_in := (pg_packet_bytes (put_be32 sslRequest), EOF)\<rparr>"

definition demo_client_tls :: handshake where
  "demo_client_tls = Inr ((pg_packet_bytes demo_startup @ pg_frame_bytes demo_first @ pg_frame_bytes demo_second, EOF), full_writer)"

definition demo_upstream :: conn where
  "demo_upstream = demo_conn\<lparr>cn_in := ([kind (CHR ''S'')], EOF)\<rparr>"

definition demo_upstream_tls :: handshake where
  "demo_upstream_tls = Inr ((pg_frame_bytes (demo_asks_for 10 (scram @ [0, 0])) @ pg_frame_bytes (demo_asks_for 11 (pg_text ''r=''))
     @ pg_frame_bytes (demo_asks_for 12 (pg_text ''v='')) @ pg_frame_bytes (demo_asks_for 0 [])
     @ pg_frame_bytes (a_frame (CHR ''K'') [9, 9, 9, 9, 9, 9, 9, 9])
     @ pg_frame_bytes (a_frame (CHR ''Z'') [kind (CHR ''I'')]), EOF), full_writer)"

definition demo_links :: pg_link where
  "demo_links = \<lparr>pl_client = demo_client, pl_upstream = demo_conn, pl_cancels = Map.empty, pl_cleanup = None\<rparr>"

definition demo_opened :: pg_link where
  "demo_opened = snd (pg_serve ''db'' True demo_client_tls True (Inr demo_upstream) True demo_upstream_tls (Inr demo_key) demo_links)"

lemma recv_frame_full:
  "cn_in c = (pg_frame_bytes f @ rest, e) \<Longrightarrow> frame_ok f \<Longrightarrow> recv_with pg_readFrame c = (Inr f, c\<lparr>cn_in := (rest, e)\<rparr>)"
  by (simp add: recv_with_def frames.decode_encode)

lemma recv_packet_full:
  "cn_in c = (pg_packet_bytes b @ rest, e) \<Longrightarrow> length b + 4 \<le> pg_maxStartup
     \<Longrightarrow> recv_with (pg_readPacket pg_maxStartup) c = (Inr b, c\<lparr>cn_in := (rest, e)\<rparr>)"
  by (simp add: recv_with_def startups.decode_encode)

lemma send_packet_full:
  "cn_writer c = full_writer \<Longrightarrow> send_packet b c
     = (Inr (), c\<lparr>cn_calls := Suc (cn_calls c), cn_sent := cn_sent c @ pg_packet_bytes b\<rparr>)"
  by (simp add: send_packet_def send_with_def pg_writePacket_def pg_packet_bytes_def put_be32_def writeAll_full)

lemma demo_startup_valid: "validStartup demo_startup" "length demo_startup = 14"
  by (simp_all add: validStartup_def demo_startup_def pg_text_def eval_simps nth_append put_be32_def be32_def pg_field_ok_def bytes_string_def)

text \<open>The links while both connections are encrypted and take every write.\<close>

definition links_at :: "bytes \<Rightarrow> nat \<Rightarrow> bytes \<Rightarrow> bytes \<Rightarrow> nat \<Rightarrow> bytes \<Rightarrow> cancels \<Rightarrow> string option \<Rightarrow> pg_link" where
  "links_at ci cc cs ui uc us m k =
    \<lparr>pl_client = \<lparr>cn_in = (ci, EOF), cn_writer = full_writer, cn_calls = cc, cn_sent = cs, cn_clear = [kind (CHR ''S'')], cn_tls = True\<rparr>,
     pl_upstream = \<lparr>cn_in = (ui, EOF), cn_writer = full_writer, cn_calls = uc, cn_sent = us, cn_clear = ssl_packet, cn_tls = True\<rparr>,
     pl_cancels = m, pl_cleanup = k\<rparr>"

lemma links_recv:
  "frame_ok f \<Longrightarrow> at_upstream (recv_with pg_readFrame) (links_at ci cc cs (pg_frame_bytes f @ ui) uc us m k) = (Inr f, links_at ci cc cs ui uc us m k)"
  "frame_ok f \<Longrightarrow> at_client (recv_with pg_readFrame) (links_at (pg_frame_bytes f @ ci) cc cs ui uc us m k) = (Inr f, links_at ci cc cs ui uc us m k)"
  by (simp_all add: at_upstream_def at_client_def links_at_def recv_frame_full)

lemma links_send:
  "at_client (send_frame f) (links_at ci cc cs ui uc us m k) = (Inr (), links_at ci (Suc cc) (cs @ pg_frame_bytes f) ui uc us m k)"
  "at_upstream (send_frame f) (links_at ci cc cs ui uc us m k) = (Inr (), links_at ci cc cs ui (Suc uc) (us @ pg_frame_bytes f) m k)"
  by (simp_all add: at_upstream_def at_client_def links_at_def send_frame_full)

lemma auth_challenge:
  assumes "frame_ok f" "frame_ok g" "fr_kind f = kind (CHR ''R'')" "fr_kind g = kind (CHR ''p'')" "4 \<le> length (fr_body f)"
    "next_stage (be32 (fr_body f)) (drop 4 (fr_body f)) stage = Some stage'" "be32 (fr_body f) = 10 \<and> scram_response_ok (fr_body g) \<or> be32 (fr_body f) = 11"
  shows "pg_authenticate pid key stage (links_at (pg_frame_bytes g @ ci) cc cs (pg_frame_bytes f @ ui) uc us m k)
    = pg_authenticate pid key stage' (links_at ci (Suc cc) (cs @ pg_frame_bytes f) ui (Suc uc) (us @ pg_frame_bytes g) m k)"
  by (subst pg_authenticate.simps)
    (use assms in \<open>auto simp: links_recv links_send auth_frame_def auth_request_def eff_defs Let_def\<close>)

lemma auth_told:
  assumes "frame_ok f" "fr_kind f = kind (CHR ''R'')" "4 \<le> length (fr_body f)"
    "next_stage (be32 (fr_body f)) (drop 4 (fr_body f)) stage = Some stage'" "be32 (fr_body f) \<noteq> 10" "be32 (fr_body f) \<noteq> 11"
  shows "pg_authenticate pid key stage (links_at ci cc cs (pg_frame_bytes f @ ui) uc us m k)
    = pg_authenticate pid key stage' (links_at ci (Suc cc) (cs @ pg_frame_bytes f) ui uc us m k)"
  by (subst pg_authenticate.simps)
    (use assms in \<open>simp add: links_recv links_send auth_frame_def auth_request_def eff_defs Let_def\<close>)

lemma auth_keyed:
  assumes "frame_ok f" "fr_kind f = kind (CHR ''K'')" "length (fr_body f) = 8"
  shows "pg_authenticate pid (Inr x) stage (links_at ci cc cs (pg_frame_bytes f @ ui) uc us m None)
    = pg_authenticate pid (Inr x) stage (links_at ci (Suc cc) (cs @ pg_frame_bytes (f\<lparr>fr_body := x\<rparr>)) ui uc us
        (register (pid @ bytes_string x) (fr_body f) m) (Some (pid @ bytes_string x)))"
proof -
  have "(links_at ci cc cs ui uc us m None)\<lparr>pl_cancels := a, pl_cleanup := b\<rparr> = links_at ci cc cs ui uc us a b" for a b
    by (simp add: links_at_def)
  moreover have "pl_cleanup (links_at ci cc cs ui uc us m None) = None" "pl_cancels (links_at ci cc cs ui uc us m None) = m"
    by (simp_all add: links_at_def)
  ultimately show ?thesis
    by (subst pg_authenticate.simps)
      (use assms in \<open>simp add: links_recv links_send auth_frame_def eff_defs kind_def Let_def\<close>)
qed

lemma auth_ready:
  assumes "frame_ok f" "fr_kind f = kind (CHR ''Z'')" "fr_body f = [kind (CHR ''I'')]"
  shows "pg_authenticate pid key 4 (links_at ci cc cs (pg_frame_bytes f @ ui) uc us m k)
    = (Inr (), links_at ci (Suc cc) (cs @ pg_frame_bytes f) ui uc us m k)"
  by (subst pg_authenticate.simps)
    (use assms in \<open>simp add: links_recv links_send auth_frame_def eff_defs kind_def\<close>)

lemma demo_hello: "pg_hello ''db'' True demo_client_tls True demo_client = (Inr (Startup demo_startup),
   pl_client (links_at (pg_frame_bytes demo_first @ pg_frame_bytes demo_second) 0 [] [] 0 [] Map.empty None))"
proof -
  have small: "18 \<le> pg_maxStartup" "8 \<le> pg_maxStartup" by (simp_all add: pg_maxStartup_def)
  have "length b + 4 \<le> pg_maxStartup \<Longrightarrow> pg_readPacket pg_maxStartup (pg_packet_bytes b, e) = Inr (b, [], e)" for b e
    using startups.decode_encode[of b "[]"] by simp
  moreover have "send_bytes [kind (CHR ''S'')] c = (Inr (), c\<lparr>cn_calls := Suc (cn_calls c), cn_sent := cn_sent c @ [kind (CHR ''S'')]\<rparr>)"
    if "cn_writer c = full_writer" for c :: conn
    using that by (simp add: send_bytes_def send_with_def writeAll_full)
  moreover have "length (put_be32 sslRequest) = 4" "be32 (put_be32 sslRequest) = sslRequest"
    by (simp_all add: be32_def put_be32_def sslRequest_def)
  ultimately have "pg_request True demo_client_tls demo_client = (Inr demo_startup,
      pl_client (links_at (pg_frame_bytes demo_first @ pg_frame_bytes demo_second) 0 [] [] 0 [] Map.empty None))"
    using demo_startup_valid(2) small
    by (simp add: pg_request_def pg_tls_answer_def shake_def eff_defs recv_with_def demo_client_def demo_conn_def
        demo_client_tls_def startups.decode_encode start_tls_def links_at_def)
  then show ?thesis
    using demo_startup_valid by (simp add: pg_hello_def eff_defs) (simp add: links_at_def)
qed

lemma demo_connects: "connectUpstream True demo_upstream_tls demo_upstream
    = (Inr (), pl_upstream (links_at [] 0 [] (fst (fst (projr demo_upstream_tls))) 0 [] Map.empty None))"
  by (simp add: connectUpstream_def eff_defs demo_upstream_def demo_conn_def send_packet_full recv_with_def readFull_def shake_def
      demo_upstream_tls_def start_tls_def links_at_def ssl_packet_def)

lemma demo_frames:
  "frame_ok (demo_asks_for 10 (scram @ [0, 0]))" "frame_ok (demo_asks_for 11 (pg_text ''r=''))" "frame_ok (demo_asks_for 12 (pg_text ''v=''))"
  "frame_ok (demo_asks_for 0 [])" "frame_ok demo_first" "frame_ok demo_second" "scram_response_ok (fr_body demo_first)"
  "fr_kind demo_first = kind (CHR ''p'')" "fr_kind demo_second = kind (CHR ''p'')"
  by (simp_all add: frame_ok_def demo_asks_for_def a_frame_def demo_first_def demo_second_def scram_def put_be32_def be32_def pg_text_def
      pg_maxFrame_def scram_response_ok_def cut_def eval_simps)

lemma demo_codes:
  "be32 (put_be32 10 @ x) = 10" "be32 (put_be32 11 @ x) = 11" "be32 (put_be32 12 @ x) = 12" "be32 (put_be32 0 @ x) = 0" "be32 (put_be32 0) = 0"
  "drop 4 (put_be32 c @ x) = x" "length (put_be32 c) = 4" "contains (scram @ [0, 0]) (scram @ [0])"
  by (simp_all add: be32_def put_be32_def scram_def contains_def hasPrefix_def)

lemma demo_authenticates:
  "\<exists>s. pg_authenticate ''db'' (Inr demo_key) 0 (links_at (pg_frame_bytes demo_first @ pg_frame_bytes demo_second) 0 []
     (fst (fst (projr demo_upstream_tls))) (Suc 0) us Map.empty None) = (Inr (), s)"
proof -
  define r10 r11 r12 r0 bk z where r: "r10 = demo_asks_for 10 (scram @ [0, 0])" "r11 = demo_asks_for 11 (pg_text ''r='')"
    "r12 = demo_asks_for 12 (pg_text ''v='')" "r0 = demo_asks_for 0 []" "bk = a_frame (CHR ''K'') [9, 9, 9, 9, 9, 9, 9, 9]"
    "z = a_frame (CHR ''Z'') [kind (CHR ''I'')]"
  have ok: "frame_ok r10" "frame_ok r11" "frame_ok r12" "frame_ok r0" "frame_ok bk" "frame_ok z"
    using demo_frames by (simp_all add: r a_frame_def frame_ok_def pg_maxFrame_def)
  have k: "fr_kind r10 = kind (CHR ''R'')" "fr_kind r11 = kind (CHR ''R'')" "fr_kind r12 = kind (CHR ''R'')" "fr_kind r0 = kind (CHR ''R'')"
    "fr_kind bk = kind (CHR ''K'')" "fr_kind z = kind (CHR ''Z'')" "fr_body z = [kind (CHR ''I'')]" "length (fr_body bk) = 8"
    by (simp_all add: r demo_asks_for_def a_frame_def)
  have c: "be32 (fr_body r10) = 10" "be32 (fr_body r11) = 11" "be32 (fr_body r12) = 12" "be32 (fr_body r0) = 0"
    "4 \<le> length (fr_body r10)" "4 \<le> length (fr_body r11)" "4 \<le> length (fr_body r12)" "4 \<le> length (fr_body r0)"
    by (simp_all add: r demo_codes demo_asks_for_def a_frame_def)
  have n: "next_stage 10 (drop 4 (fr_body r10)) 0 = Some 1" "next_stage 11 (drop 4 (fr_body r11)) 1 = Some 2"
    "next_stage 12 (drop 4 (fr_body r12)) 2 = Some 3" "next_stage 0 (drop 4 (fr_body r0)) 3 = Some 4"
    by (simp_all add: r demo_codes demo_asks_for_def a_frame_def next_stage_def)
  have in_tls: "fst (fst (projr demo_upstream_tls)) = pg_frame_bytes r10 @ pg_frame_bytes r11 @ pg_frame_bytes r12 @ pg_frame_bytes r0
     @ pg_frame_bytes bk @ pg_frame_bytes z @ []"
    by (simp add: demo_upstream_tls_def r)
  have last: "pg_frame_bytes demo_second = pg_frame_bytes demo_second @ []" by simp
  show ?thesis
    unfolding in_tls
    by (subst last, subst auth_challenge[where stage' = 1], (simp_all add: ok k c n demo_frames)[7],
        subst auth_challenge[where stage' = 2], (simp_all add: ok k c n[simplified] demo_frames)[7],
        subst auth_told[where stage' = 3], (simp_all add: ok k c n)[6],
        subst auth_told[where stage' = 4], (simp_all add: ok k c n)[6],
        subst auth_keyed, (simp_all add: ok k)[3], subst auth_ready, (simp_all add: ok k)[3], simp)
qed

lemma demo_serves:
  "pg_serve ''db'' True demo_client_tls True (Inr demo_upstream) True demo_upstream_tls (Inr demo_key) demo_links = (Inr Opened, demo_opened)"
proof -
  let ?c = "pl_client (links_at (pg_frame_bytes demo_first @ pg_frame_bytes demo_second) 0 [] [] 0 [] Map.empty None)"
  let ?in = "fst (fst (projr demo_upstream_tls))"
  let ?u = "pl_upstream (links_at [] 0 [] ?in 0 [] Map.empty None)"
  have sent: "send_packet demo_startup ?u = (Inr (), pl_upstream (links_at [] 0 [] ?in (Suc 0) (pg_packet_bytes demo_startup) Map.empty None))"
    by (simp add: send_packet_full links_at_def)
  have at: "\<lparr>pl_client = ?c, pl_upstream = pl_upstream (links_at [] 0 [] ?in (Suc 0) (pg_packet_bytes demo_startup) Map.empty None),
      pl_cancels = Map.empty, pl_cleanup = None\<rparr>
    = links_at (pg_frame_bytes demo_first @ pg_frame_bytes demo_second) 0 [] ?in (Suc 0) (pg_packet_bytes demo_startup) Map.empty None"
    by (simp add: links_at_def)
  have "\<exists>s. pg_serve ''db'' True demo_client_tls True (Inr demo_upstream) True demo_upstream_tls (Inr demo_key) demo_links = (Inr Opened, s)"
    using demo_authenticates[of "pg_packet_bytes demo_startup"]
    by (auto simp: pg_serve_def eff_defs at_client_def at_upstream_def demo_links_def demo_hello demo_connects sent at)
  then show ?thesis unfolding demo_opened_def by auto
qed

section \<open>The properties of a connection\<close>



text \<open>C35. With TLS to the upstream, the request for TLS is all that ever leaves for it in clear text, whatever
  the client and the upstream do, so the start-up message and the answers of the client never do; and
  an opened session has TLS to the upstream, and to the client when the listener has TLS.\<close>

theorem pg_session_confidential:
  assumes "pg_serve proxyID secure h slot (Inr c) True uh key s = (r, s')" "untold c" "untold (pl_upstream s)"
  shows "(\<exists>rest. ssl_packet = in_clear (pl_upstream s') @ rest)
    \<and> (r = Inr Opened \<longrightarrow> cn_tls (pl_upstream s') \<and> (secure \<longrightarrow> cn_tls (pl_client s')))"
  using pg_serve_secure[OF assms(1,2) untold_asked[OF assms(3)]] by (simp add: only_asked_def)

theorem pg_session_confidential_witness:
  "(\<exists>rest. ssl_packet = in_clear (pl_upstream demo_opened) @ rest) \<and> cn_tls (pl_upstream demo_opened) \<and> cn_tls (pl_client demo_opened)"
proof -
  have "untold demo_upstream" "untold (pl_upstream demo_links)"
    by (simp_all add: untold_def demo_upstream_def demo_conn_def demo_links_def)
  from pg_session_confidential[OF demo_serves this] show ?thesis by simp
qed


definition demo_canceller :: pg_link where
  "demo_canceller = demo_links\<lparr>pl_client := demo_conn\<lparr>cn_in := (pg_packet_bytes (cancel_packet demo_key), EOF)\<rparr>,
     pl_cancels := sessions [(''db'', demo_key, [9, 9, 9, 9, 9, 9, 9, 9])]\<rparr>"


end
