(* ===== verification/Store.thy ===== *)
theory Store
  imports Control_Correct
begin

text \<open>
  The managed state of \<open>src/internal/control/remote/store.go\<close>: a JSON file that is replaced
  atomically, a bounded audit list, and the flag that is set when a replacement may or may not have
  reached the disk. Encoding and decoding of JSON and of YAML are parameters. Every call of the
  operating system can fail; the results of one replacement are given by a \<open>file_results\<close>.
\<close>

section \<open>State\<close>

definition auditLimit :: nat where
  "auditLimit = 1000"

record audit =
  au_Time :: instant
  au_Actor :: string
  au_Operation :: string
  au_Revision :: u64
  au_Outcome :: string

record store_state =
  ss_Version :: int
  ss_Config :: string
  ss_Revision :: u64
  ss_LastApply :: ctl_result
  ss_Audit :: "audit list"

text \<open>The errors of the calls of one \<open>atomicFile\<close>, in the order of the calls.\<close>

record file_results =
  fs_create :: "gerror option"
  fs_write :: "gerror option"
  fs_sync :: "gerror option"
  fs_close :: "gerror option"
  fs_rename :: "gerror option"
  fs_open :: "gerror option"
  fs_syncdir :: "gerror option"

text \<open>
  \<open>st_disk\<close> is the content of \<open>state.json\<close>, if the file exists, and \<open>st_results\<close> what the file
  system will answer to the following replacements (nothing fails after the end of the list).
\<close>

record store =
  st_state :: store_state
  st_poisoned :: bool
  st_disk :: "bytes option"
  st_results :: "file_results list"

definition no_failure :: file_results where
  "no_failure = \<lparr>fs_create = None, fs_write = None, fs_sync = None, fs_close = None,
     fs_rename = None, fs_open = None, fs_syncdir = None\<rparr>"

section \<open>Replacing the file\<close>

text \<open>The result of \<open>atomicFile\<close>: whether the new content is in place, and the error.\<close>

definition atomicFile :: "file_results \<Rightarrow> bool \<times> gerror option" where
  "atomicFile fs =
     (if fs_create fs \<noteq> None then (False, fs_create fs)
      else let err1 = (if fs_write fs \<noteq> None then fs_write fs else fs_sync fs);
               err2 = (if err1 = None then fs_close fs else err1)
           in if err2 \<noteq> None then (False, err2)
              else if fs_rename fs \<noteq> None then (False, fs_rename fs)
              else if fs_open fs \<noteq> None then (True, fs_open fs)
              else (True, fs_syncdir fs))"

definition save :: "(store_state \<Rightarrow> bytes result) \<Rightarrow> store_state \<Rightarrow> store \<Rightarrow> gerror option \<times> store" where
  "save marshal next_state s =
     (if st_poisoned s then (Some (Err ''storage commit uncertain; restart required''), s)
      else case marshal next_state of
        Inl err \<Rightarrow> (Some err, s)
      | Inr data \<Rightarrow>
          let (fs, rest) = (case st_results s of [] \<Rightarrow> (no_failure, []) | x # xs \<Rightarrow> (x, xs));
              (renamed, err) = atomicFile fs;
              s1 = s\<lparr>st_results := rest, st_disk := (if renamed then Some data else st_disk s)\<rparr>
          in if err \<noteq> None
             then (Some (Err ''persist managed state''), s1\<lparr>st_poisoned := renamed\<rparr>)
             else (None, s1\<lparr>st_state := next_state\<rparr>))"

definition appendAudit ::
    "instant \<Rightarrow> store_state \<Rightarrow> string \<Rightarrow> string \<Rightarrow> string \<Rightarrow> u64 \<Rightarrow> store_state" where
  "appendAudit now st actor op outcome revision =
     (let entries = ss_Audit st @ [\<lparr>au_Time = now, au_Actor = actor, au_Operation = op,
                                   au_Revision = revision, au_Outcome = outcome\<rparr>]
      in st\<lparr>ss_Audit := (if auditLimit < length entries
                         then drop (length entries - auditLimit) entries else entries)\<rparr>)"

definition store_audit ::
    "(store_state \<Rightarrow> bytes result) \<Rightarrow> instant \<Rightarrow> string \<Rightarrow> string \<Rightarrow> string \<Rightarrow> u64 \<Rightarrow> store
      \<Rightarrow> gerror option \<times> store" where
  "store_audit marshal now actor op outcome revision s =
     save marshal (appendAudit now (st_state s) actor op outcome revision) s"

definition store_apply ::
    "(store_state \<Rightarrow> bytes result) \<Rightarrow> (config \<Rightarrow> string result) \<Rightarrow> instant \<Rightarrow> string \<Rightarrow> 'h document
      \<Rightarrow> ctl_result \<Rightarrow> store \<Rightarrow> gerror option \<times> store" where
  "store_apply marshal encode now actor doc r s =
     (case encode (d_config doc) of
        Inl err \<Rightarrow> (Some err, s)
      | Inr data \<Rightarrow>
          let st = appendAudit now (st_state s) actor ''apply'' ''ok'' (in_Revision (re_Info r))
          in save marshal (st\<lparr>ss_Config := data, ss_Revision := in_Revision (re_Info r),
                              ss_LastApply := r\<rparr>) s)"

section \<open>Loading\<close>

definition zero_info :: info where
  "zero_info = \<lparr>in_RunID = [], in_Revision = 0, in_Enabled = False, in_ControlSequence = 0,
     in_AppliedAt = 0, in_StateChangedAt = 0\<rparr>"

definition zero_result :: ctl_result where
  "zero_result = \<lparr>re_Changed = False, re_Info = zero_info\<rparr>"

text \<open>
  \<open>load\<close>: without a state file the bootstrap configuration becomes revision 1; otherwise the file
  is decoded and its configuration parsed. \<open>loaded\<close> is the result of loading the bootstrap file,
  \<open>parse\<close> the parser for a standalone configuration.
\<close>

definition store_load ::
    "(store_state \<Rightarrow> bytes result) \<Rightarrow> (bytes \<Rightarrow> store_state option) \<Rightarrow> (config \<Rightarrow> string result)
      \<Rightarrow> (string \<Rightarrow> 'h document result) \<Rightarrow> instant \<Rightarrow> 'h document result \<Rightarrow> store
      \<Rightarrow> 'h document result \<times> store" where
  "store_load marshal unmarshal encode parse now loaded s =
     (case st_disk s of
        None \<Rightarrow>
          (case loaded of
             Inl err \<Rightarrow> (Inl err, s)
           | Inr doc \<Rightarrow>
               (case encode (d_config doc) of
                  Inl err \<Rightarrow> (Inl err, s)
                | Inr data \<Rightarrow>
                    let st = \<lparr>ss_Version = 1, ss_Config = data, ss_Revision = 1, ss_LastApply = zero_result,
                              ss_Audit = [\<lparr>au_Time = now, au_Actor = ''operator'',
                                au_Operation = ''bootstrap'', au_Revision = 1, au_Outcome = ''ok''\<rparr>]\<rparr>
                    in case save marshal st s of
                         (Some err, s') \<Rightarrow> (Inl err, s')
                       | (None, s') \<Rightarrow> (Inr doc, s')))
      | Some data \<Rightarrow>
          (case unmarshal data of
             None \<Rightarrow> (Inl (Err ''invalid managed state''), s)
           | Some st \<Rightarrow>
               let s' = s\<lparr>st_state := st\<rparr> in
               if ss_Version st \<noteq> 1 \<or> ss_Revision st = 0
               then (Inl (Err ''unsupported managed state''), s')
               else (parse (ss_Config st), s')))"

text \<open>\<open>Configure\<close>, after the directory was opened: \<open>current\<close> is what \<open>load\<close> returned.\<close>

definition Configure ::
    "(store_state \<Rightarrow> bytes result) \<Rightarrow> (config \<Rightarrow> string result) \<Rightarrow> instant \<Rightarrow> 'h document
      \<Rightarrow> 'h document result \<Rightarrow> store \<Rightarrow> gerror option \<times> store" where
  "Configure marshal encode now current loaded s =
     (case loaded of
        Inl err \<Rightarrow> (Some err, s)
      | Inr doc \<Rightarrow>
          if Equal (Some current) (Some doc)
          then store_audit marshal now ''operator'' ''configure'' ''no_op'' (ss_Revision (st_state s)) s
          else (case encode (d_config doc) of
             Inl err \<Rightarrow> (Some err, s)
           | Inr data \<Rightarrow>
               let rev = ss_Revision (st_state s) + 1;
                   st = appendAudit now (st_state s) ''operator'' ''configure'' ''ok'' rev
               in save marshal (st\<lparr>ss_Config := data, ss_Revision := rev,
                    ss_LastApply := \<lparr>re_Changed = True,
                      re_Info = zero_info\<lparr>in_Revision := rev, in_AppliedAt := now\<rparr>\<rparr>\<rparr>) s))"

section \<open>The hook of the managed service\<close>

text \<open>The server holds the store and the name of the account whose request is being served.\<close>

record managed_store =
  mg_store :: store
  mg_actor :: string
  mg_now :: instant

definition persist_hook ::
    "(store_state \<Rightarrow> bytes result) \<Rightarrow> (config \<Rightarrow> string result) \<Rightarrow> ('h, managed_store) persist" where
  "persist_hook marshal encode doc r m =
     (case store_apply marshal encode (mg_now m) (mg_actor m) doc r (mg_store m) of
        (err, s) \<Rightarrow> (err, m\<lparr>mg_store := s\<rparr>))"

section \<open>The file and the state in memory\<close>

text \<open>
  The file holds the state in memory; when the store is poisoned, it holds the state that was
  being saved instead.
\<close>

lemma save_cases:
  obtains (poisoned) "st_poisoned s" "save marshal st s = (Some (Err ''storage commit uncertain; restart required''), s)"
  | (marshal_failed) err where "\<not> st_poisoned s" "marshal st = Inl err" "save marshal st s = (Some err, s)"
  | (not_written) s' err where "\<not> st_poisoned s" "save marshal st s = (Some err, s')"
      "\<not> st_poisoned s'" "st_disk s' = st_disk s" "st_state s' = st_state s"
  | (uncertain) data s' err where "\<not> st_poisoned s" "marshal st = Inr data" "save marshal st s = (Some err, s')"
      "st_poisoned s'" "st_disk s' = Some data" "st_state s' = st_state s"
  | (written) data s' where "\<not> st_poisoned s" "marshal st = Inr data" "save marshal st s = (None, s')"
      "\<not> st_poisoned s'" "st_disk s' = Some data" "st_state s' = st"
proof -
  obtain fs rest where fs: "(case st_results s of [] \<Rightarrow> (no_failure, []) | x # xs \<Rightarrow> (x, xs)) = (fs, rest)"
    by (cases "case st_results s of [] \<Rightarrow> (no_failure, []) | x # xs \<Rightarrow> (x, xs)")
  obtain renamed err where a: "atomicFile fs = (renamed, err)" by (cases "atomicFile fs")
  have ok: "err = None \<Longrightarrow> renamed"
    using a by (auto simp: atomicFile_def Let_def split: if_splits)
  show thesis
  proof (cases "st_poisoned s")
    case False
    show thesis
    proof (cases "marshal st")
      case (Inr data)
      have s: "save marshal st s = (let s1 = s\<lparr>st_results := rest, st_disk := (if renamed then Some data else st_disk s)\<rparr>
          in if err \<noteq> None then (Some (Err ''persist managed state''), s1\<lparr>st_poisoned := renamed\<rparr>)
             else (None, s1\<lparr>st_state := st\<rparr>))"
        using False Inr fs a by (simp add: save_def)
      show thesis
      proof (cases "err = None")
        case True
        then have "save marshal st s = (None, s\<lparr>st_results := rest, st_disk := Some data, st_state := st\<rparr>)"
          using s ok by (simp add: Let_def)
        from written[OF False Inr this] show thesis using False by simp
      next
        case err: False
        show thesis
        proof (cases renamed)
          case True
          with s err have "save marshal st s = (Some (Err ''persist managed state''),
              s\<lparr>st_results := rest, st_disk := Some data, st_poisoned := True\<rparr>)" by (simp add: Let_def)
          from uncertain[OF False Inr this] show thesis by simp
        next
          case no: False
          with s err have "save marshal st s = (Some (Err ''persist managed state''),
              s\<lparr>st_results := rest, st_disk := st_disk s, st_poisoned := False\<rparr>)" by (simp add: Let_def)
          from not_written[OF False this] show thesis using False by simp
        qed
      qed
    qed (use False in \<open>auto intro: marshal_failed simp: save_def\<close>)
  qed (auto intro: poisoned simp: save_def)
qed

text \<open>The length of the audit list and the newest entries are kept.\<close>

lemma appendAudit_drop:
  fixes now op n actor outcome
  defines "e \<equiv> \<lparr>au_Time = now, au_Actor = actor, au_Operation = op, au_Revision = n, au_Outcome = outcome\<rparr>"
  shows "ss_Audit (appendAudit now st actor op outcome n)
     = drop (length (ss_Audit st @ [e]) - auditLimit) (ss_Audit st @ [e])"
  by (simp add: appendAudit_def Let_def e_def)

lemma appendAudit_length:
  "length (ss_Audit (appendAudit now st actor op outcome n)) = min auditLimit (length (ss_Audit st) + 1)"
  by (simp add: appendAudit_drop auditLimit_def)

lemma appendAudit_last:
  "last (ss_Audit (appendAudit now st actor op outcome n)) =
     \<lparr>au_Time = now, au_Actor = actor, au_Operation = op, au_Revision = n, au_Outcome = outcome\<rparr>"
  by (simp add: appendAudit_drop auditLimit_def last_drop)

section \<open>The store keeps the contract of the hook\<close>

text \<open>The file holds a state with the given revision and configuration, and it is the state in
  memory unless the store is poisoned.\<close>

definition holds_state :: "(store_state \<Rightarrow> bytes result) \<Rightarrow> managed_store \<Rightarrow> u64 \<Rightarrow> string \<Rightarrow> bool" where
  "holds_state marshal m n yml \<longleftrightarrow> (\<exists>st data. st_disk (mg_store m) = Some data \<and> marshal st = Inr data
     \<and> ss_Revision st = n \<and> ss_Config st = yml \<and> (st_poisoned (mg_store m) \<or> st = st_state (mg_store m)))"

definition encoded :: "(config \<Rightarrow> string result) \<Rightarrow> config \<Rightarrow> string" where
  "encoded encode c = (case encode c of Inl _ \<Rightarrow> [] | Inr s \<Rightarrow> s)"

abbreviation poisoned :: "managed_store \<Rightarrow> bool" where
  "poisoned m \<equiv> st_poisoned (mg_store m)"

lemma persist_hook_eq:
  "persist_hook marshal encode doc r m = (case encode (d_config doc) of
     Inl err \<Rightarrow> (Some err, m)
   | Inr yml \<Rightarrow> (case save marshal ((appendAudit (mg_now m) (st_state (mg_store m)) (mg_actor m) ''apply'' ''ok''
         (in_Revision (re_Info r)))\<lparr>ss_Config := yml, ss_Revision := in_Revision (re_Info r), ss_LastApply := r\<rparr>)
         (mg_store m) of (err, s) \<Rightarrow> (err, m\<lparr>mg_store := s\<rparr>)))"
  by (cases m) (auto simp: persist_hook_def store_apply_def Let_def split: sum.splits prod.splits)

lemma persist_hook_ok:
  assumes "persist_hook marshal encode doc r m = (None, m')"
  shows "\<not> poisoned m \<and> \<not> poisoned m' \<and> encode (d_config doc) = Inr (encoded encode (d_config doc))
    \<and> (\<exists>st data. st_disk (mg_store m') = Some data \<and> marshal st = Inr data \<and> st_state (mg_store m') = st
        \<and> ss_Revision st = in_Revision (re_Info r) \<and> ss_Config st = encoded encode (d_config doc)
        \<and> ss_Version st = ss_Version (st_state (mg_store m)))"
proof -
  obtain yml where yml: "encode (d_config doc) = Inr yml"
    using assms by (auto simp: persist_hook_eq split: sum.splits)
  define st where "st = (appendAudit (mg_now m) (st_state (mg_store m)) (mg_actor m) ''apply'' ''ok''
         (in_Revision (re_Info r)))\<lparr>ss_Config := yml, ss_Revision := in_Revision (re_Info r), ss_LastApply := r\<rparr>"
  have s: "save marshal st (mg_store m) = (None, mg_store m')"
    using assms yml by (auto simp: persist_hook_eq st_def split: prod.splits)
  show ?thesis
    using s by (cases rule: save_cases[of "mg_store m" marshal st])
      (auto simp: yml encoded_def st_def appendAudit_def Let_def)
qed

interpretation hook: persistence "persist_hook marshal encode" "holds_state marshal" poisoned "encoded encode"
  for marshal encode
proof
  fix doc :: "'a document" and r m m'
  assume "persist_hook marshal encode doc r m = (None, m')"
  from persist_hook_ok[OF this]
  show "\<not> poisoned m \<and> \<not> poisoned m' \<and> holds_state marshal m' (in_Revision (re_Info r)) (encoded encode (d_config doc))"
    by (auto simp: holds_state_def)
next
  fix doc :: "'a document" and r m err m'
  assume a: "persist_hook marshal encode doc r m = (Some err, m')" and p: "\<not> poisoned m"
  show "\<not> poisoned m' \<and> holds_state marshal m' = holds_state marshal m
     \<or> poisoned m' \<and> holds_state marshal m' (in_Revision (re_Info r)) (encoded encode (d_config doc))"
  proof (cases "encode (d_config doc)")
    case (Inr yml)
    define st where "st = (appendAudit (mg_now m) (st_state (mg_store m)) (mg_actor m) ''apply'' ''ok''
         (in_Revision (re_Info r)))\<lparr>ss_Config := yml, ss_Revision := in_Revision (re_Info r), ss_LastApply := r\<rparr>"
    have s: "save marshal st (mg_store m) = (Some err, mg_store m')"
      using a Inr by (auto simp: persist_hook_eq st_def split: prod.splits)
    show ?thesis
      using s p by (cases rule: save_cases[of "mg_store m" marshal st])
        (auto simp: holds_state_def fun_eq_iff encoded_def Inr st_def)
  qed (use a p in \<open>auto simp: persist_hook_eq\<close>)
next
  fix doc :: "'a document" and r m res m'
  assume "poisoned m" "persist_hook marshal encode doc r m = (res, m')"
  then show "poisoned m' \<and> holds_state marshal m' = holds_state marshal m"
    by (auto simp: persist_hook_eq save_def split: sum.splits)
qed

section \<open>The managed service\<close>

text \<open>
  What the managed server does with the service and the store: operations on the service, audit
  entries, and the change of the acting account and of the time.
\<close>

datatype 'h managed_op =
    ManagedCtl "'h ctl_op"
  | ManagedAudit string string string
  | ManagedActor string instant

definition audit_step ::
    "(store_state \<Rightarrow> bytes result) \<Rightarrow> string \<Rightarrow> string \<Rightarrow> string \<Rightarrow> ('h, managed_store) service
      \<Rightarrow> gerror option \<times> ('h, managed_store) service" where
  "audit_step marshal actor op outcome sv =
     (let m = sv_store sv in
      case store_audit marshal (mg_now m) actor op outcome (in_Revision (active_info sv)) (mg_store m) of
        (err, s) \<Rightarrow> (err, sv\<lparr>sv_store := m\<lparr>mg_store := s\<rparr>\<rparr>))"

fun managed_step ::
    "(bytes \<Rightarrow> bytes) \<Rightarrow> (store_state \<Rightarrow> bytes result) \<Rightarrow> 'h managed_op
      \<Rightarrow> ('h, managed_store) service \<Rightarrow> ('h, managed_store) service" where
  "managed_step sha256 marshal (ManagedCtl op) sv = fst (ctl_step sha256 op sv)"
| "managed_step sha256 marshal (ManagedAudit actor op outcome) sv = snd (audit_step marshal actor op outcome sv)"
| "managed_step sha256 marshal (ManagedActor actor now) sv =
     sv\<lparr>sv_store := (sv_store sv)\<lparr>mg_actor := actor, mg_now := now\<rparr>\<rparr>"

definition managed_run ::
    "(bytes \<Rightarrow> bytes) \<Rightarrow> (store_state \<Rightarrow> bytes result) \<Rightarrow> 'h managed_op list
      \<Rightarrow> ('h, managed_store) service \<Rightarrow> ('h, managed_store) service" where
  "managed_run sha256 marshal ops sv = fold (managed_step sha256 marshal) ops sv"

abbreviation consistent ::
    "(store_state \<Rightarrow> bytes result) \<Rightarrow> (config \<Rightarrow> string result) \<Rightarrow> ('h, managed_store) service \<Rightarrow> bool" where
  "consistent marshal encode \<equiv>
     managed_ok (persist_hook marshal encode) (holds_state marshal) poisoned (encoded encode)"

lemma store_audit_holds:
  assumes "store_audit marshal now actor op outcome r (mg_store m) = (err, s')"
  shows "(poisoned m \<longrightarrow> s' = mg_store m)
    \<and> (holds_state marshal m n yml \<longrightarrow> holds_state marshal (m\<lparr>mg_store := s'\<rparr>) n yml)"
proof -
  let ?st = "appendAudit now (st_state (mg_store m)) actor op outcome r"
  have s: "save marshal ?st (mg_store m) = (err, s')" using assms by (simp add: store_audit_def)
  have keep: "ss_Revision ?st = ss_Revision (st_state (mg_store m))"
    "ss_Config ?st = ss_Config (st_state (mg_store m))"
    by (simp_all add: appendAudit_def Let_def)
  show ?thesis
    using s keep by (cases rule: save_cases[of "mg_store m" marshal ?st]) (auto simp: holds_state_def)
qed

lemma audit_step_consistent:
  assumes "consistent marshal encode sv"
  shows "consistent marshal encode (snd (audit_step marshal actor op outcome sv))"
proof -
  let ?m = "sv_store sv"
  obtain err s' where a: "store_audit marshal (mg_now ?m) actor op outcome (in_Revision (active_info sv))
      (mg_store ?m) = (err, s')"
    by (cases "store_audit marshal (mg_now ?m) actor op outcome (in_Revision (active_info sv)) (mg_store ?m)")
  note h = store_audit_holds[OF a]
  obtain rv where rv: "sv_persist sv = Some (persist_hook marshal encode)"
    "sv_heap sv (sn_revision (sv_active sv)) = Some rv" "d_valid (rv_document rv)"
    and d: "if poisoned ?m then \<exists>n yml. holds_state marshal ?m n yml
             \<and> n \<in> {in_Revision (active_info sv), in_Revision (active_info sv) + 1}
           else \<exists>doc. holds_state marshal ?m (in_Revision (active_info sv)) (encoded encode (d_config doc))
             \<and> Equal (Some (rv_document rv)) (Some doc)"
    using assms by (auto simp: managed_ok_def)
  have "audit_step marshal actor op outcome sv = (err, sv\<lparr>sv_store := ?m\<lparr>mg_store := s'\<rparr>\<rparr>)"
    using a by (simp add: audit_step_def Let_def)
  then show ?thesis
    using rv d h by (auto simp: managed_ok_def split: if_splits)
qed

lemma managed_step_consistent:
  assumes "consistent marshal encode sv"
    and "\<And>d expected now. op = ManagedCtl (OpApply d expected now) \<Longrightarrow> Valid d"
  shows "consistent marshal encode (managed_step sha256 marshal op sv)"
proof (cases op)
  case (ManagedCtl c)
  with hook.ctl_step_managed_ok[OF assms(1), of c sha256] assms(2) show ?thesis by auto
next
  case (ManagedAudit actor o' outcome)
  with audit_step_consistent[OF assms(1)] show ?thesis by simp
next
  case (ManagedActor actor now)
  with assms(1) show ?thesis by (auto simp: managed_ok_def holds_state_def)
qed

lemma managed_run_consistent:
  assumes "consistent marshal encode sv"
    "\<forall>d expected now. ManagedCtl (OpApply d expected now) \<in> set ops \<longrightarrow> Valid d"
  shows "consistent marshal encode (managed_run sha256 marshal ops sv)"
  using assms unfolding managed_run_def
proof (induction ops arbitrary: sv)
  case (Cons op ops)
  have "consistent marshal encode (managed_step sha256 marshal op sv)"
    using Cons.prems by (intro managed_step_consistent) auto
  moreover have "\<forall>d expected now. ManagedCtl (OpApply d expected now) \<in> set ops \<longrightarrow> Valid d"
    using Cons.prems(2) by simp
  ultimately have "consistent marshal encode (fold (managed_step sha256 marshal) ops (managed_step sha256 marshal op sv))"
    by (rule Cons.IH)
  then show ?case by simp
qed simp

lemma NewManaged_consistent:
  assumes "NewManaged sha256 runID now m (Some doc) n (Some (persist_hook marshal encode)) = Inr sv"
    "holds_state marshal m n (encoded encode (d_config doc))" "\<not> poisoned m"
  shows "consistent marshal encode sv"
proof -
  have v: "d_valid doc" using assms(1)
    by (auto simp: NewManaged_def control_New_def New_def Valid_def split: if_splits)
  then have "Equal (Some doc) (Some doc)" by (simp add: Equal_def)
  with assms v show ?thesis
    by (auto simp: NewManaged_def control_New_def managed_ok_def split: sum.splits if_splits)
qed

section \<open>A sample store\<close>

text \<open>
  The encoders of the sample are the constant one for configurations and one that keeps the
  revision for states, which is all the state that the theorems below look at.
\<close>

definition demo_state :: store_state where
  "demo_state = \<lparr>ss_Version = 1, ss_Config = ''yaml'', ss_Revision = 1, ss_LastApply = zero_result, ss_Audit = []\<rparr>"

definition demo_encode :: "config \<Rightarrow> string result" where
  "demo_encode c = Inr ''yaml''"

definition demo_marshal :: "store_state \<Rightarrow> bytes result" where
  "demo_marshal st = Inr (put_le64 (ss_Revision st))"

definition demo_managed :: "file_results list \<Rightarrow> managed_store" where
  "demo_managed rs = \<lparr>mg_store = \<lparr>st_state = demo_state, st_poisoned = False, st_disk = Some (put_le64 1),
     st_results = rs\<rparr>, mg_actor = ''ed'', mg_now = 3\<rparr>"

definition demo_managed_service :: "file_results list \<Rightarrow> (config \<times> digests, managed_store) service" where
  "demo_managed_service rs = (case NewManaged demo_sha256 ''run'' 5 (demo_managed rs) (Some demo_document) 1
      (Some (persist_hook demo_marshal demo_encode)) of Inr sv \<Rightarrow> sv)"

lemma demo_NewManaged:
  "NewManaged demo_sha256 ''run'' 5 (demo_managed rs) (Some demo_document) 1
     (Some (persist_hook demo_marshal demo_encode)) = Inr (demo_managed_service rs)"
  by (simp add: demo_managed_service_def NewManaged_def control_New_def demo_New)

lemma demo_holds:
  "holds_state demo_marshal (demo_managed rs) 1 (encoded demo_encode (d_config demo_document))"
  "\<not> poisoned (demo_managed rs)"
  by (auto simp: holds_state_def demo_managed_def demo_marshal_def demo_state_def encoded_def demo_encode_def)

section \<open>The properties of the store\<close>

text \<open>C15. Crash consistency of the managed service: started on a state file that holds its revision
  and configuration, and after any sequence of operations, audits and failures of the file system,
  the file holds the active revision with a configuration equal to the active one; only when the
  last replacement is uncertain (and then the store refuses every further write) can the file
  already hold the next revision.\<close>

theorem managed_crash_consistent:
  assumes "NewManaged sha256 runID now m (Some doc) n (Some (persist_hook marshal encode)) = Inr sv"
    "holds_state marshal m n (encoded encode (d_config doc))" "\<not> poisoned m"
    "\<forall>d expected now. ManagedCtl (OpApply d expected now) \<in> set ops \<longrightarrow> Valid d"
  shows "managed_ok (persist_hook marshal encode) (holds_state marshal) poisoned (encoded encode)
     (managed_run sha256 marshal ops sv)"
  using managed_run_consistent[OF NewManaged_consistent[OF assms(1-3)] assms(4)] .

theorem managed_crash_consistent_witness:
  "managed_ok (persist_hook demo_marshal demo_encode) (holds_state demo_marshal) poisoned (encoded demo_encode)
     (managed_run demo_sha256 demo_marshal
        [ManagedAudit ''ed'' ''enable'' ''ok'', ManagedCtl (OpApply (Some demo_document2) (Some 1) 6)]
        (demo_managed_service [no_failure\<lparr>fs_syncdir := Some (Err ''EIO'')\<rparr>]))"
  by (rule managed_crash_consistent[OF demo_NewManaged demo_holds])
    (simp add: Valid_def demo_document2_def Let_def)

text \<open>C16. An acknowledged application survives a restart: when \<open>ApplyRevision\<close> returns a result, the
  file holds that revision, and loading it parses exactly the encoding of the applied
  configuration. JSON decoding is assumed to invert JSON encoding on that
  state.\<close>

theorem acknowledged_survives_restart:
  assumes "consistent marshal encode sv" "ss_Version (st_state (mg_store (sv_store sv))) = 1"
    and "ApplyRevision sha256 now (Some doc) n sv = (sv', Inr r)" "in_Revision (re_Info r) \<noteq> 0"
    and "\<forall>data. marshal (st_state (mg_store (sv_store sv'))) = Inr data
        \<longrightarrow> unmarshal data = Some (st_state (mg_store (sv_store sv')))"
  shows "\<exists>yml s. encode (d_config doc) = Inr yml
    \<and> store_load marshal unmarshal encode parse later loaded (mg_store (sv_store sv')) = (parse yml, s)
    \<and> ss_Revision (st_state s) = in_Revision (re_Info r)"
proof -
  have p: "sv_persist sv = Some (persist_hook marshal encode)" using assms(1) by (simp add: managed_ok_def)
  have "persist_hook marshal encode doc r (sv_store sv) = (None, sv_store sv')"
    using assms(3)[unfolded ApplyRevision_def]
  proof (cases rule: apply_document_Inr)
    case (same doc' rv)
    then show ?thesis using hook.run_persist_managed[OF p, of doc r None sv'] by simp
  next
    case (published doc' rv e i' store)
    then show ?thesis using hook.run_persist_managed[OF p, of doc r None "sv\<lparr>sv_store := store\<rparr>"] by simp
  qed
  from persist_hook_ok[OF this] obtain st data where st: "encode (d_config doc) = Inr (encoded encode (d_config doc))"
    "st_disk (mg_store (sv_store sv')) = Some data" "marshal st = Inr data" "st_state (mg_store (sv_store sv')) = st" "ss_Revision st = in_Revision (re_Info r)"
    "ss_Config st = encoded encode (d_config doc)" "ss_Version st = 1"
    using assms(2) by auto
  then have "unmarshal data = Some st" using assms(5) by blast
  with st assms(4) show ?thesis by (auto simp: store_load_def Let_def)
qed

theorem acknowledged_survives_restart_witness:
  "\<exists>sv' r s. ApplyRevision demo_sha256 6 (Some demo_document2) 1 (demo_managed_service []) = (sv', Inr r)
    \<and> store_load demo_marshal (\<lambda>_. Some (st_state (mg_store (sv_store sv')))) demo_encode
        (\<lambda>_. Inr demo_document2) 9 (Inl EOF) (mg_store (sv_store sv')) = (Inr demo_document2, s)
    \<and> ss_Revision (st_state s) = 2"
proof -
  have v: "Valid (Some demo_document2)" by (simp add: Valid_def demo_document2_def Let_def)
  then obtain e where e: "New demo_sha256 (Some demo_document2) = Inr e" by (auto simp: New_def Let_def)
  have sv: "sv_persist (demo_managed_service []) = Some (persist_hook demo_marshal demo_encode)"
    "sv_active (demo_managed_service []) = sv_active demo_service"
    "sv_heap (demo_managed_service []) = sv_heap demo_service"
    "sv_store (demo_managed_service []) = demo_managed []"
    by (simp_all add: demo_managed_service_def NewManaged_def control_New_def demo_New demo_service_def)
  obtain sv' r where a: "ApplyRevision demo_sha256 6 (Some demo_document2) 1 (demo_managed_service []) = (sv', Inr r)"
    and rev: "in_Revision (re_Info r) = 2"
    using demo_compare v e
    by (auto simp: ApplyRevision_def apply_document_def Let_def run_persist_def sv demo_service_def
        persist_hook_eq demo_encode_def save_def demo_marshal_def demo_managed_def atomicFile_def no_failure_def)
  have c: "consistent demo_marshal demo_encode (demo_managed_service [])"
    by (rule NewManaged_consistent[OF demo_NewManaged demo_holds])
  have ver: "ss_Version (st_state (mg_store (sv_store (demo_managed_service [])))) = 1"
    by (simp add: sv demo_managed_def demo_state_def)
  have "in_Revision (re_Info r) \<noteq> 0" using rev by simp
  from acknowledged_survives_restart[OF c ver a this, where parse = "\<lambda>_. Inr demo_document2" and
      unmarshal = "\<lambda>_. Some (st_state (mg_store (sv_store sv')))" and later = 9 and loaded = "Inl EOF"] a rev
  show ?thesis by auto
qed

text \<open>The audit list keeps the newest entries up to the limit of 1000: appending adds the new
  entry at the end and drops the oldest ones beyond the limit, and nothing else.\<close>

lemma audit_bounded:
  "ss_Audit (appendAudit now st actor op outcome n) =
     (let es = ss_Audit st @ [\<lparr>au_Time = now, au_Actor = actor, au_Operation = op, au_Revision = n, au_Outcome = outcome\<rparr>]
      in drop (length es - 1000) es)
   \<and> length (ss_Audit (appendAudit now st actor op outcome n)) = min 1000 (length (ss_Audit st) + 1)"
  using appendAudit_drop[of now st actor op outcome n] appendAudit_length[of now st actor op outcome n]
  by (simp add: auditLimit_def Let_def)

end
