(* ===== verification/Api.thy ===== *)
theory Api
  imports Session Load Store
begin

text \<open>
  The two control servers share their view of the running program and of HTTP. This theory has the
  requests, the bodies of requests, and the status report (\<open>status\<close> of
  \<open>src/internal/control/admin/server.go\<close> and of \<open>src/internal/control/remote/server.go\<close>), and then the
  local administration server \<open>src/internal/control/admin/server.go\<close>.
\<close>

section \<open>Requests\<close>

text \<open>
  A JSON body as \<open>json.Decoder\<close> reads it with the limit on its size and unknown fields disallowed: the
  first value, if there is one of the right form, and whether anything but white space follows.
\<close>

record 'a json_body =
  js_value :: "'a option"
  js_more :: bool

record http_request =
  rq_Method :: string
  rq_Path :: string
  rq_Header :: "string \<Rightarrow> string"

section \<open>The status report\<close>

record listener_status =
  ls_ProxyID :: string
  ls_Address :: string
  ls_Ready :: bool

record rule_counters =
  ru_ProxyID :: string
  ru_RuleID :: string
  ru_Eligible :: u64
  ru_Selected :: u64

record status_report =
  sr_Info :: info
  sr_Ready :: bool
  sr_Listeners :: "listener_status list"
  sr_Counters :: rec_counters
  sr_Rules :: "rule_counters list"

fun rules_status :: "snapshot \<Rightarrow> ('h, 'p) service \<Rightarrow> (string \<times> string) list \<Rightarrow> rule_counters list result" where
  "rules_status snap sv [] = Inr []"
| "rules_status snap sv ((pid, rid) # rest) =
     (case snapshot_Counters snap pid rid sv of
        Inl e \<Rightarrow> Inl e
      | Inr (c, _) \<Rightarrow>
          (case rules_status snap sv rest of
             Inl e \<Rightarrow> Inl e
           | Inr rs \<Rightarrow> Inr (\<lparr>ru_ProxyID = pid, ru_RuleID = rid, ru_Eligible = cn_Eligible c, ru_Selected = cn_Selected c\<rparr> # rs)))"

definition status :: "listener_status list \<Rightarrow> recorder \<Rightarrow> ('h, 'p) service \<Rightarrow> status_report result" where
  "status listeners records sv =
     (let snap = Acquire sv in
      case snapshot_Config snap sv of
        Inl e \<Rightarrow> Inl e
      | Inr c \<Rightarrow>
          (case rules_status snap sv (concat (map (\<lambda>p. map (\<lambda>r. (p_ID p, r_ID r)) (p_Rules p)) (c_Proxies c))) of
             Inl e \<Rightarrow> Inl e
           | Inr rules \<Rightarrow> Inr \<lparr>sr_Info = sn_info snap, sr_Ready = (0 < length listeners \<and> list_all ls_Ready listeners),
               sr_Listeners = listeners, sr_Counters = recorder_Counters (Some records), sr_Rules = rules\<rparr>))"

section \<open>The local administration server\<close>

record ('h, 'p) admin =
  ad_service :: "('h, 'p) service"
  ad_recorder :: recorder
  ad_readOnly :: bool

text \<open>A request of the command line: the body is that of a reload, decoded.\<close>

record admin_request = http_request +
  rq_Canceled :: bool
  rq_Config :: "string json_body"

text \<open>A response: the status and the body; a request that was cancelled gets none.\<close>

datatype admin_response =
    AdminError nat gerror
  | AdminStatus status_report
  | AdminResult ctl_result
  | AdminNothing

definition control_event :: "info \<Rightarrow> string \<Rightarrow> bool \<Rightarrow> string \<Rightarrow> string \<Rightarrow> event" where
  "control_event i op changed outcome errorKind =
     (new_event i ''control'')\<lparr>ev_Operation := op, ev_Changed := changed, ev_Outcome := outcome, ev_ErrorKind := errorKind\<rparr>"

text \<open>The body of a reload, with the path it names.\<close>

definition reload_request :: "string json_body \<Rightarrow> string result" where
  "reload_request body =
     (case js_value body of
        None \<Rightarrow> Inl (Err ''reload requires an absolute config path'')
      | Some path \<Rightarrow>
          if \<not> isAbs path then Inl (Err ''reload requires an absolute config path'')
          else if js_more body then Inl (Err ''expected one JSON object'')
          else Inr path)"

text \<open>The operation under the lock; \<open>path\<close> is that of a reload.\<close>

definition admin_operate ::
    "(bytes \<Rightarrow> bytes) \<Rightarrow> 'h load_env \<Rightarrow> instant \<Rightarrow> string \<Rightarrow> string \<Rightarrow> (('h, 'p) admin, admin_response) eff" where
  "admin_operate sha256 env now op path s =
     (let (sv, r) = (if op = ''reload'' then reload_document sha256 now (Load env path) (ad_service s)
                     else (case SetEnabled (op = ''enable'') now (ad_service s) of (sv, r) \<Rightarrow> (sv, Inr r)))
      in case r of
        Inl e \<Rightarrow>
          let ev = control_event (sn_info (Acquire sv)) op False ''rejected'' ''invalid_config'' in
          (if is_panic e then Inl e else Inr (AdminError 400 e),
           if is_panic e then s else s\<lparr>ad_service := sv, ad_recorder := Record now ev (ad_recorder s)\<rparr>)
      | Inr res \<Rightarrow>
          let ev = control_event (re_Info res) op (re_Changed res) ''ok'' [] in
          (Inr (AdminResult res), s\<lparr>ad_service := sv, ad_recorder := Record now ev (ad_recorder s)\<rparr>))"

definition admin_handle ::
    "(bytes \<Rightarrow> bytes) \<Rightarrow> 'h load_env \<Rightarrow> instant \<Rightarrow> listener_status list \<Rightarrow> admin_request
      \<Rightarrow> (('h, 'p) admin, admin_response) eff" where
  "admin_handle sha256 env now listeners r s =
     (if rq_Header r ''Origin'' \<noteq> [] then (Inr (AdminError 403 (Err ''browser requests are unsupported'')), s)
      else if rq_Path r = ''/status'' \<and> rq_Method r = ''GET'' then
        (case status listeners (ad_recorder s) (ad_service s) of
           Inl e \<Rightarrow> (Inl e, s)
         | Inr st \<Rightarrow> (Inr (AdminStatus st),
             s\<lparr>ad_recorder := Record now (control_event (sr_Info st) ''status'' False ''ok'' []) (ad_recorder s)\<rparr>))
      else if rq_Method r \<noteq> ''POST'' \<or> (rq_Path r \<noteq> ''/enable'' \<and> rq_Path r \<noteq> ''/disable'' \<and> rq_Path r \<noteq> ''/reload'')
      then (Inr (AdminError 404 (Err ''unknown admin operation'')), s)
      else if ad_readOnly s
      then (Inr (AdminError 403 (Err ''managed mode: use authenticated HTTPS API for mutations'')), s)
      else case (if rq_Path r = ''/reload'' then reload_request (rq_Config r) else Inr []) of
        Inl e \<Rightarrow> (Inr (AdminError 400 e), s)
      | Inr path \<Rightarrow>
          if rq_Canceled r then (Inr AdminNothing, s)
          else admin_operate sha256 env now (tl (rq_Path r)) path s)"

end
