(* ===== verification/Remote.thy ===== *)
theory Remote
  imports Api
begin

text \<open>
  The managed control server: the accounts of \<open>src/internal/control/remote/auth.go\<close> and the HTTPS
  interface of \<open>src/internal/control/remote/server.go\<close>. The store of the managed state is that of
  the theory \<open>Store\<close>; it is reached through the service, whose persistence hook writes it.
\<close>

section \<open>Accounts\<close>

record user =
  us_Role :: string
  us_Salt :: string
  us_Hash :: string

definition zero_user :: user where
  "zero_user = \<lparr>us_Role = [], us_Salt = [], us_Hash = []\<rparr>"

definition userName_char :: "char \<Rightarrow> bool" where
  "userName_char c \<longleftrightarrow> is_lower c \<or> is_upper c \<or> is_digit c \<or> c \<in> set ''_.-''"

definition userName :: "string \<Rightarrow> bool" where
  "userName name \<longleftrightarrow> 1 \<le> length name \<and> length name \<le> 64 \<and> list_all userName_char name"

text \<open>
  \<open>readUsers\<close> on the content of \<open>users.json\<close> or the error of reading it. \<open>unmarshal\<close> stands for
  \<open>json.Unmarshal\<close>; the JSON value \<open>null\<close> gives a nil map (\<open>None\<close>).
\<close>

definition readUsers :: "(bytes \<Rightarrow> user gomap option result) \<Rightarrow> bytes result \<Rightarrow> user gomap result" where
  "readUsers unmarshal content =
     (case content of
        Inl e \<Rightarrow> Inl e
      | Inr data \<Rightarrow>
          (case unmarshal data of
             Inr (Some users) \<Rightarrow> Inr users
           | _ \<Rightarrow> Inl (Err ''invalid users file'')))"

text \<open>\<open>pbkdf2.Key\<close> with SHA-256 is a parameter: of the password, the salt, the iterations and the length.\<close>

type_synonym kdf = "string \<Rightarrow> bytes \<Rightarrow> nat \<Rightarrow> nat \<Rightarrow> bytes"

definition passwordHash :: "kdf \<Rightarrow> string \<Rightarrow> bytes \<Rightarrow> string" where
  "passwordHash pbkdf2 password salt = hex_encode (pbkdf2 password salt 600000 32)"

definition verifyPassword :: "kdf \<Rightarrow> user \<Rightarrow> string \<Rightarrow> bool" where
  "verifyPassword pbkdf2 u password =
     (let salt = (case hex_decode (us_Salt u) of
                    Some b \<Rightarrow> if length b \<noteq> 16 then replicate 16 0 else b
                  | None \<Rightarrow> replicate 16 0)
      in passwordHash pbkdf2 password salt = us_Hash u \<and> (us_Role u = ''viewer'' \<or> us_Role u = ''editor''))"

text \<open>
  \<open>SetUser\<close>: the results of \<open>privateDir\<close>, of opening and of locking the lock file, the random salt or
  its error, and the calls of \<open>atomicFile\<close> are given; \<open>content\<close> is that of \<open>users.json\<close>, \<open>None\<close> when there
  is no such file. The result is the error and the content afterwards.
\<close>

record account_files =
  af_private :: "gerror option"
  af_lock :: "gerror option"
  af_flock :: "gerror option"
  af_salt :: "bytes result"
  af_write :: file_results

definition gm_delete :: "string \<Rightarrow> 'v gomap \<Rightarrow> 'v gomap" where
  "gm_delete k m = filter (\<lambda>e. fst e \<noteq> k) m"

definition write_users ::
    "(user gomap \<Rightarrow> bytes result) \<Rightarrow> file_results \<Rightarrow> user gomap \<Rightarrow> bytes option \<Rightarrow> gerror option \<times> bytes option" where
  "write_users marshal fs users content =
     (case marshal users of
        Inl e \<Rightarrow> (Some e, content)
      | Inr data \<Rightarrow> (case atomicFile fs of (renamed, err) \<Rightarrow> (err, if renamed then Some data else content)))"

definition SetUser ::
    "(bytes \<Rightarrow> user gomap option result) \<Rightarrow> (user gomap \<Rightarrow> bytes result) \<Rightarrow> kdf \<Rightarrow> account_files
      \<Rightarrow> string \<Rightarrow> string \<Rightarrow> string \<Rightarrow> bool \<Rightarrow> bytes option \<Rightarrow> gerror option \<times> bytes option" where
  "SetUser unmarshal marshal pbkdf2 af name role password remove content =
     (if \<not> userName name
      then (Some (Err ''username: use 1-64 letters, digits, dot, underscore or hyphen''), content)
      else if \<not> remove \<and> (role \<noteq> ''viewer'' \<and> role \<noteq> ''editor'' \<or> length password < 12 \<or> length password > 1024)
      then (Some (Err ''role must be viewer/editor; password must be 12-1024 bytes''), content)
      else if af_private af \<noteq> None then (af_private af, content)
      else if af_lock af \<noteq> None then (af_lock af, content)
      else if af_flock af \<noteq> None then (af_flock af, content)
      else case (case content of None \<Rightarrow> Inr [] | Some data \<Rightarrow> readUsers unmarshal (Inr data)) of
        Inl e \<Rightarrow> (Some e, content)
      | Inr users \<Rightarrow>
          if remove then write_users marshal (af_write af) (gm_delete name users) content
          else (case af_salt af of
             Inl e \<Rightarrow> (Some e, content)
           | Inr salt \<Rightarrow> write_users marshal (af_write af)
               (gm_put name \<lparr>us_Role = role, us_Salt = hex_encode salt, us_Hash = passwordHash pbkdf2 password salt\<rparr> users)
               content))"

section \<open>State, requests and responses\<close>

record rsession =
  rs_Name :: string
  rs_Role :: string
  rs_Hash :: string
  rs_CSRF :: string
  rs_Expires :: instant

definition zero_session :: rsession where
  "zero_session = \<lparr>rs_Name = [], rs_Role = [], rs_Hash = [], rs_CSRF = [], rs_Expires = 0\<rparr>"

text \<open>
  The field \<open>actor\<close> of the server and the clock are in the state of the hook (\<open>mg_actor\<close>, \<open>mg_now\<close>);
  \<open>rm_errors\<close> is what waits in the channel for errors, which holds one.
\<close>

record 'h remote =
  rm_service :: "('h, managed_store) service"
  rm_records :: recorder
  rm_sessions :: "rsession gomap"
  rm_loginWindow :: instant
  rm_loginCount :: nat
  rm_errors :: "gerror list"

abbreviation rm_store :: "'h remote \<Rightarrow> store" where
  "rm_store s \<equiv> mg_store (sv_store (rm_service s))"

record proxy_draft =
  pd_ID :: string
  pd_Rules :: "rule list"

record draft =
  dr_BaseRevision :: u64
  dr_Proxies :: "proxy_draft list"

text \<open>What the server is built from: library functions, and how it loads and encodes configurations.\<close>

record 'h remote_env =
  ro_sha256 :: "bytes \<Rightarrow> bytes"
  ro_pbkdf2 :: kdf
  ro_load :: "'h load_env"
  ro_node :: "config \<Rightarrow> ynode result"
  ro_yaml :: "ynode \<Rightarrow> bytes result"
  ro_state_json :: "store_state \<Rightarrow> bytes result"
  ro_users_json :: "bytes \<Rightarrow> user gomap option result"
  ro_login_json :: "bytes \<Rightarrow> (string \<times> string) json_body"
  ro_draft_json :: "bytes \<Rightarrow> draft json_body"
  ro_dir :: string

text \<open>What a request finds: the clock, the file of the accounts, the listeners and two random texts.\<close>

record ambient =
  am_now :: instant
  am_users :: "bytes result"
  am_listeners :: "listener_status list"
  am_token :: string
  am_csrf :: string

record remote_request = http_request +
  rq_TLS :: bool
  rq_Host :: string
  rq_Cookie :: "string option"
  rq_Body :: bytes

record proxy_view =
  pv_ID :: string
  pv_Protocol :: string
  pv_Listen :: string
  pv_Upstream :: string
  pv_Rules :: "rule list"

record config_view =
  cv_Revision :: u64
  cv_Proxies :: "proxy_view list"
  cv_LastApply :: ctl_result

record capability_view =
  ca_Actions :: "(string \<times> string list) list"
  ca_Phases :: "string list"
  ca_ProtocolPhases :: "(string \<times> string list) list"
  ca_Selectors :: "string list"

datatype remote_body =
    BError gerror
  | BAsset string
  | BSession string string string
  | BOk
  | BConfig config_view
  | BStatus status_report "u64 gomap"
  | BAudit "audit list"
  | BCapabilities capability_view
  | BResult ctl_result
  | BConflict string config_view
  | BValid u64

text \<open>The cookie a response sets: a new value with its age in seconds, or none with a negative age.\<close>

record set_cookie =
  ck_Value :: string
  ck_MaxAge :: int

record response =
  rp_Status :: nat
  rp_Header :: "(string \<times> string) list"
  rp_Cookie :: "set_cookie option"
  rp_Body :: remote_body

definition security_headers :: "(string \<times> string) list" where
  "security_headers = [(''Cache-Control'', ''no-store''), (''X-Content-Type-Options'', ''nosniff''),
     (''Referrer-Policy'', ''no-referrer''),
     (''Content-Security-Policy'', ''default-src 'self'; frame-ancestors 'none'; base-uri 'none'; form-action 'self'' @ [CHR 0x27]),
     (''Strict-Transport-Security'', ''max-age=31536000'')]"

definition reply :: "nat \<Rightarrow> remote_body \<Rightarrow> response" where
  "reply st val = \<lparr>rp_Status = st, rp_Header = security_headers @ [(''Content-Type'', ''application/json'')],
     rp_Cookie = None, rp_Body = val\<rparr>"

definition problem :: "nat \<Rightarrow> string \<Rightarrow> response" where
  "problem st message = reply st (BError (Err message))"

section \<open>Helpers of the handlers\<close>

definition remote_decode :: "(bytes \<Rightarrow> 'a json_body) \<Rightarrow> remote_request \<Rightarrow> 'a result" where
  "remote_decode json r =
     (if rq_Header r ''Content-Type'' \<noteq> ''application/json'' then Inl (Err ''Content-Type must be application/json'')
      else case js_value (json (rq_Body r)) of
        None \<Rightarrow> Inl (Err ''invalid JSON request or unknown field'')
      | Some v \<Rightarrow> if js_more (json (rq_Body r)) then Inl (Err ''expected one JSON object'') else Inr v)"

definition remote_fail :: "gerror \<Rightarrow> 'h remote \<Rightarrow> 'h remote" where
  "remote_fail e s = (if rm_errors s = [] then s\<lparr>rm_errors := [e]\<rparr> else s)"

definition remote_audit :: "'h remote_env \<Rightarrow> string \<Rightarrow> string \<Rightarrow> string \<Rightarrow> ('h remote, bool) eff" where
  "remote_audit env actor op outcome s =
     (case audit_step (ro_state_json env) actor op outcome (rm_service s) of
        (err, sv) \<Rightarrow>
          let s1 = s\<lparr>rm_service := sv\<rparr> in
          (case err of
             None \<Rightarrow> (Inr True, s1)
           | Some e \<Rightarrow> (Inr False, if st_poisoned (rm_store s1) then remote_fail e s1 else s1)))"

text \<open>\<open>if s.audit(...) { ... }\<close>: the rest of the handler, or the response that the audit has written.\<close>

definition audited ::
    "'h remote_env \<Rightarrow> string \<Rightarrow> string \<Rightarrow> string \<Rightarrow> ('h remote, response) eff \<Rightarrow> ('h remote, response) eff" where
  "audited env actor op outcome m = andThen (remote_audit env actor op outcome)
     (\<lambda>written. if written then m else return (problem 503 ''audit storage unavailable; no operation performed''))"

definition remote_record :: "instant \<Rightarrow> event \<Rightarrow> 'h remote \<Rightarrow> 'h remote" where
  "remote_record now e s = s\<lparr>rm_records := Record now e (rm_records s)\<rparr>"

definition operation :: "string \<Rightarrow> string" where
  "operation path =
     (if path = ''/api/login'' then ''login'' else if path = ''/api/logout'' then ''logout''
      else if path = ''/api/apply'' then ''apply'' else if path = ''/api/validate'' then ''validate''
      else if path = ''/api/enable'' then ''enable'' else if path = ''/api/disable'' then ''disable''
      else ''unknown'')"

definition configView :: "'h remote \<Rightarrow> config_view result" where
  "configView s =
     (let snap = Acquire (rm_service s) in
      case snapshot_Config snap (rm_service s) of
        Inl e \<Rightarrow> Inl e
      | Inr c \<Rightarrow> Inr \<lparr>cv_Revision = in_Revision (sn_info snap),
          cv_Proxies = map (\<lambda>p. \<lparr>pv_ID = p_ID p, pv_Protocol = p_Protocol p, pv_Listen = p_Listen p,
            pv_Upstream = p_Upstream p, pv_Rules = p_Rules p\<rparr>) (c_Proxies c),
          cv_LastApply = ss_LastApply (st_state (rm_store s))\<rparr>)"

definition capabilities :: capability_view where
  "capabilities = \<lparr>ca_Actions = map (\<lambda>p. (p, Actions p)) [''http1'', ''http2'', ''grpc'', ''postgresql'', ''mysql'', ''tcp''],
     ca_Phases = [BeforeUpstreamRequest, AfterUpstreamHeaders],
     ca_ProtocolPhases = [(''postgresql'', [AfterCommit]), (''mysql'', [AfterCommit]), (''tcp'', [TCPOnConnect, TCPOnTransfer])],
     ca_Selectors = [''Probability'', ''Nth'', ''Every'']\<rparr>"

text \<open>\<open>document\<close>: the rules of the draft put into the active configuration, which is encoded and parsed.\<close>

fun replace_rules :: "proxy_draft \<Rightarrow> proxy list \<Rightarrow> proxy list option" where
  "replace_rules edit [] = None"
| "replace_rules edit (p # ps) =
     (if p_ID p = pd_ID edit then Some (p\<lparr>p_Rules := pd_Rules edit\<rparr> # ps)
      else map_option ((#) p) (replace_rules edit ps))"

fun edit_proxies :: "string list \<Rightarrow> proxy_draft list \<Rightarrow> proxy list \<Rightarrow> proxy list result" where
  "edit_proxies seen [] ps = Inr ps"
| "edit_proxies seen (edit # edits) ps =
     (if pd_ID edit \<in> set seen then Inl (Err ''proxies: duplicate proxy'')
      else case replace_rules edit ps of
        None \<Rightarrow> Inl (Err ''proxies: unknown proxy'')
      | Some ps' \<Rightarrow> edit_proxies (pd_ID edit # seen) edits ps')"

definition remote_document :: "'h remote_env \<Rightarrow> draft \<Rightarrow> 'h remote \<Rightarrow> 'h document result" where
  "remote_document env d s =
     (case snapshot_Config (Acquire (rm_service s)) (rm_service s) of
        Inl e \<Rightarrow> Inl e
      | Inr c \<Rightarrow>
          if length (dr_Proxies d) \<noteq> length (c_Proxies c)
          then Inl (Err ''proxies: all existing proxies are required'')
          else case edit_proxies [] (dr_Proxies d) (c_Proxies c) of
            Inl e \<Rightarrow> Inl e
          | Inr ps \<Rightarrow>
              (case Encode (ro_node env) (ro_yaml env) (c\<lparr>c_Proxies := ps\<rparr>) of
                 Inl e \<Rightarrow> Inl e
               | Inr data \<Rightarrow> Parse (ro_load env) data (path_join (ro_dir env) ''active.yaml'')))"

section \<open>Login\<close>

definition login_window :: "instant \<Rightarrow> 'h remote \<Rightarrow> 'h remote" where
  "login_window now s =
     (if now - rm_loginWindow s \<ge> 60 * 10 ^ 9 then s\<lparr>rm_loginWindow := now, rm_loginCount := 0\<rparr> else s)"

text \<open>The session and the response of an accepted login.\<close>

definition open_session :: "ambient \<Rightarrow> remote_request \<Rightarrow> string \<Rightarrow> user \<Rightarrow> ('h remote, response) eff" where
  "open_session am r name u s =
     (let sess = \<lparr>rs_Name = name, rs_Role = us_Role u, rs_Hash = us_Hash u, rs_CSRF = am_csrf am,
                  rs_Expires = am_now am + 8 * 60 * 60 * 10 ^ 9\<rparr>;
          kept = (case rq_Cookie r of None \<Rightarrow> rm_sessions s | Some old \<Rightarrow> gm_delete old (rm_sessions s))
      in (Inr ((reply 200 (BSession name (us_Role u) (am_csrf am)))\<lparr>rp_Cookie :=
             Some \<lparr>ck_Value = am_token am, ck_MaxAge = 8 * 60 * 60\<rparr>\<rparr>),
          s\<lparr>rm_sessions := gm_put (am_token am) sess kept\<rparr>))"

definition lookup_user :: "user gomap result \<Rightarrow> string \<Rightarrow> user" where
  "lookup_user users name =
     (case users of Inl _ \<Rightarrow> zero_user | Inr m \<Rightarrow> (case map_of m name of None \<Rightarrow> zero_user | Some u \<Rightarrow> u))"

definition login :: "'h remote_env \<Rightarrow> ambient \<Rightarrow> remote_request \<Rightarrow> ('h remote, response) eff" where
  "login env am r s0 =
     (let s = login_window (am_now am) s0 in
      if rm_loginCount s \<ge> 20
      then (Inr (let p = problem 429 ''login rate limit; retry in one minute''
                 in p\<lparr>rp_Header := (''Retry-After'', ''60'') # rp_Header p\<rparr>), s)
      else
        let s = s\<lparr>rm_loginCount := rm_loginCount s + 1\<rparr> in
        (case remote_decode (ro_login_json env) r of
           Inl _ \<Rightarrow> return (problem 400 ''invalid login request'')
         | Inr (name, password) \<Rightarrow>
             if length password > 1024 then return (problem 400 ''invalid login request'')
             else
               let users = readUsers (ro_users_json env) (am_users am); u = lookup_user users name in
               if (case users of Inl _ \<Rightarrow> True | Inr _ \<Rightarrow> False) \<or> \<not> verifyPassword (ro_pbkdf2 env) u password
               then audited env ''anonymous'' ''login'' ''rejected'' (return (problem 401 ''invalid username or password''))
               else if length (rm_sessions s) \<ge> 256 then return (problem 503 ''session limit reached'')
               else audited env name ''login'' ''ok'' (open_session am r name u)) s)"

section \<open>The handler\<close>

text \<open>The requests that change the configuration or the switch, of an account with the role editor.\<close>

definition serve_switch :: "'h remote_env \<Rightarrow> instant \<Rightarrow> string \<Rightarrow> string \<Rightarrow> ('h remote, response) eff" where
  "serve_switch env now name op = audited env name op ''ok''
     (\<lambda>s. case SetEnabled (op = ''enable'') now (rm_service s) of
        (sv, res) \<Rightarrow> (Inr (reply 200 (BResult res)),
          remote_record now (control_event (re_Info res) op (re_Changed res) ''ok'' []) (s\<lparr>rm_service := sv\<rparr>)))"

definition set_actor :: "string \<Rightarrow> 'h remote \<Rightarrow> 'h remote" where
  "set_actor name s = s\<lparr>rm_service := (rm_service s)\<lparr>sv_store := (sv_store (rm_service s))\<lparr>mg_actor := name\<rparr>\<rparr>\<rparr>"

definition serve_apply ::
    "'h remote_env \<Rightarrow> instant \<Rightarrow> string \<Rightarrow> u64 \<Rightarrow> 'h document \<Rightarrow> ('h remote, response) eff" where
  "serve_apply env now name base doc s =
     (case ApplyRevision (ro_sha256 env) now (Some doc) base (rm_service (set_actor name s)) of
        (sv, Inl e) \<Rightarrow>
          let s1 = s\<lparr>rm_service := sv\<rparr> in
          if is_panic e then (Inl e, s1)
          else
            let s2 = remote_record now ((control_event (sn_info (Acquire sv)) ''apply'' False ''rejected''
                       ''managed_apply_failed'')) (set_actor [] s1);
                resp = return (if e = ErrConflict then problem 409 ''config revision conflict''
                               else problem 503 ''apply failed; refresh active revision before retrying'')
            in if st_poisoned (rm_store s2) then resp (remote_fail e s2)
               else audited env name ''apply'' ''failed'' resp s2
      | (sv, Inr res) \<Rightarrow>
          (Inr (reply 200 (BResult res)),
           remote_record now (control_event (re_Info res) ''apply'' (re_Changed res) ''ok'' []) (set_actor [] (s\<lparr>rm_service := sv\<rparr>))))"

definition serve_draft ::
    "'h remote_env \<Rightarrow> instant \<Rightarrow> string \<Rightarrow> string \<Rightarrow> remote_request \<Rightarrow> ('h remote, response) eff" where
  "serve_draft env now name op r s =
     (case remote_decode (ro_draft_json env) r of
        Inl e \<Rightarrow> audited env name op ''invalid_request'' (return (reply 400 (BError e)))
      | Inr d \<Rightarrow>
          if dr_BaseRevision d \<noteq> in_Revision (sn_info (Acquire (rm_service s)))
          then audited env name op ''conflict''
            (\<lambda>s. case configView s of
               Inl e \<Rightarrow> (Inl e, s)
             | Inr view \<Rightarrow> (Inr (reply 409 (BConflict
                 ''Config changed. Compare your draft with the latest active revision.'' view)), s))
          else (case remote_document env d s of
             Inl e \<Rightarrow> if is_panic e then fail e
                     else audited env name op ''invalid_config'' (return (reply 422 (BError e)))
           | Inr doc \<Rightarrow>
               if op = ''validate'' then audited env name op ''ok'' (return (reply 200 (BValid (dr_BaseRevision d))))
               else serve_apply env now name (dr_BaseRevision d) doc)) s"

definition serve_mutation ::
    "'h remote_env \<Rightarrow> instant \<Rightarrow> rsession \<Rightarrow> remote_request \<Rightarrow> ('h remote, response) eff" where
  "serve_mutation env now sess r =
     (let op = operation (rq_Path r) in
      if rq_Method r \<noteq> ''POST'' \<or> op = ''unknown'' then return (problem 404 ''unknown API operation'')
      else if rs_Role sess \<noteq> ''editor''
      then audited env (rs_Name sess) op ''forbidden'' (return (problem 403 ''editor role required''))
      else if op = ''enable'' \<or> op = ''disable'' then serve_switch env now (rs_Name sess) op
      else if op \<noteq> ''apply'' \<and> op \<noteq> ''validate'' then return (problem 404 ''unknown API operation'')
      else serve_draft env now (rs_Name sess) op r)"

text \<open>The views; \<open>None\<close> when the path is none of theirs.\<close>

definition serve_view :: "ambient \<Rightarrow> string \<Rightarrow> 'h remote \<Rightarrow> remote_body result option" where
  "serve_view am path s =
     (if path = ''/api/config'' then Some (map_sum id BConfig (configView s))
      else if path = ''/api/status''
      then Some (map_sum id (\<lambda>st. BStatus st (Outcomes (Some (rm_records s)))) (status (am_listeners am) (rm_records s) (rm_service s)))
      else if path = ''/api/audit'' then Some (Inr (BAudit (ss_Audit (st_state (rm_store s)))))
      else if path = ''/api/capabilities'' then Some (Inr (BCapabilities capabilities))
      else None)"

text \<open>A request of an account that is logged in, with the session \<open>sess\<close> under the cookie \<open>key\<close>.\<close>

definition serve_session ::
    "'h remote_env \<Rightarrow> ambient \<Rightarrow> remote_request \<Rightarrow> string \<Rightarrow> rsession \<Rightarrow> ('h remote, response) eff" where
  "serve_session env am r key sess s =
     (if rq_Method r = ''POST'' \<and> rq_Header r ''X-CSRF-Token'' \<noteq> rs_CSRF sess
      then audited env (rs_Name sess) (operation (rq_Path r)) ''csrf_rejected'' (return (problem 403 ''CSRF token required'')) s
      else if rq_Path r = ''/api/session'' \<and> rq_Method r = ''GET''
      then (Inr (reply 200 (BSession (rs_Name sess) (rs_Role sess) (rs_CSRF sess))), s)
      else if rq_Path r = ''/api/logout'' \<and> rq_Method r = ''POST''
      then audited env (rs_Name sess) ''logout'' ''ok''
        (\<lambda>s. (Inr ((reply 200 BOk)\<lparr>rp_Cookie := Some \<lparr>ck_Value = [], ck_MaxAge = -1\<rparr>\<rparr>),
              s\<lparr>rm_sessions := gm_delete key (rm_sessions s)\<rparr>)) s
      else case (if rq_Method r = ''GET'' then serve_view am (rq_Path r) s else None) of
        Some (Inl e) \<Rightarrow> (Inl e, s)
      | Some (Inr view) \<Rightarrow> (Inr (reply 200 view), s)
      | None \<Rightarrow> serve_mutation env (am_now am) sess r s)"

definition expire_sessions :: "instant \<Rightarrow> 'h remote \<Rightarrow> 'h remote" where
  "expire_sessions now s = s\<lparr>rm_sessions := filter (\<lambda>e. now < rs_Expires (snd e)) (rm_sessions s)\<rparr>"

definition lookup_session :: "remote_request \<Rightarrow> 'h remote \<Rightarrow> rsession" where
  "lookup_session r s =
     (case rq_Cookie r of
        None \<Rightarrow> zero_session
      | Some key \<Rightarrow> (case map_of (rm_sessions s) key of None \<Rightarrow> zero_session | Some x \<Rightarrow> x))"

text \<open>Whether the account of a session still exists with the hash and the role it had.\<close>

definition session_current :: "user gomap result \<Rightarrow> rsession \<Rightarrow> bool" where
  "session_current users sess \<longleftrightarrow> rs_Name sess \<noteq> [] \<and>
     (case users of
        Inl _ \<Rightarrow> False
      | Inr m \<Rightarrow> (case map_of m (rs_Name sess) of
           None \<Rightarrow> False
         | Some u \<Rightarrow> us_Hash u = rs_Hash sess \<and> us_Role u = rs_Role sess))"

definition drop_cookie :: "remote_request \<Rightarrow> 'h remote \<Rightarrow> 'h remote" where
  "drop_cookie r s = (case rq_Cookie r of None \<Rightarrow> s | Some key \<Rightarrow> s\<lparr>rm_sessions := gm_delete key (rm_sessions s)\<rparr>)"

definition serve_authenticated :: "'h remote_env \<Rightarrow> ambient \<Rightarrow> remote_request \<Rightarrow> ('h remote, response) eff" where
  "serve_authenticated env am r s =
     (let sess = lookup_session r s; users = readUsers (ro_users_json env) (am_users am) in
      if \<not> session_current users sess
      then
        let s1 = drop_cookie r s; denied = return (problem 401 ''login required'') in
        if rq_Method r \<noteq> ''GET'' then audited env ''anonymous'' (operation (rq_Path r)) ''unauthorized'' denied s1
        else denied s1
      else serve_session env am r (the (rq_Cookie r)) sess s)"

text \<open>The part under the lock; the clock is read once.\<close>

definition serve_locked :: "'h remote_env \<Rightarrow> ambient \<Rightarrow> remote_request \<Rightarrow> ('h remote, response) eff" where
  "serve_locked env am r s =
     (if st_poisoned (rm_store s) then (Inr (problem 503 ''storage commit uncertain; restart required''), s)
      else
        let s1 = expire_sessions (am_now am)
                   (s\<lparr>rm_service := (rm_service s)\<lparr>sv_store := (sv_store (rm_service s))\<lparr>mg_now := am_now am\<rparr>\<rparr>\<rparr>)
        in if rq_Path r = ''/api/login'' \<and> rq_Method r = ''POST'' then login env am r s1
           else serve_authenticated env am r s1)"

text \<open>The pages are embedded in the program and served by \<open>http.FileServer\<close>; only that one is served is kept.\<close>

definition is_asset :: "string \<Rightarrow> bool" where
  "is_asset path \<longleftrightarrow> path = ''/'' \<or> path = ''/app.js'' \<or> path = ''/diff.js'' \<or> path = ''/style.css'' \<or> path = ''/favicon.svg''"

definition ServeHTTP :: "'h remote_env \<Rightarrow> ambient \<Rightarrow> remote_request \<Rightarrow> ('h remote, response) eff" where
  "ServeHTTP env am r s =
     (if \<not> rq_TLS r then (Inr (problem 400 ''HTTPS required''), s)
      else if rq_Method r \<noteq> ''GET'' \<and> rq_Header r ''Origin'' \<noteq> [] \<and> rq_Header r ''Origin'' \<noteq> ''https://'' @ rq_Host r
      then (Inr (problem 403 ''cross-origin request rejected''), s)
      else if is_asset (rq_Path r) then
        (if rq_Method r \<noteq> ''GET'' then (Inr (problem 405 ''GET required''), s)
         else (Inr \<lparr>rp_Status = 200, rp_Header = security_headers, rp_Cookie = None, rp_Body = BAsset (rq_Path r)\<rparr>, s))
      else serve_locked env am r s)"

section \<open>The start of the server\<close>

text \<open>The encoding of a configuration as the store keeps it.\<close>

definition encode_text :: "'h remote_env \<Rightarrow> config \<Rightarrow> string result" where
  "encode_text env c = map_sum id bytes_string (Encode (ro_node env) (ro_yaml env) c)"

definition remote_New ::
    "'h remote_env \<Rightarrow> string \<Rightarrow> instant \<Rightarrow> bytes result \<Rightarrow> store \<Rightarrow> recorder \<Rightarrow> instant \<Rightarrow> 'h document \<Rightarrow> 'h remote result" where
  "remote_New env runID now users st records zero_time doc =
     (case readUsers (ro_users_json env) users of
        Inl _ \<Rightarrow> Inl (Err ''create at least one account with faultline user before managed startup'')
      | Inr us \<Rightarrow>
          if us = [] then Inl (Err ''create at least one account with faultline user before managed startup'')
          else case NewManaged (ro_sha256 env) runID now \<lparr>mg_store = st, mg_actor = [], mg_now = now\<rparr> (Some doc)
                 (ss_Revision (st_state st)) (Some (persist_hook (ro_state_json env) (encode_text env))) of
            Inl e \<Rightarrow> Inl e
          | Inr sv \<Rightarrow> Inr \<lparr>rm_service = sv, rm_records = records, rm_sessions = [], rm_loginWindow = zero_time,
              rm_loginCount = 0, rm_errors = []\<rparr>)"

end
