(* ===== verification/Remote_Correct.thy ===== *)
theory Remote_Correct
  imports Remote Load_Correct
begin

text \<open>
  The handlers of the managed server. Everything a handler can do to the state is collected in two interfaces, \<open>handler\<close>
  for requests that change nothing and \<open>editor\<close> for all; an assertion that is an instance of them holds after every
  request. The instances are: the file is in step with the service, sessions come from logins, nothing changes without
  an editor, and how many logins are left in a window.
\<close>

section \<open>Audits\<close>

text \<open>
  An audit changes nothing but the audit list and the file; one that succeeds has its entry on the
  file.
\<close>

definition on_record :: "'h remote_env \<Rightarrow> 'h remote \<Rightarrow> audit \<Rightarrow> bool" where
  "on_record env s e \<longleftrightarrow> \<not> st_poisoned (rm_store s) \<and> last (ss_Audit (st_state (rm_store s))) = e
     \<and> (\<exists>data. ro_state_json env (st_state (rm_store s)) = Inr data \<and> st_disk (rm_store s) = Some data)"

lemma store_audit_frame:
  assumes "store_audit marshal now actor op outcome n st = (err, st')"
  shows "ss_Config (st_state st') = ss_Config (st_state st) \<and> ss_Revision (st_state st') = ss_Revision (st_state st)
    \<and> (err = None \<longrightarrow> \<not> st_poisoned st' \<and> last (ss_Audit (st_state st')) =
          \<lparr>au_Time = now, au_Actor = actor, au_Operation = op, au_Revision = n, au_Outcome = outcome\<rparr>
        \<and> (\<exists>data. marshal (st_state st') = Inr data \<and> st_disk st' = Some data))"
proof -
  let ?st = "appendAudit now (st_state st) actor op outcome n"
  have s: "save marshal ?st st = (err, st')" using assms by (simp add: store_audit_def)
  have "ss_Config ?st = ss_Config (st_state st)" "ss_Revision ?st = ss_Revision (st_state st)"
    by (simp_all add: appendAudit_def Let_def)
  with s show ?thesis
    by (cases rule: save_cases[of st marshal ?st]) (auto simp: appendAudit_last)
qed

lemma audit_step_frame:
  assumes "audit_step marshal actor op outcome sv = (err, sv')"
  shows "\<exists>st. sv' = sv\<lparr>sv_store := (sv_store sv)\<lparr>mg_store := st\<rparr>\<rparr>
    \<and> store_audit marshal (mg_now (sv_store sv)) actor op outcome (in_Revision (active_info sv)) (mg_store (sv_store sv)) = (err, st)"
  using assms by (auto simp: audit_step_def Let_def split: prod.splits)

definition same_active :: "'h remote \<Rightarrow> 'h remote \<Rightarrow> bool" where
  "same_active s s' \<longleftrightarrow> sv_active (rm_service s') = sv_active (rm_service s) \<and> sv_heap (rm_service s') = sv_heap (rm_service s)
     \<and> ss_Config (st_state (rm_store s')) = ss_Config (st_state (rm_store s))
     \<and> ss_Revision (st_state (rm_store s')) = ss_Revision (st_state (rm_store s))"

definition same_login :: "'h remote \<Rightarrow> 'h remote \<Rightarrow> bool" where
  "same_login s s' \<longleftrightarrow> rm_sessions s' = rm_sessions s \<and> rm_loginWindow s' = rm_loginWindow s \<and> rm_loginCount s' = rm_loginCount s"

lemma remote_fail_frame [simp]:
  "rm_service (remote_fail e s) = rm_service s" "rm_sessions (remote_fail e s) = rm_sessions s"
  "rm_records (remote_fail e s) = rm_records s"
  "rm_loginWindow (remote_fail e s) = rm_loginWindow s" "rm_loginCount (remote_fail e s) = rm_loginCount s"
  by (simp_all add: remote_fail_def)

lemma remote_record_frame [simp]:
  "rm_service (remote_record now e s) = rm_service s" "rm_sessions (remote_record now e s) = rm_sessions s"
  "rm_loginWindow (remote_record now e s) = rm_loginWindow s" "rm_loginCount (remote_record now e s) = rm_loginCount s"
  "rm_errors (remote_record now e s) = rm_errors s"
  by (simp_all add: remote_record_def)

lemma remote_audit_frame:
  assumes "remote_audit env actor op outcome s = (res, s')"
  shows "same_active s s' \<and> same_login s s' \<and> rm_records s' = rm_records s
    \<and> rm_service s' = snd (audit_step (ro_state_json env) actor op outcome (rm_service s))
    \<and> mg_now (sv_store (rm_service s')) = mg_now (sv_store (rm_service s))
    \<and> (\<exists>ok. res = Inr ok \<and> (ok \<longrightarrow> on_record env s' \<lparr>au_Time = mg_now (sv_store (rm_service s)), au_Actor = actor,
         au_Operation = op, au_Revision = in_Revision (active_info (rm_service s)), au_Outcome = outcome\<rparr>))"
proof -
  obtain err sv where a: "audit_step (ro_state_json env) actor op outcome (rm_service s) = (err, sv)"
    by (cases "audit_step (ro_state_json env) actor op outcome (rm_service s)")
  from audit_step_frame[OF a] obtain st where st: "sv = (rm_service s)\<lparr>sv_store := (sv_store (rm_service s))\<lparr>mg_store := st\<rparr>\<rparr>"
    and sa: "store_audit (ro_state_json env) (mg_now (sv_store (rm_service s))) actor op outcome
       (in_Revision (active_info (rm_service s))) (rm_store s) = (err, st)" by blast
  note f = store_audit_frame[OF sa]
  show ?thesis
  proof (cases err)
    case None
    then have "res = Inr True" "s' = s\<lparr>rm_service := sv\<rparr>" using assms a by (simp_all add: remote_audit_def Let_def)
    with f st a None show ?thesis by (auto simp: same_active_def same_login_def on_record_def)
  next
    case (Some e)
    then have "res = Inr False" "s' = s\<lparr>rm_service := sv\<rparr> \<or> s' = remote_fail e (s\<lparr>rm_service := sv\<rparr>)"
      using assms a by (auto simp: remote_audit_def Let_def split: if_splits)
    with f st a show ?thesis by (auto simp: same_active_def same_login_def)
  qed
qed

lemma triple_state:
  assumes "triple P m (\<lambda>_. J) (\<lambda>_. J)" "P s" "m s = (res, s')"
  shows "J s'"
  using triple_Inr[OF assms(1,2)] triple_Inl[OF assms(1,2)] assms(3) by (cases res) auto

lemma triple_keepI:
  assumes "\<And>s res s'. P s \<Longrightarrow> m s = (res, s') \<Longrightarrow> J s'"
  shows "triple P m (\<lambda>_. J) (\<lambda>_. J)"
  using assms by (intro tripleI) (auto split: sum.splits)

lemma triple_audited:
  assumes "\<And>s s' res. P s \<Longrightarrow> remote_audit env actor op outcome s = (res, s') \<Longrightarrow> P' s'
      \<and> (res = Inr True \<longrightarrow> on_record env s' \<lparr>au_Time = mg_now (sv_store (rm_service s)), au_Actor = actor,
         au_Operation = op, au_Revision = in_Revision (active_info (rm_service s)), au_Outcome = outcome\<rparr> \<longrightarrow> P'' s')"
    and "triple P'' m Q E" "\<And>a s. P' s \<Longrightarrow> Q a s"
  shows "triple P (audited env actor op outcome m) Q E"
proof (rule tripleI)
  fix s r s' assume P: "P s" and m: "audited env actor op outcome m s = (r, s')"
  obtain res s1 where a: "remote_audit env actor op outcome s = (res, s1)" by (cases "remote_audit env actor op outcome s")
  note f = remote_audit_frame[OF a] and g = assms(1)[OF P a]
  then obtain ok where ok: "res = Inr ok" by blast
  show "case r of Inr a \<Rightarrow> Q a s' | Inl e \<Rightarrow> E e s'"
  proof (cases ok)
    case True
    then have "P'' s1" "m s1 = (r, s')" using f g ok m a by (auto simp: audited_def andThen_def)
    then show ?thesis using triple_Inr[OF assms(2)] triple_Inl[OF assms(2)] by (cases r) auto
  next
    case False
    then have "s' = s1" "\<exists>x. r = Inr x" using ok m a by (auto simp: audited_def andThen_def return_def)
    then show ?thesis using g assms(3) by auto
  qed
qed

section \<open>Handlers\<close>

text \<open>A session that a login has opened: the password was verified against the account of that moment.\<close>

definition issued :: "'h remote_env \<Rightarrow> ambient \<Rightarrow> remote_request \<Rightarrow> string \<Rightarrow> rsession \<Rightarrow> bool" where
  "issued env am r key sess \<longleftrightarrow> rq_TLS r \<and> rq_Method r = ''POST'' \<and> rq_Path r = ''/api/login'' \<and> key = am_token am
     \<and> rs_CSRF sess = am_csrf am \<and> rs_Expires sess = am_now am + 8 * 60 * 60 * 10 ^ 9
     \<and> (\<exists>password users u. remote_decode (ro_login_json env) r = Inr (rs_Name sess, password)
          \<and> readUsers (ro_users_json env) (am_users am) = Inr users \<and> map_of users (rs_Name sess) = Some u
          \<and> verifyPassword (ro_pbkdf2 env) u password \<and> rs_Role sess = us_Role u \<and> rs_Hash sess = us_Hash u)"

text \<open>
  What a handler may do to the state besides the changes of an editor. An assertion that survives
  these survives every request that is not a change.
\<close>

locale handler =
  fixes env :: "'h remote_env" and am :: ambient and r :: remote_request and I :: "'h remote \<Rightarrow> bool"
  assumes audit: "I s \<Longrightarrow> remote_audit env actor op outcome s = (res, s') \<Longrightarrow> I s'"
    and clock: "I s \<Longrightarrow> I (s\<lparr>rm_service := (rm_service s)\<lparr>sv_store := (sv_store (rm_service s))\<lparr>mg_now := am_now am\<rparr>\<rparr>\<rparr>)"
    and forget: "I s \<Longrightarrow> I (s\<lparr>rm_sessions := filter keep (rm_sessions s)\<rparr>)"
    and window: "rq_Path r = ''/api/login'' \<Longrightarrow> rq_Method r = ''POST'' \<Longrightarrow> I s \<Longrightarrow> I (login_window (am_now am) s)"
    and attempt: "rq_Path r = ''/api/login'' \<Longrightarrow> rq_Method r = ''POST'' \<Longrightarrow> I s \<Longrightarrow> rm_loginCount s < 20 \<Longrightarrow> I (s\<lparr>rm_loginCount := rm_loginCount s + 1\<rparr>)"
    and opened: "I s \<Longrightarrow> length (rm_sessions s) < 256 \<Longrightarrow> issued env am r key sess \<Longrightarrow>
      I (s\<lparr>rm_sessions := gm_put key sess (filter keep (rm_sessions s))\<rparr>)"
begin

lemma audited_keeps:
  assumes "triple I m (\<lambda>_. I) (\<lambda>_. I)"
  shows "triple I (audited env actor op outcome m) (\<lambda>_. I) (\<lambda>_. I)"
  using audit by (intro triple_audited[where P' = I and P'' = I] assms) blast+

lemma return_keeps: "triple I (return x) (\<lambda>_. I) (\<lambda>_. I)"
  by (rule triple_return)

lemmas keeps = audited_keeps return_keeps

lemma open_session_keeps:
  assumes "rq_TLS r" "rq_Method r = ''POST''" "rq_Path r = ''/api/login''"
    "remote_decode (ro_login_json env) r = Inr (name, password)"
    "readUsers (ro_users_json env) (am_users am) = Inr users" "u = lookup_user (Inr users) name"
    "verifyPassword (ro_pbkdf2 env) u password"
  shows "triple (\<lambda>s. I s \<and> length (rm_sessions s) < 256) (open_session am r name u) (\<lambda>_. I) (\<lambda>_. I)"
proof (rule triple_keepI)
  fix s res s' assume s: "I s \<and> length (rm_sessions s) < 256" "open_session am r name u s = (res, s')"
  have "map_of users name \<noteq> None"
    using assms(6,7) by (cases "map_of users name") (simp_all add: lookup_user_def zero_user_def verifyPassword_def Let_def)
  then have u: "map_of users name = Some u" using assms(6) by (auto simp: lookup_user_def)
  let ?sess = "\<lparr>rs_Name = name, rs_Role = us_Role u, rs_Hash = us_Hash u, rs_CSRF = am_csrf am,
                  rs_Expires = am_now am + 8 * 60 * 60 * 10 ^ 9\<rparr>"
  have i: "issued env am r (am_token am) ?sess"
    unfolding issued_def using assms u by (intro conjI exI[of _ password] exI[of _ users] exI[of _ u]) simp_all
  have "\<exists>keep. s' = s\<lparr>rm_sessions := gm_put (am_token am) ?sess (filter keep (rm_sessions s))\<rparr>"
  proof (cases "rq_Cookie r")
    case None
    then show ?thesis using s(2) by (intro exI[of _ "\<lambda>_. True"]) (simp add: open_session_def Let_def)
  next
    case (Some old)
    then show ?thesis using s(2) by (intro exI[of _ "\<lambda>e. fst e \<noteq> old"]) (simp add: open_session_def Let_def gm_delete_def)
  qed
  then show "I s'" using opened[OF _ _ i] s(1) by blast
qed

lemma login_keeps:
  assumes "rq_TLS r" "rq_Method r = ''POST''" "rq_Path r = ''/api/login''"
  shows "triple I (login env am r) (\<lambda>_. I) (\<lambda>_. I)"
proof (rule triple_keepI)
  fix s0 res s' assume I: "I s0" and l: "login env am r s0 = (res, s')"
  define s where "s = login_window (am_now am) s0"
  define s1 where "s1 = s\<lparr>rm_loginCount := rm_loginCount s + 1\<rparr>"
  have s: "I s" unfolding s_def by (rule window[OF assms(3,2) I])
  show "I s'"
  proof (cases "rm_loginCount s \<ge> 20")
    case True
    then show ?thesis using l s by (simp add: login_def Let_def s_def[symmetric])
  next
    case False
    then have s1: "I s1" unfolding s1_def using attempt[OF assms(3,2) s] by simp
    show ?thesis
    proof (cases "remote_decode (ro_login_json env) r")
      case (Inl e)
      then show ?thesis using l s1 False by (simp add: login_def Let_def s_def[symmetric] s1_def return_def)
    next
      case (Inr np)
      obtain name password where np: "np = (name, password)" by (cases np)
      let ?users = "readUsers (ro_users_json env) (am_users am)"
      let ?u = "lookup_user ?users name"
      show ?thesis
      proof (cases "length password > 1024")
        case True
        then show ?thesis using l s1 False Inr np by (simp add: login_def Let_def s_def[symmetric] s1_def return_def)
      next
        case short: False
        show ?thesis
        proof (cases "(case ?users of Inl _ \<Rightarrow> True | Inr _ \<Rightarrow> False) \<or> \<not> verifyPassword (ro_pbkdf2 env) ?u password")
          case True
          then have "audited env ''anonymous'' ''login'' ''rejected'' (return (problem 401 ''invalid username or password'')) s1 = (res, s')"
            using l False Inr np short by (simp add: login_def Let_def s_def[symmetric] s1_def)
          then show ?thesis by (rule triple_state[OF keeps(1)[OF keeps(2)] s1])
        next
          case pw: False
          then obtain users where users: "?users = Inr users" by (cases ?users) auto
          have op: "triple (\<lambda>s. I s \<and> length (rm_sessions s) < 256) (open_session am r name ?u) (\<lambda>_. I) (\<lambda>_. I)"
            using assms Inr np users pw by (intro open_session_keeps) auto
          have au: "triple (\<lambda>s. I s \<and> length (rm_sessions s) < 256) (audited env name ''login'' ''ok'' (open_session am r name ?u)) (\<lambda>_. I) (\<lambda>_. I)"
            using audit by (intro triple_audited[where P' = I, OF _ op]) (auto dest: remote_audit_frame simp: same_login_def)
          show ?thesis
          proof (cases "length (rm_sessions s1) \<ge> 256")
            case True
            then show ?thesis using l False Inr np short pw s1 by (simp add: login_def Let_def s_def[symmetric] s1_def return_def)
          next
            case few: False
            then have "audited env name ''login'' ''ok'' (open_session am r name ?u) s1 = (res, s')"
              using l False Inr np short pw by (simp add: login_def Let_def s_def[symmetric] s1_def)
            then show ?thesis using s1 few by (intro triple_state[OF au]) auto
          qed
        qed
      qed
    qed
  qed
qed

end

definition origin_ok :: "remote_request \<Rightarrow> bool" where
  "origin_ok r \<longleftrightarrow> rq_Method r = ''GET'' \<or> rq_Header r ''Origin'' = [] \<or> rq_Header r ''Origin'' = ''https://'' @ rq_Host r"

text \<open>A request of the account of \<open>sess\<close>, in the state in which its handler starts.\<close>

definition admitted :: "'h remote_env \<Rightarrow> ambient \<Rightarrow> remote_request \<Rightarrow> rsession \<Rightarrow> 'h remote \<Rightarrow> bool" where
  "admitted env am r sess s \<longleftrightarrow> \<not> st_poisoned (rm_store s) \<and> mg_now (sv_store (rm_service s)) = am_now am
     \<and> rq_TLS r \<and> origin_ok r \<and> session_current (readUsers (ro_users_json env) (am_users am)) sess
     \<and> (rq_Method r = ''POST'' \<longrightarrow> rq_Header r ''X-CSRF-Token'' = rs_CSRF sess) \<and> am_now am < rs_Expires sess
     \<and> (\<exists>key. rq_Cookie r = Some key \<and> (key, sess) \<in> set (rm_sessions s))"

lemma lookup_session_current:
  assumes "session_current users (lookup_session r s)"
  shows "\<exists>key. rq_Cookie r = Some key \<and> (key, lookup_session r s) \<in> set (rm_sessions s)"
proof -
  have "lookup_session r s \<noteq> zero_session" using assms by (auto simp: session_current_def zero_session_def)
  then obtain key x where "rq_Cookie r = Some key" "map_of (rm_sessions s) key = Some x" "lookup_session r s = x"
    by (auto simp: lookup_session_def split: option.splits)
  then show ?thesis by (auto dest: map_of_SomeD)
qed

context handler
begin

lemma serve_session_keeps:
  assumes J: "\<And>s. I s \<Longrightarrow> J s"
    and m: "triple (\<lambda>s. I s \<and> admitted env am r sess s) (serve_mutation env (am_now am) sess r) (\<lambda>_. J) (\<lambda>_. J)"
    and I: "I s" and s: "serve_session env am r key sess s = (res, s')"
    and adm: "rq_Method r = ''POST'' \<longrightarrow> rq_Header r ''X-CSRF-Token'' = rs_CSRF sess \<Longrightarrow> admitted env am r sess s"
  shows "J s'"
proof -
  have out: "triple I (\<lambda>s. (Inr x, s\<lparr>rm_sessions := gm_delete key (rm_sessions s)\<rparr>)) (\<lambda>_. I) (\<lambda>_. I)" for x :: response
    by (rule triple_keepI) (auto simp: gm_delete_def intro: forget)
  consider (csrf) "rq_Method r = ''POST''" "rq_Header r ''X-CSRF-Token'' \<noteq> rs_CSRF sess"
    | (logout) "rq_Method r = ''POST'' \<longrightarrow> rq_Header r ''X-CSRF-Token'' = rs_CSRF sess" "rq_Path r = ''/api/logout''" "rq_Method r = ''POST''"
    | (other) "rq_Method r = ''POST'' \<longrightarrow> rq_Header r ''X-CSRF-Token'' = rs_CSRF sess" "\<not> (rq_Path r = ''/api/logout'' \<and> rq_Method r = ''POST'')"
    by blast
  then show ?thesis
  proof cases
    case csrf
    then have "audited env (rs_Name sess) (operation (rq_Path r)) ''csrf_rejected'' (return (problem 403 ''CSRF token required'')) s = (res, s')"
      using s by (simp add: serve_session_def)
    then show ?thesis by (intro J triple_state[OF keeps(1)[OF keeps(2)] I])
  next
    case logout
    then have "audited env (rs_Name sess) ''logout'' ''ok''
        (\<lambda>s. (Inr ((reply 200 BOk)\<lparr>rp_Cookie := Some \<lparr>ck_Value = [], ck_MaxAge = -1\<rparr>\<rparr>),
              s\<lparr>rm_sessions := gm_delete key (rm_sessions s)\<rparr>)) s = (res, s')"
      using s by (simp add: serve_session_def)
    then show ?thesis by (intro J triple_state[OF keeps(1)[OF out] I])
  next
    case other
    then have "s' = s \<or> serve_mutation env (am_now am) sess r s = (res, s')"
      using s by (auto simp: serve_session_def split: if_splits option.splits sum.splits)
    then show ?thesis using J I triple_state[OF m _, of s res s'] adm[OF other(1)] by auto
  qed
qed

lemma serve_locked_keeps:
  assumes J: "\<And>s. I s \<Longrightarrow> J s" and r: "rq_TLS r" "origin_ok r"
    and m: "\<And>sess. triple (\<lambda>s. I s \<and> admitted env am r sess s) (serve_mutation env (am_now am) sess r) (\<lambda>_. J) (\<lambda>_. J)"
    and I: "I s" and s: "serve_locked env am r s = (res, s')"
  shows "J s'"
proof (cases "st_poisoned (rm_store s)")
  case True
  then show ?thesis using s J I by (simp add: serve_locked_def)
next
  case False
  define s1 where "s1 = expire_sessions (am_now am)
     (s\<lparr>rm_service := (rm_service s)\<lparr>sv_store := (sv_store (rm_service s))\<lparr>mg_now := am_now am\<rparr>\<rparr>\<rparr>)"
  have I1: "I s1" unfolding s1_def expire_sessions_def by (intro forget clock I)
  have s1: "\<not> st_poisoned (rm_store s1)" "mg_now (sv_store (rm_service s1)) = am_now am"
    "\<And>key x. (key, x) \<in> set (rm_sessions s1) \<Longrightarrow> am_now am < rs_Expires x"
    using False by (auto simp: s1_def expire_sessions_def)
  show ?thesis
  proof (cases "rq_Path r = ''/api/login'' \<and> rq_Method r = ''POST''")
    case True
    then have "login env am r s1 = (res, s')" using s False by (simp add: serve_locked_def s1_def)
    then show ?thesis using r True by (intro J triple_state[OF login_keeps I1]) auto
  next
    case other: False
    let ?sess = "lookup_session r s1" and ?users = "readUsers (ro_users_json env) (am_users am)"
    have a: "serve_authenticated env am r s1 = (res, s')" using s False other by (simp add: serve_locked_def s1_def)
    show ?thesis
    proof (cases "session_current ?users ?sess")
      case True
      obtain key where key: "rq_Cookie r = Some key" "(key, ?sess) \<in> set (rm_sessions s1)"
        using lookup_session_current[OF True] by blast
      have "serve_session env am r key ?sess s1 = (res, s')" using a True key by (simp add: serve_authenticated_def Let_def)
      moreover have "admitted env am r ?sess s1"
        if "rq_Method r = ''POST'' \<longrightarrow> rq_Header r ''X-CSRF-Token'' = rs_CSRF ?sess"
        using that True key s1 r by (auto simp: admitted_def)
      ultimately show ?thesis using serve_session_keeps[OF J m I1] by blast
    next
      case no: False
      have d: "I (drop_cookie r s1)"
        using I1 forget[OF I1] by (simp add: drop_cookie_def gm_delete_def split: option.splits)
      show ?thesis
      proof (cases "rq_Method r = ''GET''")
        case True
        then have "s' = drop_cookie r s1" using a no by (simp add: serve_authenticated_def Let_def return_def)
        then show ?thesis using J d by simp
      next
        case False
        then have "audited env ''anonymous'' (operation (rq_Path r)) ''unauthorized'' (return (problem 401 ''login required''))
            (drop_cookie r s1) = (res, s')" using a no by (simp add: serve_authenticated_def Let_def)
        then show ?thesis by (intro J triple_state[OF keeps(1)[OF keeps(2)] d])
      qed
    qed
  qed
qed

lemma ServeHTTP_keeps:
  assumes J: "\<And>s. I s \<Longrightarrow> J s"
    and m: "\<And>sess. triple (\<lambda>s. I s \<and> admitted env am r sess s) (serve_mutation env (am_now am) sess r) (\<lambda>_. J) (\<lambda>_. J)"
    and I: "I s" and s: "ServeHTTP env am r s = (res, s')"
  shows "J s'"
proof (cases "rq_TLS r \<and> origin_ok r \<and> \<not> is_asset (rq_Path r)")
  case True
  then have "serve_locked env am r s = (res, s')" using s by (auto simp: ServeHTTP_def origin_ok_def)
  then show ?thesis using serve_locked_keeps[OF J _ _ m I] True by blast
next
  case False
  then have "s' = s" using s by (auto simp: ServeHTTP_def origin_ok_def split: if_splits)
  then show ?thesis using J I by simp
qed

end

section \<open>Changes\<close>

text \<open>What the handlers of an editor do to the state in addition.\<close>

locale editor = handler env am r I for env :: "'h remote_env" and am r I +
  assumes recorded: "I s \<Longrightarrow> I (remote_record now e s)"
    and failed: "I s \<Longrightarrow> I (remote_fail err s)"
    and acting: "I s \<Longrightarrow> I (set_actor name s)"
    and switched: "I s \<Longrightarrow> SetEnabled b now (rm_service s) = (sv, x) \<Longrightarrow> I (s\<lparr>rm_service := sv\<rparr>)"
    and applied: "I s \<Longrightarrow> d_valid doc \<Longrightarrow> ApplyRevision (ro_sha256 env) now (Some doc) n (rm_service s) = (sv, y)
      \<Longrightarrow> I (s\<lparr>rm_service := sv\<rparr>)"
begin

lemma serve_switch_keeps: "triple I (serve_switch env now name op) (\<lambda>_. I) (\<lambda>_. I)"
  unfolding serve_switch_def
  by (intro audited_keeps triple_keepI) (auto split: prod.splits intro: recorded switched)

lemma serve_apply_keeps:
  assumes "d_valid doc"
  shows "triple I (serve_apply env now name base doc) (\<lambda>_. I) (\<lambda>_. I)"
proof (rule triple_keepI)
  fix s res s' assume I: "I s" and s: "serve_apply env now name base doc s = (res, s')"
  obtain sv x where a: "ApplyRevision (ro_sha256 env) now (Some doc) base (rm_service (set_actor name s)) = (sv, x)"
    by (cases "ApplyRevision (ro_sha256 env) now (Some doc) base (rm_service (set_actor name s))")
  have "I ((set_actor name s)\<lparr>rm_service := sv\<rparr>)" by (rule applied[OF acting[OF I] assms a])
  then have I1: "I (s\<lparr>rm_service := sv\<rparr>)" by (simp add: set_actor_def)
  show "I s'"
  proof (cases x)
    case (Inr y)
    then have "s' = remote_record now (control_event (re_Info y) ''apply'' (re_Changed y) ''ok'' []) (set_actor [] (s\<lparr>rm_service := sv\<rparr>))"
      using s a by (simp add: serve_apply_def)
    then show ?thesis using recorded[OF acting[OF I1]] by simp
  next
    case (Inl e)
    show ?thesis
    proof (cases "is_panic e")
      case True
      then show ?thesis using s a I1 Inl by (simp add: serve_apply_def Let_def)
    next
      case False
      define s2 where "s2 = remote_record now (control_event (sn_info (Acquire sv)) ''apply'' False ''rejected''
                       ''managed_apply_failed'') (set_actor [] (s\<lparr>rm_service := sv\<rparr>))"
      have I2: "I s2" unfolding s2_def by (rule recorded[OF acting[OF I1]])
      obtain x where eq: "(if st_poisoned (rm_store s2) then return x (remote_fail e s2)
          else audited env name ''apply'' ''failed'' (return x) s2) = (res, s')"
        using s a False Inl by (simp only: serve_apply_def Let_def prod.case sum.case if_False s2_def[symmetric])
      show ?thesis
      proof (cases "st_poisoned (rm_store s2)")
        case True
        then have "s' = remote_fail e s2" using eq by (simp add: return_def)
        then show ?thesis using failed[OF I2] by simp
      next
        case False
        then have "audited env name ''apply'' ''failed'' (return x) s2 = (res, s')" using eq by simp
        then show ?thesis by (rule triple_state[OF keeps(1)[OF keeps(2)] I2])
      qed
    qed
  qed
qed

end

text \<open>The documents the server applies come from the parser, and are valid.\<close>

lemma remote_document_ok: "remote_document env d s = Inr doc \<Longrightarrow> loaded_ok doc"
  by (auto simp: remote_document_def split: sum.splits if_splits dest: Parse_sound)

lemma serve_draft_cases:
  assumes s: "serve_draft env now name op r s = (res, s')"
  obtains (refused) m outcome where "audited env name op outcome m s = (res, s')" "\<And>s. snd (m s) = s"
  | (panic) "s' = s"
  | (change) base doc where "op \<noteq> ''validate''" "loaded_ok doc" "serve_apply env now name base doc s = (res, s')"
proof (cases "remote_decode (ro_draft_json env) r")
  case (Inl e)
  then show thesis using s refused[of "''invalid_request''" "return (reply 400 (BError e))"]
    by (simp add: serve_draft_def return_def)
next
  case (Inr d)
  let ?view = "\<lambda>s. case configView s of
               Inl e \<Rightarrow> (Inl e, s)
             | Inr view \<Rightarrow> (Inr (reply 409 (BConflict
                 ''Config changed. Compare your draft with the latest active revision.'' view)), s)"
  show thesis
  proof (cases "dr_BaseRevision d = in_Revision (sn_info (Acquire (rm_service s)))")
    case False
    then have "audited env name op ''conflict'' ?view s = (res, s')" using s Inr by (simp add: serve_draft_def)
    then show thesis by (rule refused) (simp split: sum.splits)
  next
    case base: True
    show thesis
    proof (cases "remote_document env d s")
      case (Inl e)
      show thesis
      proof (cases "is_panic e")
        case True
        then show thesis using s Inr base Inl panic by (simp add: serve_draft_def fail_def)
      next
        case False
        then show thesis using s Inr base Inl refused[of "''invalid_config''" "return (reply 422 (BError e))"]
          by (simp add: serve_draft_def return_def)
      qed
    next
      case doc: (Inr doc)
      note ok = remote_document_ok[OF doc]
      show thesis
      proof (cases "op = ''validate''")
        case True
        then show thesis using s Inr base doc refused[of "''ok''" "return (reply 200 (BValid (dr_BaseRevision d)))"]
          by (simp add: serve_draft_def return_def)
      next
        case False
        then show thesis using s Inr base doc change[OF False ok] by (simp add: serve_draft_def)
      qed
    qed
  qed
qed

lemma serve_mutation_cases:
  assumes s: "serve_mutation env now sess r s = (res, s')"
  obtains (nothing) "s' = s"
  | (refused) m op outcome where "audited env (rs_Name sess) op outcome m s = (res, s')" "\<And>s. snd (m s) = s"
  | (switch) "rq_Method r = ''POST''" "rs_Role sess = ''editor''" "rq_Path r \<in> {''/api/enable'', ''/api/disable''}"
      "serve_switch env now (rs_Name sess) (operation (rq_Path r)) s = (res, s')"
  | (change) base doc where "rq_Method r = ''POST''" "rs_Role sess = ''editor''" "rq_Path r = ''/api/apply''" "loaded_ok doc"
      "serve_apply env now (rs_Name sess) base doc s = (res, s')"
proof (cases "rq_Method r \<noteq> ''POST'' \<or> operation (rq_Path r) = ''unknown''")
  case True
  then have "s' = s" using s by (auto simp: serve_mutation_def Let_def return_def)
  then show thesis by (rule nothing)
next
  case post: False
  show thesis
  proof (cases "rs_Role sess = ''editor''")
    case False
    then show thesis using s post refused[of "operation (rq_Path r)" "''forbidden''" "return (problem 403 ''editor role required'')"]
      by (simp add: serve_mutation_def Let_def return_def)
  next
    case role: True
    consider (switch') "operation (rq_Path r) = ''enable'' \<or> operation (rq_Path r) = ''disable''"
      | (draft) "operation (rq_Path r) = ''apply'' \<or> operation (rq_Path r) = ''validate''"
      | (other) "operation (rq_Path r) \<notin> {''enable'', ''disable'', ''apply'', ''validate''}" by blast
    then show thesis
    proof cases
      case switch'
      then have "rq_Path r \<in> {''/api/enable'', ''/api/disable''}" by (auto simp: operation_def split: if_splits)
      moreover have "serve_switch env now (rs_Name sess) (operation (rq_Path r)) s = (res, s')"
        using s post role switch' by (auto simp: serve_mutation_def Let_def)
      ultimately show thesis using switch post role by blast
    next
      case other
      then have "s' = s" using s post role by (simp add: serve_mutation_def Let_def return_def)
      then show thesis by (rule nothing)
    next
      case draft
      then have "serve_draft env now (rs_Name sess) (operation (rq_Path r)) r s = (res, s')"
        using s post role by (auto simp: serve_mutation_def Let_def)
      then show thesis
      proof (cases rule: serve_draft_cases)
        case (change base doc)
        then have "rq_Path r = ''/api/apply''" using draft by (auto simp: operation_def split: if_splits)
        then show thesis using that(4)[OF _ role _ change(2,3)] post by blast
      next
        case panic
        then show thesis by (rule nothing)
      next
        case (refused m outcome)
        then show thesis by (rule that(2))
      qed
    qed
  qed
qed

context editor
begin

lemma request_keeps:
  assumes "I s" "ServeHTTP env am r s = (res, s')"
  shows "I s'"
proof (rule ServeHTTP_keeps[OF _ _ assms])
  fix sess
  show "triple (\<lambda>s. I s \<and> admitted env am r sess s) (serve_mutation env (am_now am) sess r) (\<lambda>_. I) (\<lambda>_. I)"
  proof (rule triple_keepI)
    fix s res s' assume I: "I s \<and> admitted env am r sess s" and "serve_mutation env (am_now am) sess r s = (res, s')"
    from this(2) show "I s'"
    proof (cases rule: serve_mutation_cases)
      case (refused m op outcome)
      have "triple I m (\<lambda>_. I) (\<lambda>_. I)" using refused(2) by (intro triple_keepI) (metis snd_conv)
      then show ?thesis using triple_state[OF keeps(1) _ refused(1)] I by blast
    next
      case switch
      then show ?thesis using triple_state[OF serve_switch_keeps] I by blast
    next
      case (change base doc)
      then show ?thesis using triple_state[OF serve_apply_keeps] I by (auto simp: loaded_ok_def)
    qed (use I in simp)
  qed
qed

end

section \<open>Runs of requests\<close>

definition remote_step :: "'h remote_env \<Rightarrow> ambient \<times> remote_request \<Rightarrow> 'h remote \<Rightarrow> 'h remote" where
  "remote_step env x s = snd (ServeHTTP env (fst x) (snd x) s)"

definition remote_run :: "'h remote_env \<Rightarrow> (ambient \<times> remote_request) list \<Rightarrow> 'h remote \<Rightarrow> 'h remote" where
  "remote_run env reqs s = fold (remote_step env) reqs s"

lemma remote_run_simps [simp]:
  "remote_run env [] s = s" "remote_run env (reqs @ [x]) s = remote_step env x (remote_run env reqs s)"
  by (simp_all add: remote_run_def)

abbreviation managed_hook :: "'h remote_env \<Rightarrow> 'h remote \<Rightarrow> bool" where
  "managed_hook env s \<equiv> sv_persist (rm_service s) = Some (persist_hook (ro_state_json env) (encode_text env))"

lemma remote_New_Inr:
  assumes "remote_New env runID now users st records zero_time doc = Inr s"
  shows "managed_hook env s \<and> rm_sessions s = [] \<and> rm_loginCount s = 0
    \<and> NewManaged (ro_sha256 env) runID now \<lparr>mg_store = st, mg_actor = [], mg_now = now\<rparr> (Some doc)
         (ss_Revision (st_state st)) (Some (persist_hook (ro_state_json env) (encode_text env))) = Inr (rm_service s)"
proof -
  obtain sv where n: "NewManaged (ro_sha256 env) runID now \<lparr>mg_store = st, mg_actor = [], mg_now = now\<rparr> (Some doc)
         (ss_Revision (st_state st)) (Some (persist_hook (ro_state_json env) (encode_text env))) = Inr sv"
    and s: "s = \<lparr>rm_service = sv, rm_records = records, rm_sessions = [], rm_loginWindow = zero_time,
              rm_loginCount = 0, rm_errors = []\<rparr>"
    using assms by (auto simp: remote_New_def split: sum.splits if_splits)
  have "sv_persist sv = Some (persist_hook (ro_state_json env) (encode_text env))"
    using n by (auto simp: NewManaged_def split: sum.splits if_splits)
  then show ?thesis using n s by simp
qed

subsection \<open>The hook stays in place, and the file in step with the service\<close>

lemma consistent_store:
  assumes "mg_store m = mg_store (sv_store sv)"
  shows "consistent marshal encode (sv\<lparr>sv_store := m\<rparr>) \<longleftrightarrow> consistent marshal encode sv"
  using assms by (simp add: managed_ok_def holds_state_def)

interpretation durable: editor env am r
  "\<lambda>s :: 'h remote. consistent (ro_state_json env) (encode_text env) (rm_service s)"
  for env :: "'h remote_env" and am r
proof
  fix s s' :: "'h remote" and actor op outcome res
  assume "consistent (ro_state_json env) (encode_text env) (rm_service s)" "remote_audit env actor op outcome s = (res, s')"
  then show "consistent (ro_state_json env) (encode_text env) (rm_service s')"
    using remote_audit_frame[of env actor op outcome s res s'] audit_step_consistent by auto
next
  fix s :: "'h remote" and doc now n sv y
  assume "consistent (ro_state_json env) (encode_text env) (rm_service s)" "d_valid doc"
    "ApplyRevision (ro_sha256 env) now (Some doc) n (rm_service s) = (sv, y)"
  then show "consistent (ro_state_json env) (encode_text env) (rm_service (s\<lparr>rm_service := sv\<rparr>))"
    using hook.apply_managed_ok[of "ro_state_json env" "encode_text env" "rm_service s" "ro_sha256 env" now doc "Some n" sv y]
    by (simp add: ApplyRevision_def)
next
  fix s :: "'h remote" and b now sv x
  assume "consistent (ro_state_json env) (encode_text env) (rm_service s)" "SetEnabled b now (rm_service s) = (sv, x)"
  then show "consistent (ro_state_json env) (encode_text env) (rm_service (s\<lparr>rm_service := sv\<rparr>))"
    using hook.ctl_step_managed_ok[of "ro_state_json env" "encode_text env" "rm_service s" "OpSetEnabled b now"] by simp
qed (simp_all add: consistent_store set_actor_def login_window_def)

lemma remote_run_consistent:
  "consistent (ro_state_json env) (encode_text env) (rm_service s) \<Longrightarrow>
     consistent (ro_state_json env) (encode_text env) (rm_service (remote_run env reqs s))"
proof (induction reqs rule: rev_induct)
  case (snoc x reqs)
  then show ?case
    using durable.request_keeps[of env "remote_run env reqs s" "fst x" "snd x"] by (auto simp: remote_step_def prod_eq_iff)
qed simp

subsection \<open>Sessions come from logins\<close>

lemma gm_ok_filter [intro]: "gm_ok m \<Longrightarrow> gm_ok (filter p m)"
  unfolding gm_ok_def by (induction m) auto

lemma length_gm_put_le: "length (gm_put k v m) \<le> Suc (length m)"
  by (induction k v m rule: gm_put.induct) auto

definition account_ok :: "'h remote_env \<Rightarrow> (ambient \<times> remote_request) list \<Rightarrow> 'h remote \<Rightarrow> bool" where
  "account_ok env reqs s \<longleftrightarrow> managed_hook env s \<and> gm_ok (rm_sessions s) \<and> length (rm_sessions s) \<le> 256 \<and> rm_loginCount s \<le> 20
     \<and> (\<forall>k x. (k, x) \<in> set (rm_sessions s) \<longrightarrow> (\<exists>y \<in> set reqs. issued env (fst y) (snd y) k x))"

lemma apply_document_persist:
  assumes a: "apply_document sha256 now d expected sv = (sv', y)"
  shows "sv_persist sv' = sv_persist sv"
proof (cases y)
  case (Inl e)
  then show ?thesis using arg_cong[OF apply_document_Inl[OF a[unfolded Inl]], of sv_persist] by simp
next
  case (Inr x)
  from a[unfolded Inr] show ?thesis
  proof (cases rule: apply_document_Inr)
    case same
    then show ?thesis using arg_cong[OF run_persist_frame, of _ _ sv None sv' sv_persist] by simp
  qed simp
qed

interpretation accounts: editor env am r "account_ok env (reqs @ [(am, r)])" for env am r reqs
proof
  fix s s' actor op outcome res
  assume "account_ok env (reqs @ [(am, r)]) s" "remote_audit env actor op outcome s = (res, s')"
  moreover have "sv_persist (rm_service s') = sv_persist (rm_service s)"
    using remote_audit_frame[OF calculation(2)] audit_step_frame[of "ro_state_json env" actor op outcome "rm_service s"]
    by (cases "audit_step (ro_state_json env) actor op outcome (rm_service s)") auto
  ultimately show "account_ok env (reqs @ [(am, r)]) s'"
    using remote_audit_frame[of env actor op outcome s res s'] by (simp add: account_ok_def same_login_def)
next
  fix s keep
  assume "account_ok env (reqs @ [(am, r)]) s"
  then show "account_ok env (reqs @ [(am, r)]) (s\<lparr>rm_sessions := filter keep (rm_sessions s)\<rparr>)"
    using order_trans[OF length_filter_le[of keep "rm_sessions s"]] by (auto simp: account_ok_def)
next
  fix s keep key sess
  assume a: "account_ok env (reqs @ [(am, r)]) s" "length (rm_sessions s) < 256" "issued env am r key sess"
  have "length (gm_put key sess (filter keep (rm_sessions s))) \<le> 256"
    using length_gm_put_le[of key sess "filter keep (rm_sessions s)"] length_filter_le[of keep "rm_sessions s"] a(2) by linarith
  then show "account_ok env (reqs @ [(am, r)]) (s\<lparr>rm_sessions := gm_put key sess (filter keep (rm_sessions s))\<rparr>)"
    using a gm_put_set[of key sess "filter keep (rm_sessions s)"] by (fastforce simp: account_ok_def)
next
  fix s b now sv x
  assume "account_ok env (reqs @ [(am, r)]) s" "SetEnabled b now (rm_service s) = (sv, x)"
  then show "account_ok env (reqs @ [(am, r)]) (s\<lparr>rm_service := sv\<rparr>)"
    by (auto simp: account_ok_def SetEnabled_def Let_def split: if_splits)
next
  fix s doc now n sv y
  assume a: "account_ok env (reqs @ [(am, r)]) s" "ApplyRevision (ro_sha256 env) now (Some doc) n (rm_service s) = (sv, y)"
  have "sv_persist sv = sv_persist (rm_service s)" using apply_document_persist[OF a(2)[unfolded ApplyRevision_def]] .
  then show "account_ok env (reqs @ [(am, r)]) (s\<lparr>rm_service := sv\<rparr>)" using a by (simp add: account_ok_def)
qed (auto simp: account_ok_def login_window_def set_actor_def)

lemma account_ok_more: "account_ok env reqs s \<Longrightarrow> account_ok env (reqs @ [x]) s"
  unfolding account_ok_def by (metis UnCI set_append)

lemma remote_run_accounts:
  assumes "remote_New env runID now users st records zero_time doc = Inr s"
  shows "account_ok env reqs (remote_run env reqs s)"
proof (induction reqs rule: rev_induct)
  case Nil
  show ?case using remote_New_Inr[OF assms] by (simp add: account_ok_def)
next
  case (snoc x reqs)
  obtain am r where x: "x = (am, r)" by (cases x)
  show ?case
    using accounts.request_keeps[OF account_ok_more[OF snoc, of "(am, r)"]]
    by (simp add: x remote_step_def) (metis prod.collapse)
qed

section \<open>Changes are authorised and on record\<close>

definition authorised :: "'h remote_env \<Rightarrow> ambient \<Rightarrow> remote_request \<Rightarrow> string \<Rightarrow> rsession \<Rightarrow> bool" where
  "authorised env am r key sess \<longleftrightarrow> rq_TLS r \<and> rq_Method r = ''POST'' \<and> origin_ok r
     \<and> rq_Path r \<in> {''/api/apply'', ''/api/enable'', ''/api/disable''} \<and> rq_Cookie r = Some key
     \<and> rq_Header r ''X-CSRF-Token'' = rs_CSRF sess \<and> rs_Role sess = ''editor'' \<and> am_now am < rs_Expires sess
     \<and> session_current (readUsers (ro_users_json env) (am_users am)) sess"

definition change_entry :: "ambient \<Rightarrow> remote_request \<Rightarrow> rsession \<Rightarrow> 'h remote \<Rightarrow> audit" where
  "change_entry am r sess s = \<lparr>au_Time = am_now am, au_Actor = rs_Name sess, au_Operation = operation (rq_Path r),
     au_Revision = in_Revision (active_info (rm_service s)), au_Outcome = ''ok''\<rparr>"

definition still :: "'h remote_env \<Rightarrow> ambient \<Rightarrow> remote_request \<Rightarrow> 'h remote \<Rightarrow> 'h remote \<Rightarrow> bool" where
  "still env am r s0 s \<longleftrightarrow> same_active s0 s \<and> managed_hook env s
     \<and> (\<forall>k x. (k, x) \<in> set (rm_sessions s) \<longrightarrow> (k, x) \<in> set (rm_sessions s0) \<or> issued env am r k x)"

definition changed :: "'h remote_env \<Rightarrow> ambient \<Rightarrow> remote_request \<Rightarrow> 'h remote \<Rightarrow> 'h remote \<Rightarrow> bool" where
  "changed env am r s0 s \<longleftrightarrow> same_active s0 s \<or> (\<exists>key sess. (key, sess) \<in> set (rm_sessions s0)
     \<and> authorised env am r key sess \<and> on_record env s (change_entry am r sess s))"

lemma same_active_refl [simp]: "same_active s s"
  by (simp add: same_active_def)

lemma same_active_trans: "same_active a b \<Longrightarrow> same_active b c \<Longrightarrow> same_active a c"
  by (simp add: same_active_def)

lemma remote_audit_hook:
  assumes "remote_audit env actor op outcome s = (res, s')"
  shows "sv_persist (rm_service s') = sv_persist (rm_service s)"
  using remote_audit_frame[OF assms] audit_step_frame[of "ro_state_json env" actor op outcome "rm_service s"]
  by (cases "audit_step (ro_state_json env) actor op outcome (rm_service s)") auto

lemma remote_audit_still:
  assumes "still env am r s0 s" "remote_audit env' actor op outcome s = (res, s')"
  shows "still env am r s0 s'"
  using assms(1) remote_audit_frame[OF assms(2)] remote_audit_hook[OF assms(2)] same_active_trans
  by (fastforce simp: still_def same_login_def)

interpretation changes: handler env am r "still env am r s0" for env am r s0
proof
  fix s keep key sess
  assume "still env am r s0 s" "issued env am r key sess"
  then show "still env am r s0 (s\<lparr>rm_sessions := gm_put key sess (filter keep (rm_sessions s))\<rparr>)"
    using gm_put_set[of key sess "filter keep (rm_sessions s)"] by (fastforce simp: still_def same_active_def)
next
  fix s s' actor op outcome res
  assume "still env am r s0 s" "remote_audit env actor op outcome s = (res, s')"
  then show "still env am r s0 s'" by (rule remote_audit_still)
qed (auto simp: still_def same_active_def login_window_def)

subsection \<open>The switch\<close>

lemma SetEnabled_frame:
  assumes "SetEnabled b now sv = (sv', x)"
  shows "sv_store sv' = sv_store sv \<and> in_Revision (active_info sv') = in_Revision (active_info sv)"
  using assms by (auto simp: SetEnabled_def Let_def split: if_splits)

lemma admitted_authorised:
  assumes "admitted env am r sess s" "still env am r s0 s" "rq_Method r = ''POST''" "rs_Role sess = ''editor''"
    "rq_Path r \<in> {''/api/apply'', ''/api/enable'', ''/api/disable''}"
  obtains key where "(key, sess) \<in> set (rm_sessions s0)" "authorised env am r key sess"
proof -
  obtain key where key: "rq_Cookie r = Some key" "(key, sess) \<in> set (rm_sessions s)"
    using assms(1) by (auto simp: admitted_def)
  have "\<not> issued env am r key sess" using assms(5) by (auto simp: issued_def)
  then show thesis using that[of key] key assms by (auto simp: admitted_def authorised_def still_def)
qed

lemma switch_changed:
  assumes s: "still env am r s0 s" "admitted env am r sess s" "rq_Method r = ''POST''" "rs_Role sess = ''editor''"
    "rq_Path r \<in> {''/api/enable'', ''/api/disable''}"
    and w: "serve_switch env (am_now am) (rs_Name sess) (operation (rq_Path r)) s = (res, s')"
  shows "changed env am r s0 s'"
proof -
  obtain key where key: "(key, sess) \<in> set (rm_sessions s0)" "authorised env am r key sess"
    using admitted_authorised[OF s(2,1,3,4)] s(5) by auto
  obtain b s1 where a: "remote_audit env (rs_Name sess) (operation (rq_Path r)) ''ok'' s = (Inr b, s1)"
    using remote_audit_frame by (metis surj_pair)
  note f = remote_audit_frame[OF a]
  show ?thesis
  proof (cases b)
    case False
    then have "s' = s1" using w a by (simp add: serve_switch_def audited_def andThen_def return_def)
    then show ?thesis using remote_audit_still[OF s(1) a] by (simp add: changed_def still_def)
  next
    case True
    obtain sv x where e: "SetEnabled (operation (rq_Path r) = ''enable'') (am_now am) (rm_service s1) = (sv, x)"
      by (cases "SetEnabled (operation (rq_Path r) = ''enable'') (am_now am) (rm_service s1)")
    have s': "rm_service s' = sv"
      using w a True e by (auto simp: serve_switch_def audited_def andThen_def)
    have rev: "in_Revision (active_info (rm_service s1)) = in_Revision (active_info (rm_service s))"
      using conjunct1[OF f] by (simp add: same_active_def)
    have "on_record env s1 \<lparr>au_Time = mg_now (sv_store (rm_service s)), au_Actor = rs_Name sess,
         au_Operation = operation (rq_Path r), au_Revision = in_Revision (active_info (rm_service s)), au_Outcome = ''ok''\<rparr>"
      using f True by blast
    then have "on_record env s1 (change_entry am r sess s1)"
      using s(2) rev by (simp add: change_entry_def admitted_def)
    then have "on_record env s' (change_entry am r sess s')"
      using SetEnabled_frame[OF e] s' by (simp add: on_record_def change_entry_def)
    then show ?thesis using key by (auto simp: changed_def)
  qed
qed

subsection \<open>Applications\<close>

lemma save_err_state: "save marshal st s = (Some e, s') \<Longrightarrow> st_state s' = st_state s"
  by (cases rule: save_cases[of s marshal st]) auto

lemma persist_hook_err:
  "persist_hook marshal encode doc r m = (Some e, m') \<Longrightarrow> st_state (mg_store m') = st_state (mg_store m)"
  by (auto simp: persist_hook_eq dest: save_err_state split: sum.splits prod.splits)

lemma persist_hook_entry:
  assumes "persist_hook marshal encode doc x m = (None, m')"
  shows "\<not> st_poisoned (mg_store m') \<and> last (ss_Audit (st_state (mg_store m'))) = \<lparr>au_Time = mg_now m, au_Actor = mg_actor m,
      au_Operation = ''apply'', au_Revision = in_Revision (re_Info x), au_Outcome = ''ok''\<rparr>
    \<and> (\<exists>data. marshal (st_state (mg_store m')) = Inr data \<and> st_disk (mg_store m') = Some data)"
proof -
  obtain yml where yml: "encode (d_config doc) = Inr yml"
    using assms by (auto simp: persist_hook_eq split: sum.splits)
  define st where "st = (appendAudit (mg_now m) (st_state (mg_store m)) (mg_actor m) ''apply'' ''ok''
         (in_Revision (re_Info x)))\<lparr>ss_Config := yml, ss_Revision := in_Revision (re_Info x), ss_LastApply := x\<rparr>"
  have "save marshal st (mg_store m) = (None, mg_store m')"
    using assms yml by (auto simp: persist_hook_eq st_def split: prod.splits)
  then show ?thesis
    by (cases rule: save_cases[of "mg_store m" marshal st]) (auto simp: st_def appendAudit_last)
qed

text \<open>The outcome of an application under the hook of the store.\<close>

lemma apply_hook_Inl:
  assumes a: "apply_document sha256 now d expected sv = (sv', Inl e)"
    and p: "sv_persist sv = Some (persist_hook marshal encode)"
  shows "st_state (mg_store (sv_store sv')) = st_state (mg_store (sv_store sv))"
  using a p persist_hook_err[of marshal encode]
  by (fastforce simp: apply_document_def Let_def run_persist_def split: if_splits sum.splits prod.splits option.splits)

lemma apply_hook_Inr:
  assumes a: "apply_document sha256 now (Some doc) expected sv = (sv', Inr x)"
    and p: "sv_persist sv = Some (persist_hook marshal encode)"
  shows "re_Info x = active_info sv' \<and> persist_hook marshal encode doc x (sv_store sv) = (None, sv_store sv')"
  using a
proof (cases rule: apply_document_Inr)
  case (same doc' rv)
  then show ?thesis using hook.run_persist_managed[OF p, of doc x None sv'] run_persist_frame[of doc x sv None sv']
    by (metis ctl_result.select_convs(2) option.inject service.select_convs(1) service.surjective service.update_convs(5))
next
  case (published doc' rv e i' store)
  then show ?thesis using hook.run_persist_managed[OF p, of doc x None "sv\<lparr>sv_store := store\<rparr>"] by simp
qed

lemma apply_changed:
  assumes s: "still env am r s0 s" "admitted env am r sess s" "rq_Method r = ''POST''" "rs_Role sess = ''editor''"
    "rq_Path r = ''/api/apply''"
    and w: "serve_apply env (am_now am) (rs_Name sess) base doc s = (res, s')"
  shows "changed env am r s0 s'"
proof -
  obtain key where key: "(key, sess) \<in> set (rm_sessions s0)" "authorised env am r key sess"
    using admitted_authorised[OF s(2,1,3,4)] s(5) by auto
  define sa where "sa = rm_service (set_actor (rs_Name sess) s)"
  have sa: "sv_persist sa = Some (persist_hook (ro_state_json env) (encode_text env))" "mg_actor (sv_store sa) = rs_Name sess"
    "mg_now (sv_store sa) = am_now am" "sv_active sa = sv_active (rm_service s)" "sv_heap sa = sv_heap (rm_service s)"
    "mg_store (sv_store sa) = rm_store s"
    using s(1,2) by (simp_all add: sa_def set_actor_def still_def admitted_def)
  obtain sv x where a: "ApplyRevision (ro_sha256 env) (am_now am) (Some doc) base sa = (sv, x)"
    by (cases "ApplyRevision (ro_sha256 env) (am_now am) (Some doc) base sa")
  have op: "operation (rq_Path r) = ''apply''" using s(5) by (simp add: operation_def)
  show ?thesis
  proof (cases x)
    case (Inr y)
    have s': "rm_service s' = sv\<lparr>sv_store := (sv_store sv)\<lparr>mg_actor := []\<rparr>\<rparr>"
    proof -
      have "s' = remote_record (am_now am) (control_event (re_Info y) ''apply'' (re_Changed y) ''ok'' []) (set_actor [] (s\<lparr>rm_service := sv\<rparr>))"
        using w a[unfolded sa_def] Inr by (simp add: serve_apply_def)
      then show ?thesis by (simp add: set_actor_def)
    qed
    from apply_hook_Inr[OF a[unfolded ApplyRevision_def Inr] sa(1)] have h: "re_Info y = active_info sv"
      "persist_hook (ro_state_json env) (encode_text env) doc y (sv_store sa) = (None, sv_store sv)" by simp_all
    have "on_record env s' (change_entry am r sess s')"
      using persist_hook_entry[OF h(2)] h(1) sa op s' by (simp add: on_record_def change_entry_def)
    then show ?thesis using key by (auto simp: changed_def)
  next
    case (Inl e)
    have fr: "sv = sa\<lparr>sv_store := sv_store sv\<rparr>"
      using apply_document_Inl[OF a[unfolded ApplyRevision_def Inl]] .
    have "sv_active sv = sv_active sa" "sv_heap sv = sv_heap sa"
      using arg_cong[OF fr, of sv_active] arg_cong[OF fr, of sv_heap] by simp_all
    moreover have "st_state (mg_store (sv_store sv)) = st_state (mg_store (sv_store sa))"
      using apply_hook_Inl[OF a[unfolded ApplyRevision_def Inl] sa(1)] .
    ultimately have quiet: "same_active s t" if "rm_service t = sv \<or> rm_service t = sv\<lparr>sv_store := (sv_store sv)\<lparr>mg_actor := []\<rparr>\<rparr>" for t
      using that sa by (auto simp: same_active_def)
    have "same_active s s'"
    proof (cases "is_panic e")
      case True
      then show ?thesis using w a Inl quiet by (auto simp: serve_apply_def sa_def[symmetric] Let_def)
    next
      case False
      define s2 where "s2 = remote_record (am_now am) (control_event (sn_info (Acquire sv)) ''apply'' False ''rejected''
                       ''managed_apply_failed'') (set_actor [] (s\<lparr>rm_service := sv\<rparr>))"
      have q: "same_active s s2" by (rule quiet) (simp add: s2_def set_actor_def)
      obtain y where eq: "(if st_poisoned (rm_store s2) then return y (remote_fail e s2)
          else audited env (rs_Name sess) ''apply'' ''failed'' (return y) s2) = (res, s')"
        using w a False Inl by (simp only: serve_apply_def sa_def[symmetric] Let_def prod.case sum.case if_False s2_def[symmetric])
      show ?thesis
      proof (cases "st_poisoned (rm_store s2)")
        case True
        then have "s' = remote_fail e s2" using eq by (simp add: return_def)
        then show ?thesis using q by (simp add: same_active_def)
      next
        case False
        obtain b s3 where a: "remote_audit env (rs_Name sess) ''apply'' ''failed'' s2 = (Inr b, s3)"
          using remote_audit_frame by (metis surj_pair)
        have "s' = s3" using eq False a by (auto simp: audited_def andThen_def return_def split: if_splits)
        then show ?thesis using remote_audit_frame[OF a] same_active_trans[OF q] by simp
      qed
    qed
    then show ?thesis using s(1) same_active_trans by (auto simp: changed_def still_def)
  qed
qed

lemma request_changed:
  assumes "managed_hook env s" "ServeHTTP env am r s = (res, s')"
  shows "changed env am r s s'"
proof (rule changes.ServeHTTP_keeps[where s0 = s and s = s, OF _ _ _ assms(2)])
  show "still env am r s s" using assms(1) by (simp add: still_def)
  show "changed env am r s t" if "still env am r s t" for t using that by (simp add: still_def changed_def)
  show "triple (\<lambda>t. still env am r s t \<and> admitted env am r sess t) (serve_mutation env (am_now am) sess r)
      (\<lambda>_. changed env am r s) (\<lambda>_. changed env am r s)" for sess
  proof (rule triple_keepI)
    fix t res s' assume t: "still env am r s t \<and> admitted env am r sess t"
      and m: "serve_mutation env (am_now am) sess r t = (res, s')"
    from m show "changed env am r s s'"
    proof (cases rule: serve_mutation_cases)
      case (refused m op outcome)
      obtain b s1 where a: "remote_audit env (rs_Name sess) op outcome t = (Inr b, s1)"
        using remote_audit_frame by (metis surj_pair)
      have "s' = s1" using refused a by (auto simp: audited_def andThen_def return_def split: if_splits) (metis snd_conv)
      then show ?thesis using remote_audit_still[OF _ a] t by (auto simp: still_def changed_def)
    next
      case switch
      then show ?thesis using switch_changed t by blast
    next
      case (change base doc)
      then show ?thesis using apply_changed t by blast
    qed (use t in \<open>simp add: still_def changed_def\<close>)
  qed
qed

section \<open>The rate of logins\<close>

text \<open>An answer that tells whether a name and a password fit together.\<close>

definition reveals :: "remote_request \<Rightarrow> response result \<Rightarrow> bool" where
  "reveals r res \<longleftrightarrow> rq_Path r = ''/api/login'' \<and> rq_Method r = ''POST''
     \<and> (case res of Inl _ \<Rightarrow> False | Inr resp \<Rightarrow> rp_Status resp \<in> {200, 401} \<or> rp_Body resp = BError (Err ''session limit reached''))"

fun remote_answers :: "'h remote_env \<Rightarrow> (ambient \<times> remote_request) list \<Rightarrow> 'h remote \<Rightarrow> response result list" where
  "remote_answers env [] s = []"
| "remote_answers env (x # reqs) s =
     fst (ServeHTTP env (fst x) (snd x) s) # remote_answers env reqs (remote_step env x s)"

definition login_state :: "instant \<Rightarrow> nat \<Rightarrow> 'h remote \<Rightarrow> bool" where
  "login_state w n s \<longleftrightarrow> rm_loginWindow s = w \<and> rm_loginCount s = n"

lemma audited_login_state:
  assumes "triple (login_state w n) m (\<lambda>_. login_state w n) (\<lambda>_. login_state w n)"
  shows "triple (login_state w n) (audited env actor op outcome m) (\<lambda>_. login_state w n) (\<lambda>_. login_state w n)"
  by (rule triple_audited[where P' = "login_state w n" and P'' = "login_state w n", OF _ assms])
    (auto dest!: remote_audit_frame simp: login_state_def same_login_def)

lemma open_session_login_state:
  "triple (login_state w n) (open_session am r name u) (\<lambda>_. login_state w n) (\<lambda>_. login_state w n)"
  by (rule triple_keepI) (auto simp: login_state_def open_session_def Let_def)

lemma login_counts:
  fixes s0 :: "'h remote"
  assumes l: "login env am r s0 = (res, s')"
  defines "s \<equiv> login_window (am_now am) s0"
  shows "if rm_loginCount s \<ge> 20 then s' = s \<and> \<not> reveals r res
    else login_state (rm_loginWindow s) (rm_loginCount s + 1) s'"
proof (cases "rm_loginCount s \<ge> 20")
  case True
  then show ?thesis using l by (auto simp: login_def Let_def s_def reveals_def problem_def reply_def)
next
  case False
  define s1 where "s1 = s\<lparr>rm_loginCount := rm_loginCount s + 1\<rparr>"
  define L where "L = (login_state (rm_loginWindow s) (rm_loginCount s + 1) :: 'h remote \<Rightarrow> bool)"
  have ret: "triple L (return x) (\<lambda>_. L) (\<lambda>_. L)" for x :: response by (rule triple_return)
  have au: "triple L (audited env actor op outcome m) (\<lambda>_. L) (\<lambda>_. L)" if "triple L m (\<lambda>_. L) (\<lambda>_. L)" for actor op outcome m
    using that unfolding L_def by (rule audited_login_state)
  have op: "triple L (open_session am r name u) (\<lambda>_. L) (\<lambda>_. L)" for name u
    unfolding L_def by (rule open_session_login_state)
  let ?m = "case remote_decode (ro_login_json env) r of
           Inl _ \<Rightarrow> return (problem 400 ''invalid login request'')
         | Inr (name, password) \<Rightarrow>
             if length password > 1024 then return (problem 400 ''invalid login request'')
             else
               let users = readUsers (ro_users_json env) (am_users am); u = lookup_user users name in
               if (case users of Inl _ \<Rightarrow> True | Inr _ \<Rightarrow> False) \<or> \<not> verifyPassword (ro_pbkdf2 env) u password
               then audited env ''anonymous'' ''login'' ''rejected'' (return (problem 401 ''invalid username or password''))
               else if length (rm_sessions s1) \<ge> 256 then return (problem 503 ''session limit reached'')
               else audited env name ''login'' ''ok'' (open_session am r name u)"
  have t: "triple L ?m (\<lambda>_. L) (\<lambda>_. L)"
    by (auto simp: Let_def intro!: ret au op split: sum.split)
  have "login env am r s0 = ?m s1"
    using False by (simp only: login_def Let_def s_def[symmetric] s1_def[symmetric] if_False)
  then have "?m s1 = (res, s')" using l by simp
  then have "L s'" by (rule triple_state[OF t, rotated]) (simp add: L_def login_state_def s1_def)
  then show ?thesis using False by (simp add: L_def)
qed

interpretation logins: editor env am r "\<lambda>s. rq_Path r = ''/api/login'' \<and> rq_Method r = ''POST'' \<or> login_state w n s"
  for env am r w n
proof
  fix s s' actor op outcome res
  assume "rq_Path r = ''/api/login'' \<and> rq_Method r = ''POST'' \<or> login_state w n s" "remote_audit env actor op outcome s = (res, s')"
  then show "rq_Path r = ''/api/login'' \<and> rq_Method r = ''POST'' \<or> login_state w n s'"
    by (auto dest!: remote_audit_frame simp: login_state_def same_login_def)
qed (auto simp: login_state_def set_actor_def issued_def)

lemma request_login_state:
  assumes s: "ServeHTTP env am r s = (res, s')"
  shows "(login_state (rm_loginWindow s) (rm_loginCount s) s' \<and> \<not> reveals r res)
    \<or> (\<exists>s1. s1 = login_window (am_now am) s \<and> (if rm_loginCount s1 \<ge> 20
          then login_state (rm_loginWindow s1) (rm_loginCount s1) s' \<and> \<not> reveals r res
          else login_state (rm_loginWindow s1) (rm_loginCount s1 + 1) s'))"
proof (cases "rq_Path r = ''/api/login'' \<and> rq_Method r = ''POST''")
  case False
  then have "login_state (rm_loginWindow s) (rm_loginCount s) s'"
    using logins.request_keeps[of r "rm_loginWindow s" "rm_loginCount s" s env am res s'] s by (auto simp: login_state_def)
  then show ?thesis using False by (auto simp: reveals_def)
next
  case post: True
  show ?thesis
  proof (cases "rq_TLS r \<and> origin_ok r \<and> \<not> st_poisoned (rm_store s)")
    case False
    have "s' = s \<and> \<not> reveals r res"
      using s False post
      by (auto simp: ServeHTTP_def origin_ok_def is_asset_def serve_locked_def reveals_def problem_def reply_def split: if_splits)
    then show ?thesis by (simp add: login_state_def)
  next
    case True
    define s1 where "s1 = expire_sessions (am_now am)
     (s\<lparr>rm_service := (rm_service s)\<lparr>sv_store := (sv_store (rm_service s))\<lparr>mg_now := am_now am\<rparr>\<rparr>\<rparr>)"
    have "serve_locked env am r s = (res, s')"
      using s True post by (auto simp: ServeHTTP_def origin_ok_def is_asset_def)
    then have l: "login env am r s1 = (res, s')" using True post by (simp add: serve_locked_def s1_def)
    have w: "rm_loginWindow (login_window (am_now am) s1) = rm_loginWindow (login_window (am_now am) s)"
      "rm_loginCount (login_window (am_now am) s1) = rm_loginCount (login_window (am_now am) s)"
      by (simp_all add: s1_def expire_sessions_def login_window_def)
    show ?thesis using login_counts[OF l] w by (auto simp: login_state_def split: if_splits)
  qed
qed

text \<open>
  How many answers the state still allows before the minute that starts at \<open>t\<close> is over: those left in
  the current window, and those of one more window if the current one began earlier.
\<close>

definition room :: "instant \<Rightarrow> 'h remote \<Rightarrow> int" where
  "room t s = (if rm_loginWindow s \<ge> t then 20 else 40) - int (rm_loginCount s)"

lemma request_room:
  assumes "ServeHTTP env am r s = (res, s')" "rm_loginCount s \<le> 20" "t \<le> am_now am" "am_now am < t + 60 * 10 ^ 9"
  shows "(if reveals r res then 1 else 0) + room t s' \<le> room t s \<and> rm_loginCount s' \<le> 20"
  using request_login_state[OF assms(1)] assms(2-4)
  by (auto simp: login_state_def room_def login_window_def split: if_splits)

lemma answers_room:
  assumes "rm_loginCount s \<le> 20" "\<forall>x \<in> set reqs. t \<le> am_now (fst x) \<and> am_now (fst x) < t + 60 * 10 ^ 9"
  shows "int (length (filter (\<lambda>(x, res). reveals (snd x) res) (zip reqs (remote_answers env reqs s)))) \<le> room t s"
  using assms
proof (induction reqs arbitrary: s)
  case Nil
  then show ?case by (auto simp: room_def)
next
  case (Cons x reqs)
  obtain res s' where s: "ServeHTTP env (fst x) (snd x) s = (res, s')" by (cases "ServeHTTP env (fst x) (snd x) s")
  have "(if reveals (snd x) res then 1 else 0) + room t s' \<le> room t s \<and> rm_loginCount s' \<le> 20"
    using request_room[OF s, of t] Cons.prems by simp
  then show ?case using Cons.IH[of s'] Cons.prems s by (auto simp: remote_step_def split: if_splits)
qed

end
