(* ===== verification/Remote_Properties.thy ===== *)
theory Remote_Properties
  imports Remote_Correct
begin

text \<open>
  The properties of the managed server, of the accounts and of the local administration server.
\<close>

section \<open>A sample server\<close>

definition demo_users :: "user gomap" where
  "demo_users = [(''ed'', \<lparr>us_Role = ''editor'', us_Salt = ''00112233445566778899aabbccddeeff'', us_Hash = ''2a''\<rparr>)]"

definition demo_remote_env :: "(config \<times> digests) remote_env" where
  "demo_remote_env = \<lparr>ro_sha256 = demo_sha256, ro_pbkdf2 = (\<lambda>password salt n len. if password = ''secret'' then [42] else []), ro_load = demo_load,
     ro_node = (\<lambda>c. Inr (YNode YDocument [] [] [])), ro_yaml = (\<lambda>n. Inr []), ro_state_json = demo_marshal,
     ro_users_json = (\<lambda>data. Inr (Some demo_users)), ro_login_json = (\<lambda>data. \<lparr>js_value = Some (''ed'', ''secret''), js_more = False\<rparr>),
     ro_draft_json = (\<lambda>data. \<lparr>js_value = None, js_more = False\<rparr>), ro_dir = ''/var''\<rparr>"

definition demo_store :: store where
  "demo_store = \<lparr>st_state = demo_state\<lparr>ss_Config := []\<rparr>, st_poisoned = False, st_disk = Some (put_le64 1), st_results = []\<rparr>"

definition demo_ambient :: "instant \<Rightarrow> ambient" where
  "demo_ambient now = \<lparr>am_now = now, am_users = Inr [], am_listeners = [], am_token = ''token'', am_csrf = ''csrf''\<rparr>"

definition demo_post :: "string \<Rightarrow> remote_request" where
  "demo_post path = \<lparr>rq_Method = ''POST'', rq_Path = path, rq_Header = (\<lambda>h. if h = ''Content-Type'' then ''application/json''
       else if h = ''X-CSRF-Token'' then ''csrf'' else []), rq_TLS = True, rq_Host = ''h'', rq_Cookie = Some ''token'', rq_Body = []\<rparr>"

definition demo_remote :: "(config \<times> digests) remote" where
  "demo_remote = (case remote_New demo_remote_env ''run'' 5 (Inr []) demo_store (recorder_New 10) (-(10 ^ 18)) demo_document of Inr s \<Rightarrow> s)"

lemma demo_remote_New:
  "remote_New demo_remote_env ''run'' 5 (Inr []) demo_store (recorder_New 10) (-(10 ^ 18)) demo_document = Inr demo_remote"
  by (simp add: demo_remote_def remote_New_def readUsers_def demo_remote_env_def demo_users_def demo_store_def demo_state_def
      NewManaged_def control_New_def demo_New)

lemma demo_remote_parts:
  "sv_active (rm_service demo_remote) = \<lparr>sn_info = \<lparr>in_RunID = ''run'', in_Revision = 1, in_Enabled = False,
     in_ControlSequence = 0, in_AppliedAt = 5, in_StateChangedAt = 5\<rparr>, sn_revision = 0\<rparr>"
  "sv_store (rm_service demo_remote) = \<lparr>mg_store = demo_store, mg_actor = [], mg_now = 5\<rparr>"
  "rm_sessions demo_remote = []" "rm_loginWindow demo_remote = -(10 ^ 18)" "rm_loginCount demo_remote = 0"
  by (simp_all add: demo_remote_def remote_New_def readUsers_def demo_remote_env_def demo_users_def demo_store_def demo_state_def
      NewManaged_def control_New_def demo_New)

lemma demo_verify: "verifyPassword (ro_pbkdf2 demo_remote_env) (snd (hd demo_users)) ''secret''"
  by (simp add: demo_remote_env_def demo_users_def verifyPassword_def passwordHash_def eval_simps hex_encode_def hex_digit_def hex_value_def is_digit_def)

lemmas demo_remote_defs = demo_remote_env_def demo_ambient_def demo_post_def ServeHTTP_def is_asset_def serve_locked_def expire_sessions_def
  login_def login_window_def remote_decode_def readUsers_def lookup_user_def audited_def remote_audit_def audit_step_def
  store_audit_def save_def appendAudit_def auditLimit_def demo_marshal_def atomicFile_def no_failure_def andThen_def return_def
  open_session_def demo_store_def demo_state_def

lemma demo_login:
  "\<exists>s. snd (ServeHTTP demo_remote_env (demo_ambient 10) (demo_post ''/api/login'') demo_remote) = s
     \<and> rm_sessions s = [(''token'', \<lparr>rs_Name = ''ed'', rs_Role = ''editor'', rs_Hash = ''2a'', rs_CSRF = ''csrf'', rs_Expires = 10 + 8 * 60 * 60 * 10 ^ 9\<rparr>)]
     \<and> sv_active (rm_service s) = sv_active (rm_service demo_remote) \<and> \<not> st_poisoned (rm_store s) \<and> st_results (rm_store s) = []"
  using demo_verify
  by (simp add: demo_remote_defs demo_remote_parts Let_def demo_users_def gm_delete_def)

lemma demo_switch:
  "\<exists>s'. snd (ServeHTTP demo_remote_env (demo_ambient 11) (demo_post ''/api/enable'')
       (remote_run demo_remote_env [(demo_ambient 10, demo_post ''/api/login'')] demo_remote)) = s'
     \<and> in_Enabled (active_info (rm_service s'))"
proof -
  obtain s where s: "snd (ServeHTTP demo_remote_env (demo_ambient 10) (demo_post ''/api/login'') demo_remote) = s"
    "rm_sessions s = [(''token'', \<lparr>rs_Name = ''ed'', rs_Role = ''editor'', rs_Hash = ''2a'', rs_CSRF = ''csrf'', rs_Expires = 10 + 8 * 60 * 60 * 10 ^ 9\<rparr>)]"
    "sv_active (rm_service s) = sv_active (rm_service demo_remote)" "\<not> st_poisoned (rm_store s)" "st_results (rm_store s) = []"
    using demo_login by blast
  have "remote_run demo_remote_env [(demo_ambient 10, demo_post ''/api/login'')] demo_remote = s"
    using s(1) by (simp add: remote_run_def remote_step_def)
  then show ?thesis
    using s(2-5) by (simp add: demo_remote_defs demo_remote_parts Let_def demo_users_def serve_authenticated_def lookup_session_def
        session_current_def serve_session_def serve_mutation_def serve_switch_def operation_def SetEnabled_def)
qed

lemma NewManaged_store: "NewManaged sha256 runID now st d n p = Inr sv \<Longrightarrow> sv_store sv = st"
  by (auto simp: NewManaged_def control_New_def split: sum.splits if_splits)

section \<open>The properties of the managed server\<close>

text \<open>C17. No change without an editor: when a request changes the active snapshot, a revision, or the
  configuration or revision of the state, then it came over TLS, by POST, from the same origin, with the
  cookie and the CSRF token of a session that has not expired; an earlier request of the run opened
  this session by a login whose password was verified; the account still exists with the same hash and
  the role editor; and the change is the last entry of the audit list, which is on the disk.\<close>

theorem remote_change_authorised:
  assumes "remote_New env runID start users st records zero_time doc = Inr s0"
    and "ServeHTTP env am r (remote_run env reqs s0) = (res, s')" "\<not> same_active (remote_run env reqs s0) s'"
  shows "\<exists>am0 r0 key sess. (am0, r0) \<in> set reqs \<and> issued env am0 r0 key sess \<and> authorised env am r key sess
    \<and> on_record env s' (change_entry am r sess s')"
proof -
  have ok: "account_ok env reqs (remote_run env reqs s0)" by (rule remote_run_accounts[OF assms(1)])
  then obtain key sess where k: "(key, sess) \<in> set (rm_sessions (remote_run env reqs s0))" "authorised env am r key sess"
    "on_record env s' (change_entry am r sess s')"
    using request_changed[OF _ assms(2)] assms(3) by (auto simp: account_ok_def changed_def)
  then obtain x where "x \<in> set reqs" "issued env (fst x) (snd x) key sess" using ok unfolding account_ok_def by blast
  then show ?thesis using k by (metis prod.collapse)
qed

theorem remote_change_authorised_witness:
  "\<exists>s' am0 r0 key sess. snd (ServeHTTP demo_remote_env (demo_ambient 11) (demo_post ''/api/enable'')
       (remote_run demo_remote_env [(demo_ambient 10, demo_post ''/api/login'')] demo_remote)) = s'
     \<and> (am0, r0) \<in> set [(demo_ambient 10, demo_post ''/api/login'')] \<and> issued demo_remote_env am0 r0 key sess
     \<and> authorised demo_remote_env (demo_ambient 11) (demo_post ''/api/enable'') key sess"
proof -
  let ?s = "remote_run demo_remote_env [(demo_ambient 10, demo_post ''/api/login'')] demo_remote"
  obtain res s' where r: "ServeHTTP demo_remote_env (demo_ambient 11) (demo_post ''/api/enable'') ?s = (res, s')"
    by (cases "ServeHTTP demo_remote_env (demo_ambient 11) (demo_post ''/api/enable'') ?s")
  have "sv_active (rm_service ?s) = sv_active (rm_service demo_remote)"
    using demo_login by (simp add: remote_run_def remote_step_def)
  then have "\<not> same_active ?s s'" using demo_switch r by (auto simp: same_active_def demo_remote_parts)
  from remote_change_authorised[OF demo_remote_New r this] r show ?thesis by auto
qed





section \<open>Accounts\<close>

lemma hex_value_digit: "n < 16 \<Longrightarrow> hex_value (hex_digit n) = Some n"
  by (auto simp: hex_value_def hex_digit_def is_digit_def chr_code_def)

lemma hex_decode_encode: "hex_decode (hex_encode b) = Some b"
proof (induction b)
  case (Cons x b)
  have u: "unat x < 256" using unsigned_less[of x, where 'a = nat] by simp
  then have "hex_value (hex_digit (unat x div 16)) = Some (unat x div 16)" "hex_value (hex_digit (unat x mod 16)) = Some (unat x mod 16)"
    by (auto intro!: hex_value_digit)
  then show ?case using Cons u by (simp add: hex_encode_def)
qed (simp add: hex_encode_def)

text \<open>C20. An account that \<open>SetUser\<close> has written can log in: when it reports no error, the file holds the account under
  its name with the given role, the password verifies against it, and every other account is as it was.
  Decoding is assumed to invert encoding on the accounts.\<close>

theorem set_user_verifies:
  assumes "SetUser unmarshal marshal pbkdf2 af name role password False content = (None, content')"
    and "\<And>salt. af_salt af = Inr salt \<Longrightarrow> length salt = 16"
    and "\<And>users data. marshal users = Inr data \<Longrightarrow> unmarshal data = Inr (Some users)"
  shows "\<exists>data users u before. content' = Some data \<and> readUsers unmarshal (Inr data) = Inr users \<and> map_of users name = Some u
    \<and> us_Role u = role \<and> verifyPassword pbkdf2 u password
    \<and> (case content of None \<Rightarrow> before = [] | Some old \<Rightarrow> readUsers unmarshal (Inr old) = Inr before)
    \<and> (\<forall>other. other \<noteq> name \<longrightarrow> map_of users other = map_of before other)"
proof -
  obtain before salt where b: "(case content of None \<Rightarrow> Inr [] | Some data \<Rightarrow> readUsers unmarshal (Inr data)) = Inr before"
    "af_salt af = Inr salt" "role = ''viewer'' \<or> role = ''editor''"
    and w: "write_users marshal (af_write af) (gm_put name \<lparr>us_Role = role, us_Salt = hex_encode salt,
        us_Hash = passwordHash pbkdf2 password salt\<rparr> before) content = (None, content')"
    using assms(1) by (auto simp: SetUser_def split: if_splits sum.splits)
  let ?u = "\<lparr>us_Role = role, us_Salt = hex_encode salt, us_Hash = passwordHash pbkdf2 password salt\<rparr>"
  obtain data where d: "marshal (gm_put name ?u before) = Inr data" "content' = Some data"
    using w by (auto simp: write_users_def atomicFile_def Let_def split: sum.splits if_splits)
  have r: "readUsers unmarshal (Inr data) = Inr (gm_put name ?u before)" using assms(3)[OF d(1)] by (simp add: readUsers_def)
  have v: "verifyPassword pbkdf2 ?u password"
    using assms(2)[OF b(2)] b(3) by (simp add: verifyPassword_def hex_decode_encode Let_def)
  have "case content of None \<Rightarrow> before = [] | Some old \<Rightarrow> readUsers unmarshal (Inr old) = Inr before"
    using b(1) by (auto split: option.splits)
  with d(2) r v show ?thesis by (intro exI[of _ data] exI[of _ "gm_put name ?u before"] exI[of _ ?u] exI[of _ before]) simp
qed

definition demo_files :: account_files where
  "demo_files = \<lparr>af_private = None, af_lock = None, af_flock = None, af_salt = Inr (replicate 16 7), af_write = no_failure\<rparr>"

theorem set_user_verifies_witness:
  "\<exists>u. us_Role u = ''viewer'' \<and> verifyPassword (\<lambda>password salt n len. salt) u ''correct horse''"
proof -
  define users where "users = [(''ann'', \<lparr>us_Role = ''viewer'', us_Salt = hex_encode (replicate 16 7), us_Hash = hex_encode (replicate 16 7)\<rparr>)]"
  define marshal where "marshal = (\<lambda>us. if us = users then Inr [1] else Inl EOF :: bytes result)"
  define unmarshal where "unmarshal = (\<lambda>data :: bytes. Inr (Some users) :: user gomap option result)"
  have "SetUser unmarshal marshal (\<lambda>password salt n len. salt) demo_files ''ann'' ''viewer'' ''correct horse'' False None = (None, Some [1])"
    by (simp add: SetUser_def userName_def userName_char_def is_lower_def chr_code_def demo_files_def write_users_def marshal_def users_def
        passwordHash_def atomicFile_def no_failure_def)
  moreover have "length salt = 16" if "af_salt demo_files = Inr salt" for salt using that by (auto simp: demo_files_def)
  moreover have "unmarshal data = Inr (Some us)" if "marshal us = Inr data" for us data
    using that by (auto simp: marshal_def unmarshal_def split: if_splits)
  ultimately show ?thesis using set_user_verifies by blast
qed

section \<open>The local administration server\<close>

lemma Apply_Inl: "Apply sha256 now d sv = (sv', Inl e) \<Longrightarrow> sv' = sv"
  by (auto simp: Apply_def apply_document_def Let_def run_persist_def split: if_splits sum.splits prod.splits option.splits)

lemma Apply_Inr: "Apply sha256 now d sv = (sv', Inr res) \<Longrightarrow> re_Info res = active_info sv'"
  by (auto simp: Apply_def apply_document_def Let_def run_persist_def split: if_splits sum.splits prod.splits option.splits)

text \<open>C21. The local server: it changes the service only on a POST to one of its three operations, without an origin and
  not in managed mode, and whatever it did is recorded as a control event with the active information
  and whether something changed. A reload changes it only to the document that \<open>Load\<close> returned for the
  absolute path in the request, which is a valid document.\<close>

theorem admin_changes:
  assumes "admin_handle sha256 env now listeners r s = (Inr resp, s')" "ad_service s' \<noteq> ad_service s"
  shows "rq_Method r = ''POST'' \<and> rq_Header r ''Origin'' = [] \<and> \<not> ad_readOnly s
    \<and> (\<exists>res. resp = AdminResult res \<and> re_Info res = active_info (ad_service s')
        \<and> ad_recorder s' = Record now (control_event (active_info (ad_service s')) (tl (rq_Path r)) (re_Changed res) ''ok'' []) (ad_recorder s)
        \<and> (rq_Path r \<in> {''/enable'', ''/disable''} \<and> SetEnabled (rq_Path r = ''/enable'') now (ad_service s) = (ad_service s', res)
           \<or> rq_Path r = ''/reload'' \<and> (\<exists>path doc. js_value (rq_Config r) = Some path \<and> isAbs path \<and> Load env path = Inr doc
               \<and> loaded_ok doc \<and> Apply sha256 now (Some doc) (ad_service s) = (ad_service s', Inr res))))"
proof -
  obtain path where h: "rq_Method r = ''POST''" "rq_Header r ''Origin'' = []" "\<not> ad_readOnly s"
    "rq_Path r \<in> {''/enable'', ''/disable'', ''/reload''}" "(if rq_Path r = ''/reload'' then reload_request (rq_Config r) else Inr []) = Inr path"
    "admin_operate sha256 env now (tl (rq_Path r)) path s = (Inr resp, s')"
    using assms by (auto simp: admin_handle_def split: if_splits sum.splits)
  show ?thesis
  proof (cases "rq_Path r = ''/reload''")
    case False
    obtain sv res where e: "SetEnabled (rq_Path r = ''/enable'') now (ad_service s) = (sv, res)"
      by (cases "SetEnabled (rq_Path r = ''/enable'') now (ad_service s)")
    have op: "(tl (rq_Path r) = ''enable'') = (rq_Path r = ''/enable'')" "tl (rq_Path r) \<noteq> ''reload''" using h(4) False by auto
    have i: "re_Info res = active_info sv" using e by (auto simp: SetEnabled_def Let_def split: if_splits)
    have "resp = AdminResult res" "s' = s\<lparr>ad_service := sv, ad_recorder := Record now (control_event (re_Info res) (tl (rq_Path r)) (re_Changed res) ''ok'' []) (ad_recorder s)\<rparr>"
      using h(6) op e by (auto simp: admin_operate_def)
    then show ?thesis using h(1-4) False e i by auto
  next
    case True
    have c: "js_value (rq_Config r) = Some path" "isAbs path"
      using h(5) True by (auto simp: reload_request_def split: option.splits if_splits)
    obtain sv x where l: "reload_document sha256 now (Load env path) (ad_service s) = (sv, x)"
      by (cases "reload_document sha256 now (Load env path) (ad_service s)")
    have op: "admin_operate sha256 env now ''reload'' path s = (Inr resp, s')" using h(6) True by simp
    obtain res where res: "x = Inr res"
    proof (cases x)
      case (Inl e)
      then have "sv = ad_service s" using l Apply_Inl by (auto simp: reload_document_def split: sum.splits)
      then have "ad_service s' = ad_service s" using op l Inl by (auto simp: admin_operate_def Let_def split: if_splits)
      then show thesis using assms(2) by simp
    qed
    have s': "resp = AdminResult res" "s' = s\<lparr>ad_service := sv, ad_recorder := Record now (control_event (re_Info res) ''reload'' (re_Changed res) ''ok'' []) (ad_recorder s)\<rparr>"
      using op l res by (auto simp: admin_operate_def)
    obtain doc where doc: "Load env path = Inr doc" "Apply sha256 now (Some doc) (ad_service s) = (sv, Inr res)"
      using l res by (auto simp: reload_document_def split: sum.splits)
    have "loaded_ok doc" "re_Info res = active_info sv" using Load_sound[OF doc(1)] Apply_Inr[OF doc(2)] by simp_all
    then show ?thesis using h(1-3) True s' c doc by (simp add: exI[of _ path])
  qed
qed

theorem admin_changes_witness:
  "\<exists>s'. admin_handle demo_sha256 demo_load 9 []
       \<lparr>rq_Method = ''POST'', rq_Path = ''/enable'', rq_Header = (\<lambda>h. []), rq_Canceled = False, rq_Config = \<lparr>js_value = None, js_more = False\<rparr>\<rparr>
       \<lparr>ad_service = demo_service, ad_recorder = recorder_New 1, ad_readOnly = False\<rparr>
     = (Inr (AdminResult \<lparr>re_Changed = True, re_Info = active_info (ad_service s')\<rparr>), s')"
proof -
  let ?r = "\<lparr>rq_Method = ''POST'', rq_Path = ''/enable'', rq_Header = (\<lambda>h. []), rq_Canceled = False, rq_Config = \<lparr>js_value = None, js_more = False\<rparr>\<rparr>"
  let ?s = "\<lparr>ad_service = demo_service, ad_recorder = recorder_New 1, ad_readOnly = False\<rparr>"
  obtain res s' where h: "admin_handle demo_sha256 demo_load 9 [] ?r ?s = (Inr (AdminResult res), s')"
    and c: "ad_service s' \<noteq> ad_service ?s" "re_Changed res"
    by (simp add: admin_handle_def admin_operate_def SetEnabled_def demo_service_def Let_def)
  show ?thesis using admin_changes[OF h c(1)] h c(2) by (cases res) auto
qed

end
