(* ===== verification/Tcp.thy ===== *)
theory Tcp
  imports Session
begin

text \<open>
  The TCP proxy of \<open>src/internal/proxy/tcp/server.go\<close>: the beginning of a flow, the state of its fault, and the two
  goroutines that copy bytes, which share the fault with each other, with its timers and with the
  goroutine that serves the flow. A flow is a transition system: a goroutine is at a location of its
  code, and a move takes one of them past one access to shared state. Results of \<open>Read\<close> and \<open>Write\<close>, and
  whether a wait ended or was cancelled, are inputs of the moves.
\<close>

section \<open>Events\<close>

definition tcp_start_event :: "info \<Rightarrow> string \<Rightarrow> string \<Rightarrow> instant \<Rightarrow> event" where
  "tcp_start_event i flowID proxyID now = (new_event i ''flow_started'')\<lparr>ev_FlowID := flowID, ev_ProxyID := proxyID,
     ev_Protocol := ''tcp'', ev_StartedAt := now\<rparr>"

definition tcp_decision_event :: "decision \<Rightarrow> event \<Rightarrow> event" where
  "tcp_decision_event d e = e\<lparr>ev_Type := ''decision'', ev_RuleID := de_RuleID d,
     ev_EligibleSequence := de_EligibleSequence d, ev_Selected := de_Selected d,
     ev_Phase := f_Phase (de_Fault d), ev_Action := f_Action (de_Fault d),
     ev_Probability := s_Probability (de_Selector d), ev_Nth := s_Nth (de_Selector d),
     ev_Every := s_Every (de_Selector d), ev_Selector := selector_name (de_Selector d) (ev_Selector e)\<rparr>"

definition appliedEvent :: "event \<Rightarrow> event" where
  "appliedEvent e = e\<lparr>ev_Type := ''fault_applied'', ev_Reached := True, ev_Applied := True\<rparr>"

definition tcp_finish_event :: "event \<Rightarrow> bool \<Rightarrow> string \<Rightarrow> instant \<Rightarrow> int \<Rightarrow> int \<Rightarrow> event" where
  "tcp_finish_event e applied outcome now clientBytes upstreamBytes =
     e\<lparr>ev_Reached := applied, ev_Applied := applied, ev_Type := ''flow_finished'', ev_FinishedAt := now, ev_Outcome := outcome,
       ev_NotReached := (ev_Selected e \<and> \<not> applied), ev_ClientBytes := clientBytes, ev_UpstreamBytes := upstreamBytes\<rparr>"

section \<open>State\<close>

text \<open>
  The state of a fault. \<open>ft_once\<close> is that of the \<open>sync.Once\<close>; a timer is armed (\<open>ft_timer\<close>, \<open>ft_holdTimer\<close>),
  and when it has expired its function waits to run (\<open>ft_firing\<close>), which stopping it does not prevent.
\<close>

record faultState =
  ft_f :: fault
  ft_active :: bool
  ft_finished :: bool
  ft_once :: bool
  ft_timer :: bool
  ft_firing :: bool
  ft_holdTimer :: bool

definition newFault :: "fault \<Rightarrow> faultState" where
  "newFault f = \<lparr>ft_f = f, ft_active = False, ft_finished = False, ft_once = False, ft_timer = False,
     ft_firing = False, ft_holdTimer = False\<rparr>"

datatype side = FromClient | FromUpstream

fun direction :: "side \<Rightarrow> string" where
  "direction FromClient = ''client_to_upstream''"
| "direction FromUpstream = ''upstream_to_client''"

text \<open>
  The locations of \<open>pump\<close>: the head of the loop, waiting while held, before \<open>Read\<close>, after it with what was
  read and whether there was an error, the head of the inner loop, before \<open>pace\<close> and before \<open>Write\<close> with the
  length of the chunk, before \<open>reachedBytes\<close> with the amount and whether \<open>Write\<close> failed, before the last check
  of the inner loop, after the inner loop, and returned.
\<close>

datatype location =
    AtTop | AtHold | AtRead
  | AtGot bytes bool
  | AtChunk bytes bool
  | AtPace bytes nat bool
  | AtWrite bytes nat bool
  | AtReach bytes int bool bool
  | AtCheck bytes bool
  | AtTail bool
  | AtDone

text \<open>\<open>pu_ahead\<close> is what was read before dialling and not yet by the pump; \<open>pu_in\<close> and \<open>pu_sent\<close> are all bytes read and written.\<close>

record pump =
  pu_at :: location
  pu_ahead :: bytes
  pu_in :: bytes
  pu_sent :: bytes
  pu_count :: int

definition new_pump :: "bytes \<Rightarrow> pump" where
  "new_pump prefetched = \<lparr>pu_at = AtTop, pu_ahead = prefetched, pu_in = [], pu_sent = [], pu_count = 0\<rparr>"

text \<open>The goroutine that serves the flow waits for the pumps, has chosen the outcome, has left the body, or has recorded the end.\<close>

datatype stage = Forwarding | Chosen string | Leaving string | Finished

record tcp_flow =
  tf_fault :: "faultState option"
  tf_closed :: bool
  tf_client :: pump
  tf_upstream :: pump
  tf_event :: event
  tf_applied :: bool
  tf_events :: "event list"
  tf_stage :: stage

fun pump_of :: "side \<Rightarrow> tcp_flow \<Rightarrow> pump" where
  "pump_of FromClient s = tf_client s"
| "pump_of FromUpstream s = tf_upstream s"

fun set_pump :: "side \<Rightarrow> pump \<Rightarrow> tcp_flow \<Rightarrow> tcp_flow" where
  "set_pump FromClient p s = s\<lparr>tf_client := p\<rparr>"
| "set_pump FromUpstream p s = s\<lparr>tf_upstream := p\<rparr>"

section \<open>The fault\<close>

text \<open>
  \<open>activate\<close> runs once and under the mutex, and is one step of the model. (In the program the pump of the other
  direction can still write between the store to \<open>active\<close> and the closing of the connections; what it wrote is then
  what it could also have written just before the step.)
\<close>

definition activate :: "tcp_flow \<Rightarrow> tcp_flow result" where
  "activate s =
     (case tf_fault s of
        None \<Rightarrow> Inl (Panic ''nil pointer dereference'')
      | Some f \<Rightarrow>
          if ft_once f then Inr s
          else if ft_finished f then Inr (s\<lparr>tf_fault := Some (f\<lparr>ft_once := True\<rparr>)\<rparr>)
          else
            let f1 = f\<lparr>ft_once := True, ft_active := True\<rparr>;
                s1 = s\<lparr>tf_fault := Some f1, tf_applied := True, tf_events := tf_events s @ [appliedEvent (tf_event s)]\<rparr>;
                s2 = (if f_Action (ft_f f) = ''close_connection'' then s1\<lparr>tf_closed := True\<rparr> else s1)
            in if f_Action (ft_f f) = ''hold''
               then (case f_MaxDuration (ft_f f) of
                       None \<Rightarrow> Inl (Panic ''nil pointer dereference'')
                     | Some _ \<Rightarrow> Inr (s2\<lparr>tf_fault := Some (f1\<lparr>ft_holdTimer := True\<rparr>)\<rparr>))
               else Inr s2)"

definition fault_start :: "tcp_flow \<Rightarrow> tcp_flow result" where
  "fault_start s =
     (case tf_fault s of
        None \<Rightarrow> Inl (Panic ''nil pointer dereference'')
      | Some f \<Rightarrow>
          if f_AfterDuration (ft_f f) \<noteq> None then Inr (s\<lparr>tf_fault := Some (f\<lparr>ft_timer := True\<rparr>)\<rparr>)
          else if f_AfterBytes (ft_f f) = None \<or> f_AfterBytes (ft_f f) = Some 0 then activate s
          else Inr s)"

definition fault_stop :: "faultState \<Rightarrow> faultState" where
  "fault_stop f = f\<lparr>ft_finished := True, ft_timer := False, ft_holdTimer := False\<rparr>"

definition reachedBytes :: "string \<Rightarrow> int \<Rightarrow> tcp_flow \<Rightarrow> tcp_flow result" where
  "reachedBytes dir n s =
     (case tf_fault s of
        None \<Rightarrow> Inr s
      | Some f \<Rightarrow>
          (case f_AfterBytes (ft_f f) of
             None \<Rightarrow> Inr s
           | Some limit \<Rightarrow> if f_TriggerDirection (ft_f f) = dir \<and> limit \<le> n then activate s else Inr s))"

definition blocked :: "string \<Rightarrow> faultState option \<Rightarrow> bool" where
  "blocked dir fo = (case fo of
      None \<Rightarrow> False
    | Some f \<Rightarrow> ft_active f \<and> f_Action (ft_f f) = ''hold'' \<and> f_Direction (ft_f f) = dir)"

text \<open>
  \<open>pace\<close>: the wait it asks for, if any. The product is that of \<open>int64\<close>, and the division truncates.
\<close>

definition pace_delay :: "string \<Rightarrow> nat \<Rightarrow> faultState option \<Rightarrow> duration option result" where
  "pace_delay dir n fo =
     (case fo of
        None \<Rightarrow> Inr None
      | Some f \<Rightarrow>
          if \<not> ft_active f \<or> f_Action (ft_f f) \<noteq> ''throttle'' \<or> f_Direction (ft_f f) \<noteq> dir then Inr None
          else case f_BytesPerSecond (ft_f f) of
            None \<Rightarrow> Inl (Panic ''nil pointer dereference'')
          | Some bps \<Rightarrow>
              if bps = 0 then Inl (Panic ''integer divide by zero'')
              else
                let product = (int n * 10 ^ 9 + 2 ^ 63) mod 2 ^ 64 - 2 ^ 63
                in Inr (Some (sgn product * sgn bps * (\<bar>product\<bar> div \<bar>bps\<bar>))))"

section \<open>The pumps\<close>

text \<open>The length of the next chunk of a payload.\<close>

definition chunk_length :: "string \<Rightarrow> int \<Rightarrow> faultState option \<Rightarrow> bytes \<Rightarrow> nat" where
  "chunk_length dir n fo payload =
     (case fo of
        None \<Rightarrow> length payload
      | Some f \<Rightarrow>
          let cut = (case f_AfterBytes (ft_f f) of
                None \<Rightarrow> length payload
              | Some limit \<Rightarrow>
                  if f_TriggerDirection (ft_f f) = dir \<and> \<not> ft_active f \<and> 0 < limit - n \<and> limit - n < int (length payload)
                  then nat (limit - n) else length payload)
          in if 1024 < cut \<and> f_Action (ft_f f) = ''throttle'' then 1024 else cut)"

text \<open>
  An input of a move: none, what \<open>Read\<close> returned, how a wait ended (\<open>False\<close>: cancelled), how many bytes
  \<open>Write\<close> took and whether it failed, and whether the context was done at the end of the loop.
\<close>

datatype pump_input =
    NoInput
  | ReadGives bytes bool
  | WaitEnds bool
  | WriteGives nat bool
  | ContextDone bool

definition goto :: "side \<Rightarrow> location \<Rightarrow> tcp_flow \<Rightarrow> tcp_flow" where
  "goto d l s = set_pump d ((pump_of d s)\<lparr>pu_at := l\<rparr>) s"

text \<open>
  \<open>Read\<close> into the buffer of 4096 bytes, from what was read ahead while there is some (\<open>io.MultiReader\<close>), else
  from the connection. \<open>Write\<close> takes at most the chunk; on a closed connection it takes nothing and fails.
\<close>

definition pump_read :: "side \<Rightarrow> bytes \<Rightarrow> bool \<Rightarrow> tcp_flow \<Rightarrow> tcp_flow option" where
  "pump_read d data err s =
     (let p = pump_of d s in
      if pu_ahead p \<noteq> []
      then if data = take 4096 (pu_ahead p) \<and> \<not> err
           then Some (set_pump d (p\<lparr>pu_at := AtGot data False, pu_ahead := drop 4096 (pu_ahead p), pu_in := pu_in p @ data\<rparr>) s)
           else None
      else if length data \<le> 4096
      then Some (set_pump d (p\<lparr>pu_at := AtGot data err, pu_in := pu_in p @ data\<rparr>) s)
      else None)"

definition pump_write :: "side \<Rightarrow> bytes \<Rightarrow> nat \<Rightarrow> bool \<Rightarrow> nat \<Rightarrow> bool \<Rightarrow> tcp_flow \<Rightarrow> tcp_flow option" where
  "pump_write d payload n readErr written err s =
     (let p = pump_of d s in
      if written > n \<or> (tf_closed s \<and> \<not> (written = 0 \<and> err)) then None
      else if written = 0 then Some (goto d AtDone s)
      else Some (set_pump d (p\<lparr>pu_at := AtReach (drop written payload) (pu_count p + int written) readErr err,
             pu_sent := pu_sent p @ take written payload, pu_count := pu_count p + int written\<rparr>) s))"

text \<open>One move of a pump: \<open>None\<close> when the input does not fit the location.\<close>

fun pump_move :: "side \<Rightarrow> pump_input \<Rightarrow> location \<Rightarrow> tcp_flow \<Rightarrow> tcp_flow result option" where
  "pump_move d NoInput AtTop s = Some (Inr (goto d (if blocked (direction d) (tf_fault s) then AtHold else AtRead) s))"
| "pump_move d (WaitEnds b) AtHold s = Some (Inr (goto d AtDone s))"
| "pump_move d (ReadGives data err) AtRead s = map_option Inr (pump_read d data err s)"
| "pump_move d NoInput (AtGot payload readErr) s = Some (Inr (goto d
     (if payload = [] then AtTail readErr
      else if blocked (direction d) (tf_fault s) then AtTop
      else AtChunk payload readErr) s))"
| "pump_move d NoInput (AtChunk payload readErr) s = Some (Inr (goto d
     (if payload = [] then AtTail readErr
      else AtPace payload (chunk_length (direction d) (pu_count (pump_of d s)) (tf_fault s) payload) readErr) s))"
| "pump_move d (WaitEnds b) (AtPace payload n readErr) s =
     (case pace_delay (direction d) n (tf_fault s) of
        Inl e \<Rightarrow> Some (Inl e)
      | Inr None \<Rightarrow> Some (Inr (goto d (AtWrite payload n readErr) s))
      | Inr (Some _) \<Rightarrow> Some (Inr (goto d (if b then AtWrite payload n readErr else AtDone) s)))"
| "pump_move d (WriteGives written err) (AtWrite payload n readErr) s = map_option Inr (pump_write d payload n readErr written err s)"
| "pump_move d NoInput (AtReach payload amount readErr err) s =
     (case reachedBytes (direction d) amount s of
        Inl e \<Rightarrow> Some (Inl e)
      | Inr s' \<Rightarrow> Some (Inr (goto d (if err then AtDone else AtCheck payload readErr) s')))"
| "pump_move d NoInput (AtCheck payload readErr) s = Some (Inr (goto d
     (if blocked (direction d) (tf_fault s) then AtTail readErr else AtChunk payload readErr) s))"
| "pump_move d (ContextDone b) (AtTail readErr) s = Some (Inr (goto d (if readErr \<or> b then AtDone else AtTop) s))"
| "pump_move d i l s = None"

section \<open>The flow\<close>

text \<open>
  The moves of a flow: a move of a pump; the timer of the fault expires, and its function runs; the timer of a hold
  closes both connections; the pumps are joined and the outcome is chosen; the fault is stopped; the end is
  recorded at an instant.
\<close>

datatype tcp_move = Move side pump_input | TimerExpires | TimerRuns | HoldExpires | Join | Stop | Finish instant

definition choose_outcome :: "tcp_flow \<Rightarrow> string" where
  "choose_outcome s = (case tf_fault s of
      None \<Rightarrow> ''forwarded''
    | Some f \<Rightarrow> if ft_active f then f_Action (ft_f f) else ''forwarded'')"

fun tcp_exec :: "tcp_move \<Rightarrow> tcp_flow \<Rightarrow> tcp_flow result option" where
  "tcp_exec (Move d i) s = (if tf_stage s = Forwarding then pump_move d i (pu_at (pump_of d s)) s else None)"
| "tcp_exec TimerExpires s = (case tf_fault s of
      Some f \<Rightarrow> if ft_timer f then Some (Inr (s\<lparr>tf_fault := Some (f\<lparr>ft_timer := False, ft_firing := True\<rparr>)\<rparr>)) else None
    | None \<Rightarrow> None)"
| "tcp_exec TimerRuns s = (case tf_fault s of
      Some f \<Rightarrow> if ft_firing f then Some (activate (s\<lparr>tf_fault := Some (f\<lparr>ft_firing := False\<rparr>)\<rparr>)) else None
    | None \<Rightarrow> None)"
| "tcp_exec HoldExpires s = (case tf_fault s of
      Some f \<Rightarrow> if ft_holdTimer f then Some (Inr (s\<lparr>tf_fault := Some (f\<lparr>ft_holdTimer := False\<rparr>), tf_closed := True\<rparr>)) else None
    | None \<Rightarrow> None)"
| "tcp_exec Join s = (if tf_stage s = Forwarding \<and> pu_at (tf_client s) = AtDone \<and> pu_at (tf_upstream s) = AtDone
      then Some (Inr (s\<lparr>tf_stage := Chosen (choose_outcome s)\<rparr>)) else None)"
| "tcp_exec Stop s = (case tf_stage s of
      Chosen outcome \<Rightarrow> Some (Inr (s\<lparr>tf_fault := map_option fault_stop (tf_fault s), tf_stage := Leaving outcome, tf_closed := True\<rparr>))
    | _ \<Rightarrow> None)"
| "tcp_exec (Finish now) s = (case tf_stage s of
      Leaving outcome \<Rightarrow> Some (Inr (s\<lparr>tf_stage := Finished, tf_events := tf_events s @
        [tcp_finish_event (tf_event s) (tf_applied s) outcome now (pu_count (tf_client s)) (pu_count (tf_upstream s))]\<rparr>))
    | _ \<Rightarrow> None)"

inductive tcp_run :: "tcp_flow \<Rightarrow> tcp_move list \<Rightarrow> tcp_flow \<Rightarrow> bool" where
  tcp_none: "tcp_run s [] s"
| tcp_more: "tcp_run s ms s' \<Longrightarrow> tcp_exec m s' = Some (Inr s'') \<Longrightarrow> tcp_run s (ms @ [m]) s''"

section \<open>The beginning of a flow\<close>

datatype read_error = TimedOut | ReadFailed gerror

text \<open>
  \<open>waitBeforeDial\<close>, with the results of the calls of \<open>Read\<close> in their order; after the last one the deadline
  passes. \<open>canceled\<close> says that the context is done when the wait ends.
\<close>

fun waitBeforeDial :: "bool \<Rightarrow> (bytes \<times> read_error option) list \<Rightarrow> bytes \<Rightarrow> bytes result" where
  "waitBeforeDial canceled reads buffer =
     (if 16384 \<le> length buffer then (if canceled then Inl Canceled else Inr buffer)
      else case reads of
        [] \<Rightarrow> if canceled then Inl (Err ''i/o timeout'') else Inr buffer
      | (data, err) # rest \<Rightarrow>
          let buffer' = buffer @ take (min 4096 (16384 - length buffer)) data in
          (case err of
             None \<Rightarrow> waitBeforeDial canceled rest buffer'
           | Some TimedOut \<Rightarrow> if canceled then Inl (Err ''i/o timeout'') else Inr buffer'
           | Some (ReadFailed e) \<Rightarrow> Inl e))"

declare waitBeforeDial.simps [simp del]

text \<open>What a flow meets before bytes are copied: the reads and the end of the wait, and whether dialling succeeds.\<close>

record tcp_begin =
  tb_flowID :: string
  tb_started :: instant
  tb_canceled :: bool
  tb_reads :: "(bytes \<times> read_error option) list"
  tb_dialed :: bool

definition tcp_connect :: "tcp_begin \<Rightarrow> decision \<Rightarrow> bytes \<Rightarrow> tcp_flow \<Rightarrow> tcp_flow result" where
  "tcp_connect b d prefetched s =
     (if \<not> tb_dialed b then Inr (s\<lparr>tf_stage := Leaving ''dial_error''\<rparr>)
      else
        let s1 = s\<lparr>tf_client := new_pump prefetched, tf_stage := Forwarding\<rparr> in
        if \<not> de_Selected d \<or> f_Action (de_Fault d) = ''delay_connect'' then Inr s1
        else fault_start (s1\<lparr>tf_fault := Some (newFault (de_Fault d))\<rparr>))"

definition tcp_serve :: "string \<Rightarrow> snapshot \<Rightarrow> tcp_begin \<Rightarrow> ('h, 'p) service \<Rightarrow> (('h, 'p) service \<times> tcp_flow) result" where
  "tcp_serve proxyID snap b sv =
     (case snapshot_Decide snap proxyID no_metadata sv of
        Inl e \<Rightarrow> Inl e
      | Inr (sv', d, _) \<Rightarrow>
          let e0 = tcp_start_event (sn_info snap) (tb_flowID b) proxyID (tb_started b);
              e1 = tcp_decision_event d e0;
              s = \<lparr>tf_fault = None, tf_closed = False, tf_client = new_pump [], tf_upstream = new_pump [], tf_event = e1,
                   tf_applied = False, tf_events = [e0, e1], tf_stage = Leaving ''forwarded''\<rparr>
          in map_sum id (Pair sv')
            (if de_Selected d \<and> f_Action (de_Fault d) = ''delay_connect'' then
               (if f_Duration (de_Fault d) = None then Inl (Panic ''nil pointer dereference'')
                else case waitBeforeDial (tb_canceled b) (tb_reads b) [] of
                  Inl _ \<Rightarrow> Inr (s\<lparr>tf_stage := Leaving ''client_closed''\<rparr>)
                | Inr prefetched \<Rightarrow> tcp_connect b d prefetched
                    (s\<lparr>tf_applied := True, tf_events := tf_events s @ [appliedEvent e1]\<rparr>))
             else tcp_connect b d [] s))"

end
