(* ===== verification/Spec2Isabelle.thy ===== *)
theory Spec2Isabelle
  imports Load_Correct Mysql_Auth_Correct Pg_Properties Remote_Properties Tcp
begin

text \<open>
  Verification of faultline, a proxy that injects faults.
\<close>

end
